(* ===== verification/Prelude.thy ===== *)
theory Prelude
  imports Main "HOL-Library.AList" "HOL-Library.Char_ord" "HOL-Library.List_Lexorder"
    "HOL-Library.Sublist"
begin

text \<open>
  What every component shares: Go's errors as values, the byte-string functions of the
  packages strings, strconv and fmt that the source calls, and Go maps as association lists.
  A Go string is a sequence of bytes, here a \<open>char list\<close> (an Isabelle \<open>char\<close> is a byte).
  Case conversion and white space follow Go on ASCII; bytes from 128 up are left alone, where
  Go would decode UTF-8 first.
\<close>

section \<open>Hint collections\<close>

named_theorems str_simps \<open>rewriting of the byte-string functions\<close>
named_theorems chars_in \<open>which characters a string function can return\<close>

section \<open>Errors\<close>

text \<open>
  A Go \<open>error\<close> is its text and what \<open>os.IsNotExist\<close>, \<open>os.IsExist\<close> and \<open>errors.Is\<close> can
  see of it. \<open>fmt.Errorf\<close> with \<open>%w\<close> puts text in front and keeps the rest. A panic travels as an
  error of kind \<open>KPanic\<close>, which the handlers of the source must not catch: where the code
  inspects an error, the model lets that kind through.
\<close>

datatype err_kind = KNotExist | KExist | KHelp | KPanic | KOther

datatype error = Error (err_kind: err_kind) (err_msg: string)

type_synonym 'a res = "error + 'a"

definition errorf :: "string \<Rightarrow> error" where
  "errorf s = Error KOther s"

definition wrapf :: "string \<Rightarrow> error \<Rightarrow> error" where
  "wrapf pre e = Error (err_kind e) (pre @ '': '' @ err_msg e)"

definition panicf :: "string \<Rightarrow> error" where
  "panicf s = Error KPanic s"

definition is_panic :: "error \<Rightarrow> bool" where
  "is_panic e = (err_kind e = KPanic)"

lemma is_panic_simps [simp]:
  "is_panic (panicf s)" "\<not> is_panic (errorf s)" "is_panic (wrapf p e) = is_panic e"
  by (simp_all add: is_panic_def panicf_def errorf_def wrapf_def)

lemma err_kind_simps [simp]:
  "err_kind (errorf s) = KOther" "err_msg (errorf s) = s"
  "err_kind (wrapf p e) = err_kind e" "err_msg (wrapf p e) = p @ '': '' @ err_msg e"
  by (simp_all add: errorf_def wrapf_def)

definition is_ok :: "'a res \<Rightarrow> bool" where
  "is_ok r = (case r of Inl _ \<Rightarrow> False | Inr _ \<Rightarrow> True)"

lemma is_ok_simps [simp]: "is_ok (Inr x)" "\<not> is_ok (Inl e)"
  by (simp_all add: is_ok_def)

lemma is_ok_iff: "is_ok r \<longleftrightarrow> (\<exists>x. r = Inr x)"
  by (cases r) simp_all

section \<open>Characters\<close>

definition ord_c :: "char \<Rightarrow> int" where
  "ord_c c = of_char c"

definition chr_n :: "int \<Rightarrow> char" where
  "chr_n n = char_of n"

lemma ord_chr: "0 \<le> n \<Longrightarrow> n < 256 \<Longrightarrow> ord_c (chr_n n) = n"
  by (simp add: ord_c_def chr_n_def)

lemma chr_ord [simp]: "chr_n (ord_c c) = c"
  by (simp add: ord_c_def chr_n_def)

lemma ord_c_bounds: "0 \<le> ord_c c" "ord_c c < 256"
proof -
  have "(of_char c :: int) = of_char (char_of (of_char c :: int))" by simp
  also have "\<dots> = of_char c mod 256" by (rule of_char_of)
  finally have "(of_char c :: int) = of_char c mod 256" .
  then show "0 \<le> ord_c c" "ord_c c < 256"
    unfolding ord_c_def by (metis pos_mod_sign pos_mod_bound zero_less_numeral)+
qed

lemma ord_c_inject: "ord_c c = ord_c d \<longleftrightarrow> c = d"
  by (metis chr_ord)

definition is_upper :: "char \<Rightarrow> bool" where
  "is_upper c = (65 \<le> ord_c c \<and> ord_c c \<le> 90)"

definition is_lower :: "char \<Rightarrow> bool" where
  "is_lower c = (97 \<le> ord_c c \<and> ord_c c \<le> 122)"

definition is_digit :: "char \<Rightarrow> bool" where
  "is_digit c = (48 \<le> ord_c c \<and> ord_c c \<le> 57)"

definition is_space :: "char \<Rightarrow> bool" where
  "is_space c = (ord_c c = 32 \<or> (9 \<le> ord_c c \<and> ord_c c \<le> 13))"

definition newline :: char where
  "newline = CHR 0x0A"

definition lower_char :: "char \<Rightarrow> char" where
  "lower_char c = (if is_upper c then chr_n (ord_c c + 32) else c)"

definition upper_char :: "char \<Rightarrow> char" where
  "upper_char c = (if is_lower c then chr_n (ord_c c - 32) else c)"

lemma lower_char_not_upper: "\<not> is_upper (lower_char c)"
  by (auto simp: lower_char_def is_upper_def ord_chr)

lemma lower_char_idem [simp]: "lower_char (lower_char c) = lower_char c"
  using lower_char_not_upper [of c] by (simp add: lower_char_def [of "lower_char c"])

lemma lower_char_id: "is_lower c \<or> is_digit c \<Longrightarrow> lower_char c = c"
  by (auto simp: lower_char_def is_lower_def is_digit_def is_upper_def)

section \<open>The package strings\<close>

definition to_lower :: "string \<Rightarrow> string" where
  "to_lower s = map lower_char s"

definition to_upper :: "string \<Rightarrow> string" where
  "to_upper s = map upper_char s"

definition has_prefix :: "string \<Rightarrow> string \<Rightarrow> bool" where
  "has_prefix s p = prefix p s"

definition has_suffix :: "string \<Rightarrow> string \<Rightarrow> bool" where
  "has_suffix s p = suffix p s"

definition contains :: "string \<Rightarrow> string \<Rightarrow> bool" where
  "contains s p = sublist p s"

definition trim_prefix :: "string \<Rightarrow> string \<Rightarrow> string" where
  "trim_prefix s p = (if has_prefix s p then drop (length p) s else s)"

definition trim_suffix :: "string \<Rightarrow> string \<Rightarrow> string" where
  "trim_suffix s p = (if has_suffix s p then take (length s - length p) s else s)"

definition trim_left :: "(char \<Rightarrow> bool) \<Rightarrow> string \<Rightarrow> string" where
  "trim_left P s = dropWhile P s"

definition trim_right :: "(char \<Rightarrow> bool) \<Rightarrow> string \<Rightarrow> string" where
  "trim_right P s = rev (dropWhile P (rev s))"

definition trim_both :: "(char \<Rightarrow> bool) \<Rightarrow> string \<Rightarrow> string" where
  "trim_both P s = trim_right P (trim_left P s)"

definition trim_space :: "string \<Rightarrow> string" where
  "trim_space s = trim_both is_space s"

fun split_on :: "char \<Rightarrow> string \<Rightarrow> string list" where
  "split_on c [] = [[]]"
| "split_on c (x # xs) =
     (if x = c then [] # split_on c xs
      else case split_on c xs of [] \<Rightarrow> [[x]] | y # ys \<Rightarrow> (x # y) # ys)"

definition cut :: "char \<Rightarrow> string \<Rightarrow> (string \<times> string) option" where
  "cut c s = (if c \<in> set s
     then Some (takeWhile (\<lambda>x. x \<noteq> c) s, tl (dropWhile (\<lambda>x. x \<noteq> c) s)) else None)"

fun join :: "string \<Rightarrow> string list \<Rightarrow> string" where
  "join sep [] = []"
| "join sep [x] = x"
| "join sep (x # y # xs) = x @ sep @ join sep (y # xs)"

text \<open>\<open>strings.Fields\<close>: the maximal runs of non-space bytes.\<close>

definition str_fields :: "string \<Rightarrow> string list" where
  "str_fields s = filter (\<lambda>w. w \<noteq> []) (split_on CHR '' '' (map (\<lambda>c. if is_space c then CHR '' '' else c) s))"

subsection \<open>Laws of the string functions\<close>

lemma map_lower_idem [str_simps]: "to_lower (to_lower s) = to_lower s"
  by (simp add: to_lower_def)

lemma to_lower_append [str_simps]: "to_lower (s @ t) = to_lower s @ to_lower t"
  by (simp add: to_lower_def)

lemma to_lower_no_upper [chars_in]: "c \<in> set (to_lower s) \<Longrightarrow> \<not> is_upper c"
  by (auto simp: to_lower_def lower_char_not_upper)

lemma to_lower_id: "\<forall>c \<in> set s. \<not> is_upper c \<Longrightarrow> to_lower s = s"
  by (induction s) (auto simp: to_lower_def lower_char_def)

lemma has_prefix_append [simp]: "has_prefix (p @ s) p"
  by (simp add: has_prefix_def)

lemma has_suffix_append [simp]: "has_suffix (s @ p) p"
  by (simp add: has_suffix_def suffix_def)

lemma trim_suffix_append [str_simps]: "trim_suffix (s @ p) p = s"
  by (simp add: trim_suffix_def)

lemma trim_prefix_append [str_simps]: "trim_prefix (p @ s) p = s"
  by (simp add: trim_prefix_def)

lemma set_trim_prefix [chars_in]: "c \<in> set (trim_prefix s p) \<Longrightarrow> c \<in> set s"
  by (auto simp: trim_prefix_def split: if_splits dest: in_set_dropD)

lemma set_trim_suffix [chars_in]: "c \<in> set (trim_suffix s p) \<Longrightarrow> c \<in> set s"
  by (auto simp: trim_suffix_def split: if_splits dest: in_set_takeD)

lemma set_trim_both [chars_in]: "c \<in> set (trim_both P s) \<Longrightarrow> c \<in> set s"
proof -
  assume "c \<in> set (trim_both P s)"
  then have "c \<in> set (dropWhile P (rev (dropWhile P s)))"
    by (simp add: trim_both_def trim_right_def trim_left_def)
  then have "c \<in> set (dropWhile P s)" by (auto dest: set_dropWhileD)
  then show "c \<in> set s" by (auto dest: set_dropWhileD)
qed

lemma hd_trim_right:
  assumes "trim_right P s \<noteq> []"
  shows "hd (trim_right P s) = hd s"
proof -
  have "suffix (dropWhile P (rev s)) (rev s)" by (rule suffix_dropWhile)
  then have "prefix (trim_right P s) s"
    by (simp add: trim_right_def suffix_to_prefix)
  then obtain zs where "s = trim_right P s @ zs" by (auto simp: prefix_def)
  with assms show ?thesis by (metis hd_append2)
qed

lemma hd_trim_both: "trim_both P s \<noteq> [] \<Longrightarrow> \<not> P (hd (trim_both P s))"
  by (metis hd_dropWhile hd_trim_right trim_both_def trim_left_def trim_right_def
      dropWhile.simps(1) rev.simps(1) rev_is_Nil_conv)

lemma last_trim_both: "trim_both P s \<noteq> [] \<Longrightarrow> \<not> P (last (trim_both P s))"
  unfolding trim_both_def trim_right_def by (metis hd_dropWhile last_rev rev_is_Nil_conv)

lemma trim_both_id:
  assumes "s = [] \<or> (\<not> P (hd s) \<and> \<not> P (last s))"
  shows "trim_both P s = s"
proof (cases s)
  case Nil
  then show ?thesis by (simp add: trim_both_def trim_left_def trim_right_def)
next
  case (Cons x xs)
  with assms have hd: "dropWhile P s = s" and l: "\<not> P (last s)" by auto
  obtain ys y where y: "s = ys @ [y]" using Cons by (metis append_butlast_last_id list.discI)
  with l show ?thesis
    unfolding trim_both_def trim_left_def trim_right_def hd by simp
qed

lemma trim_both_idem [str_simps]: "trim_both P (trim_both P s) = trim_both P s"
  by (rule trim_both_id) (auto dest: hd_trim_both last_trim_both)

lemma trim_both_Nil_iff: "trim_both P s = [] \<longleftrightarrow> (\<forall>c \<in> set s. P c)"
proof
  assume a: "trim_both P s = []"
  then have "\<forall>c \<in> set (dropWhile P s). P c"
    by (simp add: trim_both_def trim_right_def trim_left_def)
  then have "dropWhile P s = []"
    by (metis hd_dropWhile hd_in_set)
  then show "\<forall>c \<in> set s. P c" by simp
next
  assume "\<forall>c \<in> set s. P c"
  then have "dropWhile P s = []" by simp
  then show "trim_both P s = []"
    by (simp only: trim_both_def trim_right_def trim_left_def rev.simps dropWhile.simps)
qed

lemma split_on_not_Nil [simp]: "split_on c s \<noteq> []"
  by (induction s) (auto split: list.splits)

lemma split_on_no_sep: "w \<in> set (split_on c s) \<Longrightarrow> c \<notin> set w"
proof (induction s arbitrary: w)
  case (Cons x xs)
  then show ?case by (cases "split_on c xs") (auto split: if_splits)
qed simp

lemma split_on_single: "c \<notin> set s \<Longrightarrow> split_on c s = [s]"
  by (induction s) auto

lemma split_on_append: "c \<notin> set a \<Longrightarrow> split_on c (a @ c # b) = a # split_on c b"
  by (induction a) auto

lemma join_split_on: "join [c] (split_on c s) = s"
proof (induction s)
  case (Cons x xs)
  then show ?case
    by (cases "split_on c xs"; cases "tl (split_on c xs)") auto
qed simp

lemma split_on_lines:
  "\<forall>l \<in> set ls. c \<notin> set l \<Longrightarrow> split_on c (concat (map (\<lambda>l. l @ [c]) ls)) = ls @ [[]]"
  by (induction ls) (auto simp: split_on_append)

lemma cut_append [str_simps]: "c \<notin> set a \<Longrightarrow> cut c (a @ c # b) = Some (a, b)"
proof -
  assume c: "c \<notin> set a"
  then have "takeWhile (\<lambda>x. x \<noteq> c) (a @ c # b) = a"
    by (induction a) auto
  moreover from c have "dropWhile (\<lambda>x. x \<noteq> c) (a @ c # b) = c # b"
    by (induction a) auto
  ultimately show ?thesis by (simp add: cut_def)
qed

lemma cut_Some: "cut c s = Some (a, b) \<Longrightarrow> s = a @ c # b \<and> c \<notin> set a"
proof -
  assume h: "cut c s = Some (a, b)"
  then have c: "c \<in> set s" and a: "a = takeWhile (\<lambda>x. x \<noteq> c) s"
    and b: "b = tl (dropWhile (\<lambda>x. x \<noteq> c) s)"
    by (auto simp: cut_def split: if_splits)
  from c have "dropWhile (\<lambda>x. x \<noteq> c) s \<noteq> []" by auto
  then have "dropWhile (\<lambda>x. x \<noteq> c) s = c # b"
    using hd_dropWhile [of "\<lambda>x. x \<noteq> c" s] b by (metis list.exhaust_sel)
  then show ?thesis
    using a takeWhile_dropWhile_id [of "\<lambda>x. x \<noteq> c" s] by (auto dest: set_takeWhileD)
qed

lemma cut_None: "cut c s = None \<longleftrightarrow> c \<notin> set s"
  by (simp add: cut_def)

section \<open>The packages strconv and fmt\<close>

definition digit_char :: "int \<Rightarrow> char" where
  "digit_char d = chr_n (48 + d)"

function show_dec :: "int \<Rightarrow> string" where
  "show_dec n = (if n < 10 then [digit_char n] else show_dec (n div 10) @ [digit_char (n mod 10)])"
  by pat_completeness auto
termination
  by (relation "measure nat") auto

declare show_dec.simps [simp del]

definition show_int :: "int \<Rightarrow> string" where
  "show_int i = (if i < 0 then CHR ''-'' # show_dec (- i) else show_dec i)"

text \<open>\<open>%0wd\<close> of a number that is not negative: decimal, padded with zeros to width \<open>w\<close>.\<close>

definition pad_dec :: "nat \<Rightarrow> int \<Rightarrow> string" where
  "pad_dec w n = replicate (w - length (show_dec n)) CHR ''0'' @ show_dec n"

definition digits_value :: "string \<Rightarrow> int" where
  "digits_value ds = foldl (\<lambda>a c. 10 * a + (ord_c c - 48)) 0 ds"

definition int64_max :: int where
  "int64_max = 9223372036854775807"

text \<open>\<open>strconv.Atoi\<close>: an optional sign, at least one digit, and the range of a 64-bit \<open>int\<close>.\<close>

definition atoi :: "string \<Rightarrow> int res" where
  "atoi s =
     (let (sg, ds) = (case s of [] \<Rightarrow> (1, [])
                      | c # cs \<Rightarrow> if c = CHR ''-'' then (-1, cs)
                                  else if c = CHR ''+'' then (1, cs) else (1, s));
          v = sg * digits_value ds
      in if ds = [] \<or> \<not> list_all is_digit ds then Inl (errorf (''strconv.Atoi: parsing '' @ s @ '': invalid syntax''))
         else if v > int64_max \<or> v < - int64_max - 1
           then Inl (errorf (''strconv.Atoi: parsing '' @ s @ '': value out of range''))
         else Inr v)"

lemma ord_digit_char: "0 \<le> d \<Longrightarrow> d < 10 \<Longrightarrow> ord_c (digit_char d) = 48 + d"
  by (simp add: digit_char_def ord_chr)

lemma is_digit_digit_char [simp]: "0 \<le> d \<Longrightarrow> d < 10 \<Longrightarrow> is_digit (digit_char d)"
  by (simp add: is_digit_def ord_digit_char)

lemma show_dec_not_Nil [simp]: "show_dec n \<noteq> []"
  by (subst show_dec.simps) auto

lemma show_dec_digits: "0 \<le> n \<Longrightarrow> list_all is_digit (show_dec n)"
proof (induction n rule: show_dec.induct)
  case (1 n)
  then show ?case by (subst show_dec.simps) auto
qed

lemma digits_value_snoc: "digits_value (ds @ [c]) = 10 * digits_value ds + (ord_c c - 48)"
  by (simp add: digits_value_def)

lemma digits_value_show_dec [simp]: "0 \<le> n \<Longrightarrow> digits_value (show_dec n) = n"
proof (induction n rule: show_dec.induct)
  case (1 n)
  show ?case
  proof (cases "n < 10")
    case True
    then show ?thesis using "1.prems"
      by (subst show_dec.simps) (simp add: digits_value_def ord_digit_char)
  next
    case False
    have "show_dec n = show_dec (n div 10) @ [digit_char (n mod 10)]"
      using False by (subst show_dec.simps) simp
    with "1.IH" [OF False] False show ?thesis
      by (simp add: digits_value_snoc ord_digit_char)
  qed
qed

lemma digit_not_sign: "is_digit c \<Longrightarrow> c \<noteq> CHR ''-'' \<and> c \<noteq> CHR ''+''"
  by (auto simp: is_digit_def ord_c_def)

lemma atoi_show_dec: "0 \<le> n \<Longrightarrow> n \<le> int64_max \<Longrightarrow> atoi (show_dec n) = Inr n"
proof -
  assume n: "0 \<le> n" "n \<le> int64_max"
  obtain c cs where c: "show_dec n = c # cs" by (cases "show_dec n") simp_all
  with show_dec_digits [OF n(1)] have d: "is_digit c" and ds: "list_all is_digit (c # cs)" by auto
  from c have v: "digits_value (c # cs) = n" using n by (metis digits_value_show_dec)
  show ?thesis
    using n digit_not_sign [OF d] ds unfolding c
    by (simp add: atoi_def v int64_max_def)
qed

lemma atoi_range: "atoi s = Inr n \<Longrightarrow> - int64_max - 1 \<le> n \<and> n \<le> int64_max"
  by (auto simp: atoi_def Let_def split: if_splits prod.splits)

text \<open>\<open>%q\<close> on ASCII text.\<close>

definition hex_digit :: "int \<Rightarrow> char" where
  "hex_digit d = (if d < 10 then chr_n (48 + d) else chr_n (87 + d))"

definition quote_char :: "char \<Rightarrow> string" where
  "quote_char c =
     (if c = CHR 0x22 then [CHR 0x5C, CHR 0x22]
      else if c = CHR 0x5C then [CHR 0x5C, CHR 0x5C]
      else if c = newline then [CHR 0x5C, CHR ''n'']
      else if ord_c c = 9 then [CHR 0x5C, CHR ''t'']
      else if ord_c c = 13 then [CHR 0x5C, CHR ''r'']
      else if ord_c c < 32 \<or> ord_c c = 127
        then [CHR 0x5C, CHR ''x'', hex_digit (ord_c c div 16), hex_digit (ord_c c mod 16)]
      else [c])"

definition quote :: "string \<Rightarrow> string" where
  "quote s = CHR 0x22 # concat (map quote_char s) @ [CHR 0x22]"

section \<open>Go maps with string keys\<close>

text \<open>
  A \<open>map[string]string\<close> is an association list; its order stands for the order one run of
  \<open>range\<close> takes, which Go leaves open. A read of a missing key gives the empty string.
\<close>

type_synonym smap = "(string \<times> string) list"

definition mget :: "smap \<Rightarrow> string \<Rightarrow> string" where
  "mget m k = (case map_of m k of None \<Rightarrow> [] | Some v \<Rightarrow> v)"

definition mput :: "string \<Rightarrow> 'v \<Rightarrow> (string \<times> 'v) list \<Rightarrow> (string \<times> 'v) list" where
  "mput k v m = AList.update k v m"

lemma map_of_mput [simp]: "map_of (mput k v m) = (map_of m)(k \<mapsto> v)"
  by (simp add: mput_def update_conv')

lemma mget_mput [simp]: "mget (mput k v m) j = (if j = k then v else mget m j)"
  by (simp add: mget_def)

lemma distinct_mput: "distinct (map fst m) \<Longrightarrow> distinct (map fst (mput k v m))"
  by (simp add: mput_def distinct_update)

lemma keys_mput: "fst ` set (mput k v m) = insert k (fst ` set m)"
  by (simp add: mput_def dom_update)

lemma mget_Nil [simp]: "mget [] k = []"
  by (simp add: mget_def)

end
