(* ===== verification/GoPath.thy ===== *)
theory GoPath
  imports Prelude
begin

text \<open>
  The functions of Go's packages path and path/filepath that the source calls, on slash
  separated paths (path everywhere, path/filepath on Unix): \<open>Clean\<close>, \<open>Join\<close>, \<open>Base\<close>, \<open>Dir\<close>,
  and the law the components rest on: the base name of a join is the name joined.
\<close>

definition slash :: char where
  "slash = CHR ''/''"

fun clean_segs :: "bool \<Rightarrow> string list \<Rightarrow> string list \<Rightarrow> string list" where
  "clean_segs r acc [] = rev acc"
| "clean_segs r acc (x # xs) =
     (if x = [] \<or> x = ''.'' then clean_segs r acc xs
      else if x = ''..'' then
        (case acc of
           [] \<Rightarrow> if r then clean_segs r [] xs else clean_segs r [''..''] xs
         | a # as \<Rightarrow> if a = ''..'' then clean_segs r (''..'' # acc) xs else clean_segs r as xs)
      else clean_segs r (x # acc) xs)"

definition rooted :: "string \<Rightarrow> bool" where
  "rooted p = (case p of [] \<Rightarrow> False | c # _ \<Rightarrow> c = slash)"

definition render_segs :: "bool \<Rightarrow> string list \<Rightarrow> string" where
  "render_segs r xs =
     (if r then slash # join [slash] xs else if xs = [] then ''.'' else join [slash] xs)"

definition path_clean :: "string \<Rightarrow> string" where
  "path_clean p = render_segs (rooted p) (clean_segs (rooted p) [] (split_on slash p))"

definition path_join :: "string list \<Rightarrow> string" where
  "path_join es =
     (case dropWhile (\<lambda>e. e = []) es of [] \<Rightarrow> [] | es' \<Rightarrow> path_clean (join [slash] es'))"

definition path_base :: "string \<Rightarrow> string" where
  "path_base p =
     (if p = [] then ''.''
      else let t = trim_right (\<lambda>c. c = slash) p
           in if t = [] then [slash] else last (split_on slash t))"

definition path_dir :: "string \<Rightarrow> string" where
  "path_dir p = path_clean (rev (dropWhile (\<lambda>c. c \<noteq> slash) (rev p)))"

text \<open>A plain file name: one path segment that means itself.\<close>

definition plain_name :: "string \<Rightarrow> bool" where
  "plain_name f = (f \<noteq> [] \<and> f \<noteq> ''.'' \<and> f \<noteq> ''..'' \<and> slash \<notin> set f)"

lemma clean_segs_snoc: "plain_name f \<Longrightarrow> clean_segs r acc (xs @ [f]) = clean_segs r acc xs @ [f]"
  by (induction r acc xs rule: clean_segs.induct) (auto simp: plain_name_def split: list.splits)

lemma clean_segs_subset: "set (clean_segs r acc xs) \<subseteq> set acc \<union> set xs \<union> {''..''}"
proof (induction xs arbitrary: acc)
  case (Cons x xs)
  note ih = Cons.IH [of acc] Cons.IH [of "[]"] Cons.IH [of "[''..'']"] Cons.IH [of "''..'' # acc"]
    Cons.IH [of "tl acc"] Cons.IH [of "x # acc"]
  let ?U = "{clean_segs r acc xs, clean_segs r [] xs, clean_segs r [''..''] xs,
    clean_segs r (''..'' # acc) xs, clean_segs r (tl acc) xs, clean_segs r (x # acc) xs}"
  have "clean_segs r acc (x # xs) \<in> ?U"
    by (cases acc) simp_all
  moreover have "set (tl acc) \<subseteq> set acc" by (cases acc) auto
  with ih have "\<forall>u \<in> ?U. set u \<subseteq> set acc \<union> set (x # xs) \<union> {''..''}" by auto
  ultimately show ?case by blast
qed auto

lemma clean_segs_no_slash:
  assumes "\<forall>x \<in> set acc \<union> set xs. slash \<notin> set x" and "y \<in> set (clean_segs r acc xs)"
  shows "slash \<notin> set y"
proof -
  have "y \<in> set acc \<union> set xs \<union> {''..''}" using assms(2) clean_segs_subset by blast
  then show ?thesis using assms(1) by (auto simp: slash_def)
qed

lemma split_on_snoc: "slash \<notin> set f \<Longrightarrow> split_on slash (d @ slash # f) = split_on slash d @ [f]"
proof (induction d)
  case Nil
  then show ?case by (simp add: split_on_single)
next
  case (Cons x d)
  then show ?case by (cases "split_on slash d") auto
qed

lemma split_join:
  "xs \<noteq> [] \<Longrightarrow> \<forall>x \<in> set xs. slash \<notin> set x \<Longrightarrow> split_on slash (join [slash] xs) = xs"
  by (induction "[slash]" xs rule: join.induct) (auto simp: split_on_single split_on_append)

lemma last_join: "xs \<noteq> [] \<Longrightarrow> last xs \<noteq> [] \<Longrightarrow> join s xs \<noteq> [] \<and> last (join s xs) = last (last xs)"
proof (induction s xs rule: join.induct)
  case (3 sep x y xs)
  then show ?case by (cases xs) auto
qed auto

lemma trim_right_last: "s \<noteq> [] \<Longrightarrow> \<not> P (last s) \<Longrightarrow> trim_right P s = s"
  unfolding trim_right_def by (cases s rule: rev_cases) auto

lemma path_join2: "d \<noteq> [] \<Longrightarrow> path_join [d, f] = path_clean (d @ slash # f)"
  by (simp add: path_join_def)

lemma rooted_append [simp]: "d \<noteq> [] \<Longrightarrow> rooted (d @ s) = rooted d"
  by (cases d) (auto simp: rooted_def)

lemma path_join_plain:
  assumes "d \<noteq> []" and "plain_name f"
  shows "path_join [d, f] =
    render_segs (rooted d) (clean_segs (rooted d) [] (split_on slash d) @ [f])"
  using assms by (simp add: path_join2 path_clean_def split_on_snoc clean_segs_snoc plain_name_def)

theorem base_render:
  assumes f: "plain_name f" and xs: "\<forall>x \<in> set xs. slash \<notin> set x"
  shows "path_base (render_segs r (xs @ [f])) = f"
proof -
  let ?j = "join [slash] (xs @ [f])"
  from f have fne: "f \<noteq> []" and fs: "slash \<notin> set f" by (auto simp: plain_name_def)
  have sp: "split_on slash ?j = xs @ [f]" using xs fs by (intro split_join) auto
  have j: "?j \<noteq> []" "last ?j = last f" using last_join [of "xs @ [f]" "[slash]"] fne by auto
  have l: "last ?j \<noteq> slash" using j fne fs by (metis last_in_set)
  show ?thesis
  proof (cases r)
    case True
    have "trim_right (\<lambda>c. c = slash) (slash # ?j) = slash # ?j"
      using j l by (intro trim_right_last) auto
    then show ?thesis using True sp by (simp add: path_base_def render_segs_def)
  next
    case False
    have "trim_right (\<lambda>c. c = slash) ?j = ?j" using j l by (intro trim_right_last) auto
    then show ?thesis using False sp j by (simp add: path_base_def render_segs_def)
  qed
qed

theorem base_join:
  assumes "d \<noteq> []" and "plain_name f"
  shows "path_base (path_join [d, f]) = f"
proof -
  have "\<forall>y \<in> set (clean_segs (rooted d) [] (split_on slash d)). slash \<notin> set y"
    by (auto dest: clean_segs_no_slash [rotated] split_on_no_sep)
  with assms show ?thesis by (simp add: path_join_plain base_render)
qed

text \<open>Different names under one directory are different paths.\<close>

lemma path_join_inject:
  "d \<noteq> [] \<Longrightarrow> plain_name f \<Longrightarrow> plain_name g \<Longrightarrow> path_join [d, f] = path_join [d, g] \<longleftrightarrow> f = g"
  by (metis base_join)

lemma path_join_not_Nil: "d \<noteq> [] \<Longrightarrow> plain_name f \<Longrightarrow> path_join [d, f] \<noteq> []"
  using last_join [of "clean_segs (rooted d) [] (split_on slash d) @ [f]" "[slash]"]
  by (auto simp: path_join_plain render_segs_def plain_name_def)

text \<open>Cleaning a path twice changes nothing: a cleaned path is a run of parent steps, none if it is
  rooted, followed by plain names.\<close>

definition clean_list :: "bool \<Rightarrow> string list \<Rightarrow> bool" where
  "clean_list r ys = (\<exists>k ns. ys = replicate k ''..'' @ ns \<and> (r \<longrightarrow> k = 0) \<and> (\<forall>n \<in> set ns. n \<notin> {[], ''.'', ''..''}))"

lemma clean_list_snoc: "clean_list r ys \<Longrightarrow> n \<notin> {[], ''.'', ''..''} \<Longrightarrow> clean_list r (ys @ [n])"
  unfolding clean_list_def
proof (elim exE conjE)
  fix k ns assume n: "n \<notin> {[], ''.'', ''..''}" and ys: "ys = replicate k ''..'' @ ns" "r \<longrightarrow> k = 0" "\<forall>n \<in> set ns. n \<notin> {[], ''.'', ''..''}"
  show "\<exists>k ns'. ys @ [n] = replicate k ''..'' @ ns' \<and> (r \<longrightarrow> k = 0) \<and> (\<forall>n \<in> set ns'. n \<notin> {[], ''.'', ''..''})"
    using n ys by (intro exI [of _ k] exI [of _ "ns @ [n]"]) auto
qed

lemma clean_list_butlast: "clean_list r (ys @ [n]) \<Longrightarrow> clean_list r ys"
  unfolding clean_list_def
proof (elim exE conjE)
  fix k ns assume ys: "ys @ [n] = replicate k ''..'' @ ns" "r \<longrightarrow> k = 0" "\<forall>n \<in> set ns. n \<notin> {[], ''.'', ''..''}"
  show "\<exists>k ns. ys = replicate k ''..'' @ ns \<and> (r \<longrightarrow> k = 0) \<and> (\<forall>n \<in> set ns. n \<notin> {[], ''.'', ''..''})"
  proof (cases ns rule: rev_cases)
    case Nil
    then obtain j where "k = Suc j" using ys(1) by (cases k) auto
    then have "ys = replicate j ''..'' @ []" using ys(1) Nil by (simp flip: replicate_append_same)
    then show ?thesis using ys(2) \<open>k = Suc j\<close> by (intro exI [of _ j] exI [of _ "[]"]) auto
  next
    case (snoc ms m)
    then show ?thesis using ys by (intro exI [of _ k] exI [of _ ms]) auto
  qed
qed

lemma clean_list_dots: "clean_list False (ys @ [''..'']) \<Longrightarrow> clean_list False (ys @ [''..'', ''..''])"
  unfolding clean_list_def
proof (elim exE conjE)
  fix k ns assume ys: "ys @ [''..''] = replicate k ''..'' @ ns" "\<forall>n \<in> set ns. n \<notin> {[], ''.'', ''..''}"
  have "ns = []"
  proof (rule ccontr)
    assume "ns \<noteq> []"
    then have "last ns = ''..''" using arg_cong [OF ys(1), of last] by simp
    then show False using ys(2) \<open>ns \<noteq> []\<close> last_in_set [of ns] by auto
  qed
  then have "ys @ [''..'', ''..''] = replicate (Suc k) ''..''" using ys(1) by (simp flip: replicate_append_same)
  then show "\<exists>k ns. ys @ [''..'', ''..''] = replicate k ''..'' @ ns \<and> (False \<longrightarrow> k = 0) \<and> (\<forall>n \<in> set ns. n \<notin> {[], ''.'', ''..''})"
    by (intro exI [of _ "Suc k"] exI [of _ "[]"]) auto
qed

lemma clean_list_no_dots: "clean_list True (ys @ [n]) \<Longrightarrow> n \<noteq> ''..''"
  unfolding clean_list_def by (auto simp: append_eq_Cons_conv)

lemma clean_list_segs: "clean_list r (rev acc) \<Longrightarrow> clean_list r (clean_segs r acc xs)"
proof (induction xs arbitrary: acc)
  case (Cons x xs)
  have nil: "clean_list r []" "\<not> r \<Longrightarrow> clean_list r [''..'']"
    unfolding clean_list_def by (auto intro!: exI [of _ "[]"] exI [of _ 0] exI [of _ "Suc 0"])
  show ?case
  proof (cases acc)
    case Nil
    then show ?thesis using Cons.IH [of "[]"] Cons.IH [of "[''..'']"] Cons.IH [of "[x]"] nil clean_list_snoc [of r "[]" x]
      by auto
  next
    case (Cons a as)
    have as: "clean_list r (rev as @ [a])" using Cons.prems Cons by simp
    show ?thesis
      using Cons.IH [of as] Cons.IH [of "x # acc"] Cons.IH [of acc] Cons.IH [of "''..'' # acc"] Cons.prems Cons clean_list_butlast [OF as]
        clean_list_snoc [OF Cons.prems, of x] clean_list_dots [of "rev as"] clean_list_no_dots [of "rev as" a] as
      by (cases r) auto
  qed
qed simp

lemma clean_segs_plain: "\<forall>n \<in> set ns. n \<notin> {[], ''.'', ''..''} \<Longrightarrow> clean_segs r acc ns = rev acc @ ns"
  by (induction ns arbitrary: acc) auto

lemma clean_segs_dots: "clean_segs False (replicate j ''..'') (replicate k ''..'' @ ns) = clean_segs False (replicate (j + k) ''..'') ns"
proof (induction k arbitrary: j)
  case (Suc k)
  then show ?case using Suc [of "Suc j"] by (cases j) simp_all
qed simp

lemma clean_segs_id:
  assumes "clean_list r ys"
  shows "clean_segs r [] ys = ys"
proof -
  obtain k ns where ys: "ys = replicate k ''..'' @ ns" "r \<longrightarrow> k = 0" "\<forall>n \<in> set ns. n \<notin> {[], ''.'', ''..''}"
    using assms unfolding clean_list_def by blast
  show ?thesis
  proof (cases r)
    case True
    then show ?thesis using ys(2) clean_segs_plain [OF ys(3), of r "[]"] by (simp add: ys(1))
  next
    case False
    have "clean_segs False [] ys = clean_segs False (replicate k ''..'') ns"
      using clean_segs_dots [of 0 k ns] by (simp only: ys(1) add_0 replicate_0)
    then show ?thesis using False clean_segs_plain [OF ys(3), of False "replicate k ''..''"] by (simp only: ys(1) rev_replicate)
  qed
qed

lemma clean_list_ne: "clean_list r ys \<Longrightarrow> y \<in> set ys \<Longrightarrow> y \<noteq> []"
  unfolding clean_list_def by (elim exE conjE, hypsubst, unfold set_append Un_iff set_replicate_conv_if) (force split: if_splits)

lemma path_clean_empty: "path_clean [slash] = [slash]" "path_clean ''.'' = ''.''"
  by (code_simp, code_simp)

lemma path_clean_idem [simp]: "path_clean (path_clean p) = path_clean p"
proof -
  let ?r = "rooted p" and ?ys = "clean_segs (rooted p) [] (split_on slash p)"
  have c: "clean_list ?r ?ys" by (rule clean_list_segs) (auto simp: clean_list_def)
  have ns: "\<forall>y \<in> set ?ys. slash \<notin> set y" by (auto dest: clean_segs_no_slash [rotated] split_on_no_sep)
  have ne: "y \<in> set ?ys \<Longrightarrow> y \<noteq> []" for y using clean_list_ne [OF c] .
  show ?thesis
  proof (cases "?ys = []")
    case True
    then have "path_clean p = (if ?r then [slash] else ''.'')" by (simp add: path_clean_def render_segs_def)
    then show ?thesis by (simp add: path_clean_empty)
  next
    case False
    have sp: "split_on slash (join [slash] ?ys) = ?ys" using split_join [OF False ns] .
    have j: "join [slash] ?ys \<noteq> []" "hd (join [slash] ?ys) \<noteq> slash"
      using False ns ne by (cases ?ys rule: remdups_adj.cases; force simp: neq_Nil_conv)+
    show ?thesis
    proof (cases ?r)
      case True
      have "path_clean p = slash # join [slash] ?ys" using True by (simp add: path_clean_def render_segs_def)
      then show ?thesis using True sp clean_segs_id [OF c] by (simp add: path_clean_def [of "slash # x" for x] render_segs_def rooted_def)
    next
      case F: False
      have p: "path_clean p = join [slash] ?ys" using F False by (simp add: path_clean_def render_segs_def)
      have "\<not> rooted (join [slash] ?ys)" using j by (cases "join [slash] ?ys") (auto simp: rooted_def)
      then show ?thesis unfolding p using F False sp clean_segs_id [OF c] by (simp add: path_clean_def render_segs_def)
    qed
  qed
qed

lemma path_clean_join [simp]: "d \<noteq> [] \<Longrightarrow> path_clean (path_join [d, f]) = path_join [d, f]"
  by (simp add: path_join2)

end
