(* ===== verification/Validators.thy ===== *)
theory Validators
  imports Prelude
begin

text \<open>
  internal/utils/validators.go: the checks on user-supplied job settings. A nil error is
  \<open>None\<close>. The two regular expressions are written out as predicates.
\<close>

definition is_alnum :: "char \<Rightarrow> bool" where
  "is_alnum c = (is_lower c \<or> is_digit c)"

definition is_name_char :: "char \<Rightarrow> bool" where
  "is_name_char c = (is_alnum c \<or> c = CHR ''_'')"

text \<open>\<open>jobNameRE\<close>: a letter or digit, then letters, digits and underscores.\<close>

definition jobNameRE :: "string \<Rightarrow> bool" where
  "jobNameRE s = (case s of [] \<Rightarrow> False | c # cs \<Rightarrow> is_alnum c \<and> list_all is_name_char cs)"

definition ValidateJobName :: "string \<Rightarrow> error option" where
  "ValidateJobName name =
     (if name = [] then Some (errorf ''job name cannot be empty'')
      else if \<not> jobNameRE name
        then Some (errorf (''job name '' @ quote name @
          '' must be lowercase alphanumeric with underscores, starting with a letter or digit''))
      else None)"

definition ValidateRetentionDays :: "int \<Rightarrow> error option" where
  "ValidateRetentionDays days =
     (if days < 1 then Some (errorf (''retention_days must be at least 1, got '' @ show_int days))
      else None)"

definition ValidateMinFilesToKeep :: "int \<Rightarrow> error option" where
  "ValidateMinFilesToKeep n =
     (if n < 0 then Some (errorf (''min_files_to_keep cannot be negative, got '' @ show_int n))
      else None)"

definition ValidateLocalRetentionCount :: "int \<Rightarrow> error option" where
  "ValidateLocalRetentionCount n =
     (if n < 0 then Some (errorf (''local_retention_count cannot be negative, got '' @ show_int n))
      else None)"

definition webhookURLRE :: "string \<Rightarrow> bool" where
  "webhookURLRE url = (has_prefix url ''http://'' \<or> has_prefix url ''https://'')"

definition ValidateWebhookURL :: "string \<Rightarrow> error option" where
  "ValidateWebhookURL url =
     (if url = [] then None
      else if \<not> webhookURLRE url
        then Some (errorf (''webhook URL '' @ quote url @ '' must start with http:// or https://''))
      else None)"

lemma is_alnum_char: "is_alnum c \<Longrightarrow> c \<noteq> CHR ''_'' \<and> c \<noteq> CHR ''/'' \<and> c \<noteq> CHR ''.''"
  by (auto simp: is_alnum_def is_lower_def is_digit_def ord_c_def)

lemma jobNameRE_chars: "jobNameRE s \<Longrightarrow> c \<in> set s \<Longrightarrow> is_name_char c"
  by (auto simp: jobNameRE_def is_name_char_def list_all_iff split: list.splits)

lemma ValidateJobName_None: "ValidateJobName s = None \<longleftrightarrow> jobNameRE s"
  by (auto simp: ValidateJobName_def jobNameRE_def)

lemma validate_int_None [simp]:
  "ValidateRetentionDays d = None \<longleftrightarrow> 1 \<le> d"
  "ValidateMinFilesToKeep n = None \<longleftrightarrow> 0 \<le> n"
  "ValidateLocalRetentionCount n = None \<longleftrightarrow> 0 \<le> n"
  by (auto simp: ValidateRetentionDays_def ValidateMinFilesToKeep_def ValidateLocalRetentionCount_def)

end
