(* ===== verification/Naming.thy ===== *)
theory Naming
  imports GoPath Validators
begin

text \<open>
  internal/detector/naming.go, service_types.go and the naming half of detector.go: what a
  container image, a port, a volume or a host path is called, and the job name and remote
  directory derived from it. All pure functions on byte strings.
\<close>

section \<open>Service types (service_types.go)\<close>

named_theorems service_names \<open>the service and strategy identifiers\<close>

definition ServicePostgres :: string where [service_names]: "ServicePostgres = ''postgres''"
definition ServiceMySQL :: string where [service_names]: "ServiceMySQL = ''mysql''"
definition ServiceMongoDB :: string where [service_names]: "ServiceMongoDB = ''mongodb''"
definition ServiceRedis :: string where [service_names]: "ServiceRedis = ''redis''"
definition ServiceN8N :: string where [service_names]: "ServiceN8N = ''n8n''"
definition ServiceRabbitmq :: string where [service_names]: "ServiceRabbitmq = ''rabbitmq''"
definition ServiceGeneric :: string where [service_names]: "ServiceGeneric = ''generic''"
definition ServiceHostDir :: string where [service_names]: "ServiceHostDir = ''hostdir''"

definition imageMatchOrder :: "(string \<times> string) list" where
  "imageMatchOrder =
     [(''postgres'', ServicePostgres), (''mysql'', ServiceMySQL), (''mongo'', ServiceMongoDB),
      (''redis'', ServiceRedis), (''n8n'', ServiceN8N), (''rabbitmq'', ServiceRabbitmq)]"

definition DetectServiceType :: "string \<Rightarrow> string" where
  "DetectServiceType imageName =
     (case find (\<lambda>(substr, service). contains (to_lower imageName) substr) imageMatchOrder of
        None \<Rightarrow> ServiceGeneric
      | Some (substr, service) \<Rightarrow> service)"

definition portServiceHints :: "(int \<times> string) list" where
  "portServiceHints =
     [(5432, ServicePostgres), (3306, ServiceMySQL), (27017, ServiceMongoDB), (6379, ServiceRedis)]"

definition DetectServiceTypeFromPort :: "int \<Rightarrow> string" where
  "DetectServiceTypeFromPort port =
     (case map_of portServiceHints port of None \<Rightarrow> [] | Some s \<Rightarrow> s)"

definition RecommendedBackupType :: "string \<Rightarrow> string" where
  "RecommendedBackupType serviceType =
     (if serviceType = ServicePostgres then ''pg_dump''
      else if serviceType = ServiceMySQL then ''mysqldump''
      else if serviceType = ServiceMongoDB then ''mongodump --archive''
      else if serviceType = ServiceRedis then ''BGSAVE''
      else if serviceType = ServiceN8N then ''volume tar + container lifecycle''
      else if serviceType = ServiceRabbitmq then ''rabbitmqctl export_definitions''
      else if serviceType = ServiceHostDir then ''tar''
      else ''tar'')"

definition credentialEnvKeys :: "(string \<times> string list) list" where
  "credentialEnvKeys =
     [(ServicePostgres, [''POSTGRES_USER'', ''POSTGRES_PASSWORD'', ''POSTGRES_DB'']),
      (ServiceMySQL, [''MYSQL_ROOT_PASSWORD'', ''MYSQL_USER'', ''MYSQL_PASSWORD'', ''MYSQL_DATABASE'']),
      (ServiceMongoDB, [''MONGO_INITDB_ROOT_USERNAME'', ''MONGO_INITDB_ROOT_PASSWORD'', ''MONGO_INITDB_DATABASE'']),
      (ServiceRedis, [''REDIS_PASSWORD''])]"

definition CredentialEnvKeysFor :: "string \<Rightarrow> string list" where
  "CredentialEnvKeysFor serviceType =
     (case map_of credentialEnvKeys serviceType of None \<Rightarrow> [] | Some ks \<Rightarrow> ks)"

definition genericSecretMarkers :: "string list" where
  "genericSecretMarkers = [''PASSWORD'', ''TOKEN'', ''SECRET'', ''API_KEY'']"

section \<open>Volume identifiers and remote paths (naming.go)\<close>

definition is_hex :: "char \<Rightarrow> bool" where
  "is_hex c = (is_digit c \<or> (97 \<le> ord_c c \<and> ord_c c \<le> 102))"

definition anonymousVolumeRE :: "string \<Rightarrow> bool" where
  "anonymousVolumeRE s = (length s = 64 \<and> list_all is_hex s)"

definition VolumeIdentifier :: "string \<Rightarrow> string" where
  "VolumeIdentifier volumeName =
     (if anonymousVolumeRE volumeName then ''vol-'' @ take 8 volumeName else volumeName)"

definition BindMountIdentifier :: "string \<Rightarrow> string" where
  "BindMountIdentifier target =
     (let base = path_base (path_clean target);
          base = (if base = [] \<or> base = ''.'' \<or> base = ''/'' then ''root'' else base)
      in ''bind-'' @ base)"

definition RemotePath :: "string \<Rightarrow> string \<Rightarrow> string \<Rightarrow> string \<Rightarrow> string" where
  "RemotePath environment hostname serviceType jobName =
     ''/'' @ to_lower environment @ ''/'' @ to_lower hostname @ ''/'' @ to_lower serviceType
       @ ''/'' @ to_lower jobName @ ''/''"

definition NormalizeEnvironment :: "string \<Rightarrow> string" where
  "NormalizeEnvironment env =
     (let env = to_lower (trim_space env) in if env = [] then ''stage'' else env)"

section \<open>Job names (detector.go)\<close>

text \<open>\<open>nonAlnumRE.ReplaceAllString\<close>: every maximal run outside \<open>[a-z0-9]\<close> becomes one underscore.\<close>

lemma length_dropWhile_Suc [termination_simp]: "length (dropWhile P xs) < Suc (length xs)"
  by (simp add: le_imp_less_Suc length_dropWhile_le)

fun collapse_runs :: "string \<Rightarrow> string" where
  "collapse_runs [] = []"
| "collapse_runs (c # cs) =
     (if is_alnum c then c # collapse_runs cs
      else CHR ''_'' # collapse_runs (dropWhile (\<lambda>d. \<not> is_alnum d) cs))"

definition sanitizeComponent :: "string \<Rightarrow> string" where
  "sanitizeComponent s =
     (let s = to_lower s;
          s = collapse_runs s;
          s = trim_both (\<lambda>c. c = CHR ''_'') s
      in if s = [] then ''unnamed'' else s)"

definition dbNameFromCreds :: "string \<Rightarrow> smap \<Rightarrow> string" where
  "dbNameFromCreds serviceType creds =
     (if serviceType = ServicePostgres then mget creds ''POSTGRES_DB''
      else if serviceType = ServiceMySQL then mget creds ''MYSQL_DATABASE''
      else if serviceType = ServiceMongoDB then mget creds ''MONGO_INITDB_DATABASE''
      else [])"

definition hasUserCred :: "string \<Rightarrow> smap \<Rightarrow> bool" where
  "hasUserCred serviceType creds =
     (if serviceType = ServicePostgres then map_of creds ''POSTGRES_USER'' \<noteq> None
      else if serviceType = ServiceMySQL then map_of creds ''MYSQL_USER'' \<noteq> None
      else if serviceType = ServiceMongoDB then map_of creds ''MONGO_INITDB_ROOT_USERNAME'' \<noteq> None
      else False)"

definition volumeSuffix :: "string \<Rightarrow> string \<Rightarrow> string" where
  "volumeSuffix volume serviceType =
     (let name = to_lower volume;
          name = foldl trim_suffix name [''_data'', ''_db'', ''_volume'', ''_vol''];
          name = trim_prefix name (to_lower serviceType @ ''_'');
          name = trim_both (\<lambda>c. c = CHR ''_'') name
      in if name = [] \<or> name = to_lower serviceType then [] else name)"

definition GenerateJobName :: "string \<Rightarrow> string \<Rightarrow> smap \<Rightarrow> string" where
  "GenerateJobName volume serviceType creds =
     (let db = dbNameFromCreds serviceType creds
      in if db \<noteq> [] then sanitizeComponent (serviceType @ ''_'' @ db)
         else if hasUserCred serviceType creds then sanitizeComponent (serviceType @ ''_user_backup'')
         else
           let suffix = (if serviceType \<noteq> ServiceGeneric
                 then (if anonymousVolumeRE volume then VolumeIdentifier volume
                       else volumeSuffix volume serviceType)
                 else [])
           in if suffix \<noteq> [] then sanitizeComponent (serviceType @ ''_'' @ suffix)
              else sanitizeComponent (serviceType @ ''_backup''))"

definition hostDirJobName :: "string \<Rightarrow> string" where
  "hostDirJobName path =
     (let base = path_base (trim_right (\<lambda>c. c = slash) path);
          base = (if base = [] \<or> base = ''.'' \<or> base = ''/'' then ''root'' else base)
      in sanitizeComponent (base @ ''_hostdir''))"

section \<open>Lemmas\<close>

lemma collapse_runs_chars: "c \<in> set (collapse_runs s) \<Longrightarrow> is_name_char c"
  by (induction s rule: collapse_runs.induct) (auto simp: is_name_char_def split: if_splits)

text \<open>No two underscores in a row: after a run the next character is alphanumeric.\<close>

lemma collapse_runs_hd:
  "collapse_runs (dropWhile (\<lambda>d. \<not> is_alnum d) s) = t \<Longrightarrow> t \<noteq> [] \<Longrightarrow> is_alnum (hd t)"
  by (induction s) (auto split: if_splits)

definition no_double :: "string \<Rightarrow> bool" where
  "no_double s = (\<forall>i. Suc i < length s \<longrightarrow> \<not> (s ! i = CHR ''_'' \<and> s ! Suc i = CHR ''_''))"

lemma no_double_Cons:
  "no_double (c # s) \<longleftrightarrow> no_double s \<and> \<not> (s \<noteq> [] \<and> c = CHR ''_'' \<and> hd s = CHR ''_'')"
proof
  assume a: "no_double (c # s)"
  show "no_double s \<and> \<not> (s \<noteq> [] \<and> c = CHR ''_'' \<and> hd s = CHR ''_'')"
  proof (intro conjI)
    show "no_double s" unfolding no_double_def
    proof (intro allI impI)
      fix i assume "Suc i < length s"
      with a [unfolded no_double_def, rule_format, of "Suc i"]
      show "\<not> (s ! i = CHR ''_'' \<and> s ! Suc i = CHR ''_'')" by simp
    qed
    from a [unfolded no_double_def, rule_format, of 0]
    show "\<not> (s \<noteq> [] \<and> c = CHR ''_'' \<and> hd s = CHR ''_'')" by (auto simp: hd_conv_nth)
  qed
next
  assume a: "no_double s \<and> \<not> (s \<noteq> [] \<and> c = CHR ''_'' \<and> hd s = CHR ''_'')"
  show "no_double (c # s)" unfolding no_double_def
  proof (intro allI impI)
    fix i assume i: "Suc i < length (c # s)"
    show "\<not> ((c # s) ! i = CHR ''_'' \<and> (c # s) ! Suc i = CHR ''_'')"
      using a i by (cases i) (auto simp: no_double_def hd_conv_nth)
  qed
qed

lemma no_double_collapse: "no_double (collapse_runs s)"
proof (induction s rule: collapse_runs.induct)
  case (2 c cs)
  show ?case
  proof (cases "is_alnum c")
    case True
    then show ?thesis using 2 by (auto simp: no_double_Cons dest: is_alnum_char)
  next
    case False
    let ?r = "collapse_runs (dropWhile (\<lambda>d. \<not> is_alnum d) cs)"
    have "?r \<noteq> [] \<Longrightarrow> hd ?r \<noteq> CHR ''_''"
      using collapse_runs_hd [OF refl] is_alnum_char by blast
    then show ?thesis using 2 False by (auto simp: no_double_Cons)
  qed
qed (simp add: no_double_def)

lemma no_double_sublist:
  assumes "no_double (xs @ s @ ys)"
  shows "no_double s"
  unfolding no_double_def
proof (intro allI impI)
  fix i assume i: "Suc i < length s"
  have "\<not> ((xs @ s @ ys) ! (length xs + i) = CHR ''_'' \<and> (xs @ s @ ys) ! Suc (length xs + i) = CHR ''_'')"
    using assms [unfolded no_double_def, rule_format, of "length xs + i"] i by simp
  moreover have "(xs @ s @ ys) ! (length xs + i) = s ! i"
    using i by (simp add: nth_append)
  moreover have "(xs @ s @ ys) ! Suc (length xs + i) = s ! Suc i"
    using i by (simp add: nth_append)
  ultimately show "\<not> (s ! i = CHR ''_'' \<and> s ! Suc i = CHR ''_'')" by simp
qed

lemma trim_both_decomp: "\<exists>xs ys. s = xs @ trim_both P s @ ys"
proof -
  have "\<exists>xs. s = xs @ trim_left P s"
    unfolding trim_left_def using takeWhile_dropWhile_id [of P s] by metis
  moreover have "\<exists>ys. t = trim_right P t @ ys" for t
    unfolding trim_right_def using takeWhile_dropWhile_id [of P "rev t"] by (metis rev_append rev_rev_ident)
  ultimately show ?thesis unfolding trim_both_def by metis
qed

lemma trim_both_no_double: "no_double s \<Longrightarrow> no_double (trim_both P s)"
  using trim_both_decomp [of s P] no_double_sublist by metis

lemma sanitize_cases:
  obtains (unnamed) "sanitizeComponent s = ''unnamed''"
  | (trimmed) "sanitizeComponent s = trim_both (\<lambda>c. c = CHR ''_'') (collapse_runs (to_lower s))"
      "sanitizeComponent s \<noteq> []"
proof (cases "trim_both (\<lambda>c. c = CHR ''_'') (collapse_runs (to_lower s)) = []")
  case True
  then show ?thesis by (intro unnamed) (simp add: sanitizeComponent_def)
next
  case False
  then show ?thesis by (intro trimmed) (simp_all add: sanitizeComponent_def Let_def)
qed

lemma sanitize_jobNameRE: "jobNameRE (sanitizeComponent s)"
proof (cases s rule: sanitize_cases)
  case unnamed
  have "jobNameRE ''unnamed''" by code_simp
  with unnamed show ?thesis by simp
next
  case trimmed
  let ?t = "sanitizeComponent s"
  have chars: "\<forall>c \<in> set ?t. is_name_char c"
    unfolding trimmed(1) using collapse_runs_chars set_trim_both by blast
  obtain c cs where t: "?t = c # cs" using trimmed(2) by (cases ?t) auto
  have "hd ?t \<noteq> CHR ''_''"
    using hd_trim_both [of "\<lambda>c. c = CHR ''_''" "collapse_runs (to_lower s)"] trimmed by auto
  with chars t show ?thesis
    by (auto simp: jobNameRE_def list_all_iff is_name_char_def)
qed

lemma sanitize_no_double: "no_double (sanitizeComponent s)"
proof (cases s rule: sanitize_cases)
  case unnamed
  have "no_double ''unnamed''" by (simp add: no_double_Cons) (simp add: no_double_def)
  with unnamed show ?thesis by simp
qed (simp add: trim_both_no_double no_double_collapse)

lemma sanitize_last: "last (sanitizeComponent s) \<noteq> CHR ''_''"
proof (cases s rule: sanitize_cases)
  case trimmed
  then show ?thesis
    using last_trim_both [of "\<lambda>c. c = CHR ''_''" "collapse_runs (to_lower s)"] by auto
qed simp

lemma name_char_not_upper: "is_name_char c \<Longrightarrow> \<not> is_upper c"
  by (auto simp: is_name_char_def is_alnum_def is_lower_def is_digit_def is_upper_def ord_c_def)

lemma collapse_runs_id:
  "list_all is_name_char s \<Longrightarrow> no_double s \<Longrightarrow> s = [] \<or> last s \<noteq> CHR ''_'' \<Longrightarrow> collapse_runs s = s"
proof (induction s)
  case (Cons c cs)
  have ih: "collapse_runs cs = cs"
    using Cons by (auto simp: no_double_Cons split: if_splits)
  show ?case
  proof (cases "is_alnum c")
    case True
    then show ?thesis using ih by simp
  next
    case False
    then have c: "c = CHR ''_''" using Cons.prems(1) by (simp add: is_name_char_def)
    then obtain d ds where cs: "cs = d # ds" using Cons.prems(3) by (cases cs) auto
    with c Cons.prems have "is_alnum d" by (auto simp: no_double_Cons is_name_char_def)
    then show ?thesis using ih False c cs by simp
  qed
qed simp

lemma sanitize_fixpoint:
  assumes "jobNameRE s" and "no_double s" and "last s \<noteq> CHR ''_''"
  shows "sanitizeComponent s = s"
proof -
  obtain c cs where s: "s = c # cs" and c: "is_alnum c" and cs: "list_all is_name_char cs"
    using assms(1) by (auto simp: jobNameRE_def split: list.splits)
  have all: "list_all is_name_char s" using s c cs by (simp add: is_name_char_def)
  then have "to_lower s = s" by (intro to_lower_id) (auto simp: list_all_iff name_char_not_upper)
  moreover have "collapse_runs s = s" using all assms by (intro collapse_runs_id) auto
  moreover have "trim_both (\<lambda>c. c = CHR ''_'') s = s"
    using s c assms(3) by (intro trim_both_id) (auto dest: is_alnum_char)
  ultimately show ?thesis using s by (simp add: sanitizeComponent_def)
qed

lemma GenerateJobName_sanitized: "\<exists>t. GenerateJobName volume st creds = sanitizeComponent t"
  by (auto simp: GenerateJobName_def Let_def)

section \<open>Properties\<close>

text \<open>\<open>sanitizeComponent\<close> always returns a name that \<open>ValidateJobName\<close> accepts, with no two
  underscores in a row and none at the end, and it leaves exactly such names unchanged; so a
  derived name is always safe as a directory name and as a remote path segment, and applying
  the function again changes nothing.\<close>

theorem sanitizeComponent_canonical:
  "((ValidateJobName s = None \<and> no_double s \<and> last s \<noteq> CHR ''_'') \<longleftrightarrow> sanitizeComponent s = s)
    \<and> sanitizeComponent (sanitizeComponent s) = sanitizeComponent s"
  using sanitize_fixpoint sanitize_jobNameRE sanitize_no_double sanitize_last ValidateJobName_None
  by metis

text \<open>C36: Every job name the detector proposes for a volume is accepted by \<open>ValidateJobName\<close>,
  whatever the volume is called, whatever service was detected and whatever credentials were
  found.\<close>

theorem GenerateJobName_valid: "ValidateJobName (GenerateJobName volume serviceType creds) = None"
  using GenerateJobName_sanitized [of volume serviceType creds]
  by (auto simp: ValidateJobName_None sanitize_jobNameRE)

text \<open>When a database name was extracted, the proposed job name depends on the service and the
  database alone: two volumes of two containers with the same database name get the same job
  name, and so the same job directory and remote folder.\<close>

theorem GenerateJobName_collision:
  assumes "dbNameFromCreds serviceType creds = dbNameFromCreds serviceType creds'"
    and "dbNameFromCreds serviceType creds \<noteq> []"
  shows "GenerateJobName volume serviceType creds = GenerateJobName volume' serviceType creds'"
  using assms by (simp add: GenerateJobName_def)

theorem GenerateJobName_collision_witness:
  "GenerateJobName ''shop_pg'' ''postgres'' [(''POSTGRES_DB'', ''app'')] =
   GenerateJobName ''blog_pg'' ''postgres'' [(''POSTGRES_DB'', ''app'')]"
  by (rule GenerateJobName_collision) (simp_all add: dbNameFromCreds_def service_names mget_def)

lemma lower_contains: "contains (to_lower (to_lower s)) p = contains (to_lower s) p"
  by (simp add: str_simps)

lemma find_first:
  "find P xs = Some x \<longleftrightarrow> (\<exists>i < length xs. xs ! i = x \<and> P x \<and> (\<forall>j < i. \<not> P (xs ! j)))"
  by (auto simp: find_Some_iff)

text \<open>The service detected from an image name is that of the first entry of the match order
  whose marker occurs in the lower-cased name, and generic exactly when none occurs; letter case
  never matters.\<close>

theorem DetectServiceType_first_match:
  "(DetectServiceType img =
      (if contains (to_lower img) ''postgres'' then ServicePostgres
       else if contains (to_lower img) ''mysql'' then ServiceMySQL
       else if contains (to_lower img) ''mongo'' then ServiceMongoDB
       else if contains (to_lower img) ''redis'' then ServiceRedis
       else if contains (to_lower img) ''n8n'' then ServiceN8N
       else if contains (to_lower img) ''rabbitmq'' then ServiceRabbitmq
       else ServiceGeneric)) \<and>
   DetectServiceType (to_lower img) = DetectServiceType img"
  by (simp add: DetectServiceType_def imageMatchOrder_def str_simps)

lemma lower_char_eq: "\<not> is_upper d \<Longrightarrow> \<not> is_lower d \<Longrightarrow> lower_char c = d \<longleftrightarrow> c = d"
  by (auto simp: lower_char_def is_upper_def is_lower_def ord_chr)

lemma to_lower_slash: "slash \<in> set (to_lower s) \<longleftrightarrow> slash \<in> set s"
proof -
  have "\<not> is_upper slash \<and> \<not> is_lower slash" by code_simp
  then have "lower_char c = slash \<longleftrightarrow> c = slash" for c by (simp add: lower_char_eq)
  then show ?thesis unfolding to_lower_def set_map by (metis image_iff)
qed

lemma RemotePath_segments:
  assumes "\<forall>x \<in> {e, h, s, j}. slash \<notin> set x"
  shows "split_on slash (RemotePath e h s j) =
    [[], to_lower e, to_lower h, to_lower s, to_lower j, []]"
proof -
  have sl: "''/'' = [slash]" by (simp add: slash_def)
  have "slash \<notin> set (to_lower e)" "slash \<notin> set (to_lower h)" "slash \<notin> set (to_lower s)"
    "slash \<notin> set (to_lower j)" using assms by (simp_all add: to_lower_slash)
  then show ?thesis by (simp add: RemotePath_def sl split_on_append)
qed

text \<open>C37: The remote directory has exactly the four levels environment, hostname, service type and
  job name, in lower case; so jobs that differ in any of them up to case never share a
  directory.\<close>

theorem RemotePath_injective:
  assumes "\<forall>x \<in> {e, h, s, j, e', h', s', j'}. slash \<notin> set x"
  shows "RemotePath e h s j = RemotePath e' h' s' j' \<longleftrightarrow>
    to_lower e = to_lower e' \<and> to_lower h = to_lower h' \<and> to_lower s = to_lower s' \<and>
    to_lower j = to_lower j'"
proof
  assume "RemotePath e h s j = RemotePath e' h' s' j'"
  with RemotePath_segments [of e h s j] RemotePath_segments [of e' h' s' j'] assms
  show "to_lower e = to_lower e' \<and> to_lower h = to_lower h' \<and> to_lower s = to_lower s' \<and>
    to_lower j = to_lower j'" by auto
qed (simp add: RemotePath_def)

theorem RemotePath_injective_witness:
  "RemotePath ''prod'' ''db1'' ''redis'' ''cache'' \<noteq> RemotePath ''prod'' ''db1'' ''redis'' ''queue''"
proof -
  have "\<forall>x \<in> {''prod'', ''db1'', ''redis'', ''cache'', ''prod'', ''db1'', ''redis'', ''queue''}. slash \<notin> set x"
    by (simp add: slash_def)
  moreover have "to_lower ''cache'' \<noteq> to_lower ''queue''" by code_simp
  ultimately show ?thesis using RemotePath_injective by metis
qed

text \<open>A volume identifier is never longer than the name it stands for, or 12.\<close>

lemma length_VolumeIdentifier: "length (VolumeIdentifier v) \<le> max 12 (length v)"
  by (auto simp: VolumeIdentifier_def anonymousVolumeRE_def)

end
