(* ===== verification/GoTime.thy ===== *)
theory GoTime
  imports Prelude
begin

text \<open>
  What the source uses of Go's package time. An instant is the number of nanoseconds since
  the Unix epoch; dates are proleptic Gregorian, in UTC. Holds the date arithmetic, the layouts
  \<open>20060102-150405\<close>, \<open>2006-01-02\<close> and RFC 3339, and the proof that parsing undoes
  formatting. \<open>parse_rfc3339\<close> takes the strict RFC 3339 grammar, with any number of
  fraction digits.
\<close>

type_synonym instant = int

definition nanos :: int where "nanos = 1000000000"

definition day_secs :: int where "day_secs = 86400"

section \<open>Dates\<close>

text \<open>
  Days since 1970-01-01 to year, month, day. The year is counted from 1 March, so that a leap
  day is its last day: 400 years, then centuries, then four-year cycles, then years, with the
  last century and the last year of a cycle one day longer.
\<close>

definition year_start :: "int \<Rightarrow> int" where
  "year_start y = 365 * y + y div 4 - y div 100 + y div 400"

definition split_year :: "int \<Rightarrow> int \<times> int" where
  "split_year d =
     (let era = d div 146097; doe = d mod 146097;
          n100 = min 3 (doe div 36524); r100 = doe - 36524 * n100;
          n4 = r100 div 1461; r4 = r100 mod 1461;
          n1 = min 3 (r4 div 365)
      in (400 * era + 100 * n100 + 4 * n4 + n1, r4 - 365 * n1))"

definition civil_of_days :: "int \<Rightarrow> int \<times> int \<times> int" where
  "civil_of_days z =
     (let (y, doy) = split_year (z + 719468);
          mp = (5 * doy + 2) div 153;
          d = doy - (153 * mp + 2) div 5 + 1
      in if mp < 10 then (y, mp + 3, d) else (y + 1, mp - 9, d))"

definition days_of_civil :: "int \<Rightarrow> int \<Rightarrow> int \<Rightarrow> int" where
  "days_of_civil y m d =
     (let y' = (if m \<le> 2 then y - 1 else y); mp = (if m \<le> 2 then m + 9 else m - 3)
      in year_start y' + (153 * mp + 2) div 5 + d - 1 - 719468)"

lemma div_bounds:
  fixes a b :: int
  assumes "0 < b"
  shows "b * (a div b) \<le> a" and "b - 1 = c \<Longrightarrow> a \<le> b * (a div b) + c"
proof -
  have "a div b * b + a mod b = a" "0 \<le> a mod b" "a mod b < b" "a div b * b = b * (a div b)"
    using assms by (simp_all add: mult.commute)
  then show "b * (a div b) \<le> a" and "b - 1 = c \<Longrightarrow> a \<le> b * (a div b) + c" by linarith+
qed

lemma rest_min3:
  fixes a b :: int
  assumes "0 \<le> a" and "a \<le> 4 * b" and "0 < b"
  shows "0 \<le> a - b * min 3 (a div b) \<and> a - b * min 3 (a div b) \<le> b"
proof (cases "a div b \<le> 3")
  case True
  then have "a - b * min 3 (a div b) = a mod b" by (simp add: minus_mult_div_eq_mod)
  then show ?thesis using assms pos_mod_bound [of b a] pos_mod_sign [of b a] by linarith
next
  case False
  then have "4 * b \<le> a div b * b" using assms by (simp add: mult_right_mono)
  also have "\<dots> \<le> a" using div_mult_mod_eq [of a b] pos_mod_sign [of b a] assms by linarith
  finally show ?thesis using False assms by simp
qed

lemma split_year_correct:
  assumes "split_year d = (y, doy)"
  shows "year_start y + doy = d \<and> 0 \<le> doy \<and> doy \<le> 365"
proof -
  define era doe n100 r100 n4 r4 n1 where defs: "era = d div 146097" "doe = d mod 146097"
    "n100 = min 3 (doe div 36524)" "r100 = doe - 36524 * n100"
    "n4 = r100 div 1461" "r4 = r100 mod 1461" "n1 = min 3 (r4 div 365)"
  have y: "y = 400 * era + 100 * n100 + 4 * n4 + n1" and doy: "doy = r4 - 365 * n1"
    using assms by (simp_all add: split_year_def Let_def defs)
  have d: "d = 146097 * era + doe" and doe: "0 \<le> doe" "doe < 146097" by (simp_all add: defs)
  have n100: "0 \<le> n100" "n100 \<le> 3"
    unfolding defs(3) using doe(1) by (simp_all add: pos_imp_zdiv_nonneg_iff)
  have r100: "0 \<le> r100" "r100 \<le> 36524"
    using rest_min3 [of doe 36524] doe unfolding defs(3,4) by simp_all
  have r100_eq: "r100 = 1461 * n4 + r4" unfolding defs(5,6) by (rule mult_div_mod_eq [symmetric])
  have r4: "0 \<le> r4" "r4 < 1461" unfolding defs(6) by simp_all
  have n4: "0 \<le> n4" "n4 \<le> 24" using r100 r100_eq r4 by linarith+
  have n1: "0 \<le> n1" "n1 \<le> 3"
    unfolding defs(7) using r4(1) by (simp_all add: pos_imp_zdiv_nonneg_iff)
  have doy_bounds: "0 \<le> doy" "doy \<le> 365"
    using rest_min3 [of r4 365] r4 unfolding doy defs(7) by simp_all
  have y4: "4 * (100 * era + 25 * n100 + n4) + n1 = y"
    and y100: "100 * (4 * era + n100) + (4 * n4 + n1) = y"
    and y400: "400 * era + (100 * n100 + 4 * n4 + n1) = y" unfolding y by simp_all
  have d4: "y div 4 = 100 * era + 25 * n100 + n4"
    by (rule int_div_pos_eq [OF y4 [symmetric]]) (use n1 in linarith)+
  have d100: "y div 100 = 4 * era + n100"
    by (rule int_div_pos_eq [OF y100 [symmetric]]) (use n1 n4 in linarith)+
  have d400: "y div 400 = era"
    by (rule int_div_pos_eq [OF y400 [symmetric]]) (use n1 n4 n100 in linarith)+
  have "year_start y = 365 * y + (100 * era + 25 * n100 + n4) - (4 * era + n100) + era"
    by (simp only: year_start_def d4 d100 d400)
  then show ?thesis using doy_bounds doy d r100_eq defs(4) y by linarith
qed

theorem days_of_civil_of_days: "civil_of_days z = (y, m, d) \<Longrightarrow> days_of_civil y m d = z"
proof -
  assume c: "civil_of_days z = (y, m, d)"
  obtain y' doy where sy: "split_year (z + 719468) = (y', doy)" by force
  have s: "year_start y' + doy = z + 719468" and doy: "0 \<le> doy" "doy \<le> 365"
    using split_year_correct [OF sy] by simp_all
  let ?mp = "(5 * doy + 2) div 153"
  have mp: "0 \<le> ?mp" "?mp \<le> 11" using doy by simp_all
  have d: "d = doy - (153 * ?mp + 2) div 5 + 1"
    using c sy by (auto simp: civil_of_days_def Let_def split: if_splits)
  have "days_of_civil y m d = year_start y' + doy - 719468"
    using c sy mp d by (auto simp: civil_of_days_def days_of_civil_def Let_def split: if_splits)
  with s show ?thesis by simp
qed

lemma civil_ranges:
  assumes "civil_of_days z = (y, m, d)"
  shows "1 \<le> m \<and> m \<le> 12 \<and> 1 \<le> d \<and> d \<le> 31"
proof -
  obtain y' doy where sy: "split_year (z + 719468) = (y', doy)" by force
  have doy: "0 \<le> doy" "doy \<le> 365" using split_year_correct [OF sy] by simp_all
  let ?mp = "(5 * doy + 2) div 153"
  have mp: "0 \<le> ?mp" "?mp \<le> 11" using doy by simp_all
  have "153 * ?mp \<le> 5 * doy + 2" "5 * doy + 2 \<le> 153 * ?mp + 152"
    by (rule div_bounds(1), simp) (rule div_bounds(2), simp_all)
  moreover have "5 * ((153 * ?mp + 2) div 5) \<le> 153 * ?mp + 2"
    "153 * ?mp + 2 \<le> 5 * ((153 * ?mp + 2) div 5) + 4"
    by (rule div_bounds(1), simp) (rule div_bounds(2), simp_all)
  ultimately have "(153 * ?mp + 2) div 5 \<le> doy" "doy - (153 * ?mp + 2) div 5 \<le> 30"
    by linarith+
  then show ?thesis
    using assms sy mp by (auto simp: civil_of_days_def Let_def split: if_splits)
qed

lemma days_of_civil_inject:
  "civil_of_days z = civil_of_days z' \<Longrightarrow> z = z'"
  by (metis days_of_civil_of_days prod_cases3)

section \<open>Clock time and layouts\<close>

text \<open>Year, month, day, hour, minute, second of an instant.\<close>

definition clock_of :: "instant \<Rightarrow> int \<times> int \<times> int \<times> int \<times> int \<times> int" where
  "clock_of t =
     (let s = t div nanos; (y, m, d) = civil_of_days (s div day_secs); r = s mod day_secs
      in (y, m, d, r div 3600, r mod 3600 div 60, r mod 60))"

definition instant_of :: "int \<Rightarrow> int \<Rightarrow> int \<Rightarrow> int \<Rightarrow> int \<Rightarrow> int \<Rightarrow> instant" where
  "instant_of y m d hh mm ss = (days_of_civil y m d * day_secs + hh * 3600 + mm * 60 + ss) * nanos"

definition pad_int :: "nat \<Rightarrow> int \<Rightarrow> string" where
  "pad_int w i = (if i < 0 then CHR ''-'' # pad_dec w (- i) else pad_dec w i)"

text \<open>\<open>Format("20060102-150405")\<close>.\<close>

definition format_compact :: "instant \<Rightarrow> string" where
  "format_compact t =
     (let (y, m, d, hh, mm, ss) = clock_of t
      in pad_int 4 y @ pad_int 2 m @ pad_int 2 d @ ''-'' @ pad_int 2 hh @ pad_int 2 mm @ pad_int 2 ss)"

definition format_date :: "instant \<Rightarrow> string" where
  "format_date t = (let (y, m, d, _) = clock_of t in pad_int 4 y @ ''-'' @ pad_int 2 m @ ''-'' @ pad_int 2 d)"

text \<open>\<open>UTC().Format(time.RFC3339)\<close>.\<close>

definition format_rfc3339 :: "instant \<Rightarrow> string" where
  "format_rfc3339 t =
     (let (y, m, d, hh, mm, ss) = clock_of t
      in pad_int 4 y @ ''-'' @ pad_int 2 m @ ''-'' @ pad_int 2 d @ ''T'' @ pad_int 2 hh @ '':''
         @ pad_int 2 mm @ '':'' @ pad_int 2 ss @ ''Z'')"

section \<open>Parsing RFC 3339\<close>

definition take_num :: "nat \<Rightarrow> string \<Rightarrow> (int \<times> string) option" where
  "take_num k s =
     (if k \<le> length s \<and> list_all is_digit (take k s)
      then Some (digits_value (take k s), drop k s) else None)"

definition take_lit :: "string \<Rightarrow> string \<Rightarrow> string option" where
  "take_lit l s = (if prefix l s then Some (drop (length l) s) else None)"

text \<open>A fraction's digits as nanoseconds; further digits are cut off.\<close>

definition frac_nanos :: "string \<Rightarrow> int" where
  "frac_nanos ds = digits_value (take 9 (ds @ replicate 9 CHR ''0''))"

definition take_frac :: "string \<Rightarrow> (int \<times> string) option" where
  "take_frac s =
     (case s of
        c # cs \<Rightarrow>
          if c = CHR ''.'' then
            (let ds = takeWhile is_digit cs
             in if ds = [] then None else Some (frac_nanos ds, dropWhile is_digit cs))
          else Some (0, s)
      | [] \<Rightarrow> Some (0, s))"

text \<open>The offset in seconds east of UTC; nothing may follow it.\<close>

definition take_zone :: "string \<Rightarrow> int option" where
  "take_zone s =
     (if s = ''Z'' then Some 0
      else case s of
        [] \<Rightarrow> None
      | c # cs \<Rightarrow>
          if c = CHR ''+'' \<or> c = CHR ''-'' then
            Option.bind (take_num 2 cs) (\<lambda>(hh, s1).
            Option.bind (take_lit '':'' s1) (\<lambda>s2.
            Option.bind (take_num 2 s2) (\<lambda>(mm, s3).
              if s3 = [] \<and> hh \<le> 24 \<and> mm \<le> 60
              then Some ((if c = CHR ''-'' then -1 else 1) * (hh * 3600 + mm * 60)) else None)))
          else None)"

definition parse_rfc3339 :: "string \<Rightarrow> instant option" where
  "parse_rfc3339 s =
     Option.bind (take_num 4 s) (\<lambda>(y, s).
     Option.bind (take_lit ''-'' s) (\<lambda>s.
     Option.bind (take_num 2 s) (\<lambda>(m, s).
     Option.bind (take_lit ''-'' s) (\<lambda>s.
     Option.bind (take_num 2 s) (\<lambda>(d, s).
     Option.bind (take_lit ''T'' s) (\<lambda>s.
     Option.bind (take_num 2 s) (\<lambda>(hh, s).
     Option.bind (take_lit '':'' s) (\<lambda>s.
     Option.bind (take_num 2 s) (\<lambda>(mm, s).
     Option.bind (take_lit '':'' s) (\<lambda>s.
     Option.bind (take_num 2 s) (\<lambda>(ss, s).
     Option.bind (take_frac s) (\<lambda>(f, s).
     Option.bind (take_zone s) (\<lambda>z.
       if hh < 24 \<and> mm < 60 \<and> ss < 60 \<and> civil_of_days (days_of_civil y m d) = (y, m, d)
       then Some (instant_of y m d hh mm ss - z * nanos + f) else None)))))))))))))"

text \<open>
  \<open>time.Parse(time.RFC3339, s)\<close> also takes a one-digit hour and a comma before the fraction.
\<close>

definition canonical_hour :: "string \<Rightarrow> string" where
  "canonical_hour s =
     (if 12 < length s \<and> is_digit (s ! 11) \<and> s ! 12 = CHR '':'' then take 11 s @ CHR ''0'' # drop 11 s else s)"

definition canonical_comma :: "string \<Rightarrow> string" where
  "canonical_comma s = (if 19 < length s \<and> s ! 19 = CHR '','' then s[19 := CHR ''.''] else s)"

definition parse_time :: "string \<Rightarrow> instant option" where
  "parse_time s = parse_rfc3339 (canonical_comma (canonical_hour s))"

text \<open>\<open>time.Time\<close> in JSON: no such leniency, and an offset below 24 hours.\<close>

definition parse_json_time :: "string \<Rightarrow> instant option" where
  "parse_json_time s =
     (let z = drop (length s - 5) s
      in if last (CHR ''Z'' # s) \<noteq> CHR ''Z'' \<and> (digits_value (take 2 z) \<ge> 24 \<or> digits_value (drop 3 z) \<ge> 60)
         then None else parse_rfc3339 s)"

text \<open>\<open>Format(time.RFC3339Nano)\<close> in UTC, the form a time has in JSON: the fraction without its trailing zeros.\<close>

definition format_frac :: "int \<Rightarrow> string" where
  "format_frac f = (let ds = trim_right (\<lambda>c. c = CHR ''0'') (pad_dec 9 f) in if ds = [] then [] else CHR ''.'' # ds)"

definition format_rfc3339nano :: "instant \<Rightarrow> string" where
  "format_rfc3339nano t =
     (let (y, m, d, hh, mm, ss) = clock_of t
      in pad_int 4 y @ ''-'' @ pad_int 2 m @ ''-'' @ pad_int 2 d @ ''T'' @ pad_int 2 hh @ '':''
         @ pad_int 2 mm @ '':'' @ pad_int 2 ss @ format_frac (t mod nanos) @ ''Z'')"

text \<open>\<open>t.AddDate(0, 0, n)\<close> in a zone without daylight-saving changes in between.\<close>

definition add_days :: "instant \<Rightarrow> int \<Rightarrow> instant" where
  "add_days t n = t + n * day_secs * nanos"

section \<open>Round trip\<close>

lemma split_seconds: "r div 3600 * 3600 + r mod 3600 div 60 * 60 + r mod 60 = (r :: int)"
proof -
  have "r mod 60 = (r mod 3600) mod 60" by (simp add: mod_mod_cancel)
  then show ?thesis using div_mult_mod_eq [of "r mod 3600" 60] div_mult_mod_eq [of r 3600] by linarith
qed

lemma length_show_dec: "0 \<le> n \<Longrightarrow> n < 10 ^ k \<Longrightarrow> 0 < k \<Longrightarrow> length (show_dec n) \<le> k"
proof (induction n arbitrary: k rule: show_dec.induct)
  case (1 n)
  show ?case
  proof (cases "n < 10")
    case True
    then show ?thesis using "1.prems" by (subst show_dec.simps) simp
  next
    case False
    obtain j where k: "k = Suc j" using "1.prems" by (cases k) auto
    have "0 < j" using False "1.prems" k by (cases j) auto
    moreover have "n div 10 < 10 ^ j" using "1.prems" k by simp
    ultimately have "length (show_dec (n div 10)) \<le> j" using "1.IH" "1.prems" False by simp
    then show ?thesis using False k by (subst show_dec.simps) simp
  qed
qed

lemma digits_value_zeros: "digits_value (replicate n CHR ''0'' @ ds) = digits_value ds"
  by (induction n) (simp_all add: digits_value_def ord_c_def)

lemma length_pad_dec: "0 \<le> n \<Longrightarrow> n < 10 ^ k \<Longrightarrow> 0 < k \<Longrightarrow> length (pad_dec k n) = k"
  using length_show_dec [of n k] by (simp add: pad_dec_def)

lemma pad_dec_digits: "0 \<le> n \<Longrightarrow> list_all is_digit (pad_dec k n)"
proof -
  assume n: "0 \<le> n"
  have "is_digit CHR ''0''" by code_simp
  then show ?thesis using show_dec_digits [OF n] by (auto simp: pad_dec_def list_all_iff)
qed

lemma take_num_pad:
  assumes "0 \<le> i" "i < 10 ^ k" "0 < k"
  shows "take_num k (pad_int k i @ s) = Some (i, s)"
  using assms length_pad_dec [OF assms] pad_dec_digits [of i k]
  by (simp add: take_num_def pad_int_def pad_dec_def digits_value_zeros)

lemma take_lit_append [simp]: "take_lit l (l @ s) = Some s"
  by (simp add: take_lit_def)

lemma take_lit_Cons [simp]: "take_lit [c] (c # s) = Some s"
  by (simp add: take_lit_def)

lemma take_end [simp]: "take_frac ''Z'' = Some (0, ''Z'')" "take_zone ''Z'' = Some 0"
  by (simp_all add: take_frac_def take_zone_def)

definition four_digit_year :: "instant \<Rightarrow> bool" where
  "four_digit_year t = (let (y, _) = clock_of t in 0 \<le> y \<and> y \<le> 9999)"

lemma clock_ranges:
  assumes "clock_of t = (y, m, d, hh, mm, ss)"
  shows "1 \<le> m \<and> m \<le> 12 \<and> 1 \<le> d \<and> d \<le> 31 \<and> 0 \<le> hh \<and> hh < 24 \<and> 0 \<le> mm \<and> mm < 60 \<and> 0 \<le> ss \<and> ss < 60
    \<and> instant_of y m d hh mm ss = t div nanos * nanos \<and> civil_of_days (days_of_civil y m d) = (y, m, d)"
proof -
  let ?s = "t div nanos" let ?r = "?s mod day_secs"
  have c: "civil_of_days (?s div day_secs) = (y, m, d)"
    and h: "hh = ?r div 3600" "mm = ?r mod 3600 div 60" "ss = ?r mod 60"
    using assms by (auto simp: clock_of_def Let_def split: prod.splits)
  have r: "0 \<le> ?r" "?r < 86400" by (simp_all add: day_secs_def)
  have days: "days_of_civil y m d = ?s div day_secs" by (rule days_of_civil_of_days [OF c])
  have "hh * 3600 + mm * 60 + ss = ?r" unfolding h by (rule split_seconds)
  then have "days_of_civil y m d * day_secs + hh * 3600 + mm * 60 + ss = ?s"
    unfolding days using div_mult_mod_eq [of ?s day_secs] by linarith
  then have "instant_of y m d hh mm ss = t div nanos * nanos" by (simp add: instant_of_def)
  moreover have "0 \<le> hh" "hh < 24" "0 \<le> mm" "mm < 60" "0 \<le> ss" "ss < 60"
    unfolding h using r by simp_all
  ultimately show ?thesis using civil_ranges [OF c] days c by simp
qed

theorem parse_format_rfc3339:
  assumes "four_digit_year t"
  shows "parse_rfc3339 (format_rfc3339 t) = Some (t div nanos * nanos)"
proof -
  obtain y m d hh mm ss where c: "clock_of t = (y, m, d, hh, mm, ss)" by (cases "clock_of t")
  note r = clock_ranges [OF c]
  have y: "0 \<le> y" "y < 10 ^ 4" using assms c by (simp_all add: four_digit_year_def)
  have n: "take_num 4 (pad_int 4 y @ s) = Some (y, s)" "take_num 2 (pad_int 2 m @ s) = Some (m, s)"
    "take_num 2 (pad_int 2 d @ s) = Some (d, s)" "take_num 2 (pad_int 2 hh @ s) = Some (hh, s)"
    "take_num 2 (pad_int 2 mm @ s) = Some (mm, s)" "take_num 2 (pad_int 2 ss @ s) = Some (ss, s)" for s
    using r y by (simp_all add: take_num_pad)
  show ?thesis
    using r unfolding parse_rfc3339_def format_rfc3339_def c
    by (simp add: n)
qed

lemma trim_zeros: "\<exists>k. s = trim_right (\<lambda>c. c = CHR ''0'') s @ replicate k CHR ''0''"
proof -
  let ?z = "takeWhile (\<lambda>c. c = CHR ''0'') (rev s)"
  have z: "?z = replicate (length ?z) CHR ''0''"
    by (rule replicate_eqI) (auto dest: set_takeWhileD)
  have "rev s = ?z @ dropWhile (\<lambda>c. c = CHR ''0'') (rev s)" by simp
  then have "s = trim_right (\<lambda>c. c = CHR ''0'') s @ rev ?z"
    unfolding trim_right_def by (metis rev_append rev_rev_ident)
  then show ?thesis using z by (metis rev_replicate)
qed

lemma frac_nanos_trim:
  assumes "length s = 9"
  shows "frac_nanos (trim_right (\<lambda>c. c = CHR ''0'') s) = digits_value s"
proof -
  let ?t = "trim_right (\<lambda>c. c = CHR ''0'') s"
  obtain k where k: "s = ?t @ replicate k CHR ''0''" using trim_zeros by blast
  then have "length s = length ?t + k" by (metis length_append length_replicate)
  then have "k = 9 - length ?t" "length ?t \<le> 9" using assms by linarith+
  then have "take 9 (?t @ replicate 9 CHR ''0'') = ?t @ replicate k CHR ''0''" by simp
  then show ?thesis using k by (simp add: frac_nanos_def)
qed

lemma digits_value_pad:
  assumes "0 \<le> i" "i < 10 ^ k" "0 < k"
  shows "digits_value (pad_dec k i) = i"
  using take_num_pad [OF assms, of "[]"] length_pad_dec [OF assms] assms(1)
  by (simp add: take_num_def pad_int_def split: if_splits)

lemma take_frac_format:
  assumes "0 \<le> f" and "f < nanos"
  shows "take_frac (format_frac f @ ''Z'') = Some (f, ''Z'')"
proof -
  let ?d = "pad_dec 9 f" let ?t = "trim_right (\<lambda>c. c = CHR ''0'') ?d"
  have f: "f < 10 ^ 9" using assms by (simp add: nanos_def)
  have v: "frac_nanos ?t = f"
    using frac_nanos_trim [OF length_pad_dec] digits_value_pad assms(1) f by simp
  have dg: "list_all is_digit ?t"
    using pad_dec_digits [OF assms(1), of 9]
    by (metis list_all_append trim_zeros)
  have z: "\<not> is_digit CHR ''Z''" by code_simp
  have "frac_nanos [] = 0" by code_simp
  then show ?thesis
  proof (cases "?t = []")
    case True
    then show ?thesis using v \<open>frac_nanos [] = 0\<close> by (simp add: format_frac_def)
  next
    case False
    have "takeWhile is_digit (?t @ ''Z'') = ?t" "dropWhile is_digit (?t @ ''Z'') = ''Z''"
      using dg z by (subst takeWhile_append2 dropWhile_append2; auto simp: list_all_iff)+
    then show ?thesis using False v by (simp add: format_frac_def take_frac_def)
  qed
qed

theorem parse_format_rfc3339nano:
  assumes "four_digit_year t"
  shows "parse_rfc3339 (format_rfc3339nano t) = Some t \<and> parse_json_time (format_rfc3339nano t) = Some t"
proof -
  obtain y m d hh mm ss where c: "clock_of t = (y, m, d, hh, mm, ss)" by (cases "clock_of t")
  note r = clock_ranges [OF c]
  have y: "0 \<le> y" "y < 10 ^ 4" using assms c by (simp_all add: four_digit_year_def)
  have n: "take_num 4 (pad_int 4 y @ s) = Some (y, s)" "take_num 2 (pad_int 2 m @ s) = Some (m, s)"
    "take_num 2 (pad_int 2 d @ s) = Some (d, s)" "take_num 2 (pad_int 2 hh @ s) = Some (hh, s)"
    "take_num 2 (pad_int 2 mm @ s) = Some (mm, s)" "take_num 2 (pad_int 2 ss @ s) = Some (ss, s)" for s
    using r y by (simp_all add: take_num_pad)
  have f: "take_frac (format_frac (t mod nanos) @ ''Z'') = Some (t mod nanos, ''Z'')"
    by (rule take_frac_format) (simp_all add: nanos_def)
  have t: "t div nanos * nanos + t mod nanos = t" by simp
  have "parse_rfc3339 (format_rfc3339nano t) = Some t"
    using r t unfolding parse_rfc3339_def format_rfc3339nano_def c
    by (simp add: n f)
  moreover have "last (CHR ''Z'' # format_rfc3339nano t) = CHR ''Z''"
    by (simp add: format_rfc3339nano_def c)
  ultimately show ?thesis by (simp add: parse_json_time_def Let_def)
qed

end
