(* ===== verification/World.thy ===== *)
theory World
  imports GoPath GoTime
begin

text \<open>
  The machine the program runs on, as explicit state. A \<open>world\<close> holds the file system, the number
  of system calls made so far, the history of the calls made to the external programs (docker,
  rclone, the webhook's server), the program's input and output, and \<open>w_ext\<close>, the state of those
  external programs, of a type the model never looks into. Code that may fail is an action: a
  function from a world to a result and a world. A Go panic is an error of kind \<open>KPanic\<close>, which
  no handler of the source catches: only deferred calls still run.

  Everything outside the program is an oracle of the record \<open>os_env\<close>, which no action changes:
  what the clock says, which system calls fail and how much of a write they complete, what the
  random names are. Every theorem of the development therefore holds for every clock and every
  pattern of failures.
\<close>

section \<open>Calls to the external programs\<close>

record MountSpec =
  ms_Source :: string
  ms_Target :: string
  ms_ReadOnly :: bool

datatype call =
    CRun string "MountSpec list" "string list"
  | CExec string "string list" smap "string option"
  | CStop string
  | CStart string
  | CCp string string
  | CUpload string string
  | CListFiles string
  | CDownload string string
  | CPrune string int int
  | CHashsum string string
  | CMkdir string
  | CCommand string "string list" "string option"
  | CPost string string

section \<open>Files\<close>

datatype node = File (node_bytes: string) (node_mode: int) (node_mtime: instant) | Dir (node_mode: int)

type_synonym fsys = "(string \<times> node) list"

record os_env =
  clock :: "nat \<Rightarrow> instant"
  fault :: "nat \<Rightarrow> (nat \<times> string) option"
  cancelled :: "nat \<Rightarrow> bool"
  rnd :: "nat \<Rightarrow> string"
  tmp_root :: string
  getenv :: "string \<Rightarrow> string"
  map_order :: "nat \<Rightarrow> string list \<Rightarrow> string list"
  md5_hex :: "string \<Rightarrow> string"
  sha256_hex :: "string \<Rightarrow> string"
  gzip :: "string \<Rightarrow> string"
  gzip_open :: "string \<Rightarrow> unit res"
  gunzip :: "string \<Rightarrow> string res"
  user_home :: "string res"
  host_name :: "string res"
  user_name :: "string res"
  exe_path :: "string res"
  goos :: string
  pid :: int
  alive :: "nat \<Rightarrow> int \<Rightarrow> bool"
  stdout_device :: "bool res"

record 'x world =
  w_env :: os_env
  w_fs :: fsys
  w_tick :: nat
  w_hist :: "(call \<times> bool) list"
  w_in :: "string list"
  w_out :: string
  w_err :: string
  w_ext :: 'x

type_synonym ('a, 'x) act = "'x world \<Rightarrow> 'a res \<times> 'x world"

section \<open>Actions\<close>

definition returnA :: "'a \<Rightarrow> ('a, 'x) act" where
  "returnA v w = (Inr v, w)"

definition failA :: "error \<Rightarrow> ('a, 'x) act" where
  "failA e w = (Inl e, w)"

text \<open>\<open>v, err := m(); if err != nil { return err }\<close>.\<close>

definition bindA :: "('a, 'x) act \<Rightarrow> ('a \<Rightarrow> ('b, 'x) act) \<Rightarrow> ('b, 'x) act" where
  "bindA m f w = (case m w of (Inl e, w') \<Rightarrow> (Inl e, w') | (Inr v, w') \<Rightarrow> f v w')"

text \<open>\<open>if err := m(); err != nil { return g(err) }\<close>, where \<open>g\<close> rewords the error; a panic is not reworded.\<close>

definition wrapA :: "(error \<Rightarrow> error) \<Rightarrow> ('a, 'x) act \<Rightarrow> ('a, 'x) act" where
  "wrapA g m w = (case m w of (Inl e, w') \<Rightarrow> (Inl (if is_panic e then e else g e), w') | (Inr v, w') \<Rightarrow> (Inr v, w'))"

text \<open>\<open>v, err := m()\<close> with the error looked at by the code that follows; a panic does not return.\<close>

definition tryA :: "('a, 'x) act \<Rightarrow> ('a res \<Rightarrow> ('b, 'x) act) \<Rightarrow> ('b, 'x) act" where
  "tryA m f w = (case m w of (r, w') \<Rightarrow>
     (case r of Inl e \<Rightarrow> if is_panic e then (Inl e, w') else f r w' | Inr v \<Rightarrow> f r w'))"

text \<open>\<open>defer f()\<close> before the body \<open>m\<close>: \<open>f\<close> runs however the body ends and may replace its named results.\<close>

definition deferA :: "('a res \<Rightarrow> ('a, 'x) act) \<Rightarrow> ('a, 'x) act \<Rightarrow> ('a, 'x) act" where
  "deferA f m w = (case m w of (r, w') \<Rightarrow>
     (case f r w' of (r', w'') \<Rightarrow>
        (case r of Inl e \<Rightarrow> if is_panic e then (Inl e, w'') else (r', w'') | Inr v \<Rightarrow> (r', w''))))"

definition ignoreA :: "('a, 'x) act \<Rightarrow> (unit, 'x) act" where
  "ignoreA m = tryA m (\<lambda>_. returnA ())"

fun forA :: "'a list \<Rightarrow> ('a \<Rightarrow> 's \<Rightarrow> ('s, 'x) act) \<Rightarrow> 's \<Rightarrow> ('s, 'x) act" where
  "forA [] f s = returnA s"
| "forA (x # xs) f s = bindA (f x s) (forA xs f)"

definition get_env :: "(os_env \<Rightarrow> 'a) \<Rightarrow> ('a, 'x) act" where
  "get_env f w = (Inr (f (w_env w)), w)"

text \<open>The cleanup form of \<open>defer\<close>: the deferred call's own result is dropped.\<close>

definition cleanupA :: "(unit, 'x) act \<Rightarrow> ('a, 'x) act \<Rightarrow> ('a, 'x) act" where
  "cleanupA f m = deferA (\<lambda>r w. (case f w of (_, w') \<Rightarrow> (r, w'))) m"

section \<open>System calls\<close>

definition tickA :: "'x world \<Rightarrow> 'x world" where
  "tickA w = w\<lparr>w_tick := Suc (w_tick w)\<rparr>"

definition nowA :: "(instant, 'x) act" where
  "nowA w = (Inr (clock (w_env w) (w_tick w)), tickA w)"

text \<open>The keys of a Go map, in the order \<open>range\<close> visits them.\<close>

definition range_keysA :: "(string \<times> 'v) list \<Rightarrow> (string list, 'x) act" where
  "range_keysA m w = (Inr (map_order (w_env w) (w_tick w) (map fst m)), tickA w)"

definition cancelledA :: "(bool, 'x) act" where
  "cancelledA w = (Inr (cancelled (w_env w) (w_tick w)), tickA w)"

text \<open>
  A system call on the file system, given the current time: it fails with the oracle's error, and
  then has no effect, or does what it is documented to do.
\<close>

definition sysA :: "(instant \<Rightarrow> fsys \<Rightarrow> 'a res \<times> fsys) \<Rightarrow> ('a, 'x) act" where
  "sysA f w = (case fault (w_env w) (w_tick w) of
       Some (_, msg) \<Rightarrow> (Inl (errorf msg), tickA w)
     | None \<Rightarrow> (case f (clock (w_env w) (w_tick w)) (w_fs w) of (r, fs') \<Rightarrow> (r, tickA (w\<lparr>w_fs := fs'\<rparr>))))"

definition path_error :: "err_kind \<Rightarrow> string \<Rightarrow> string \<Rightarrow> string \<Rightarrow> error" where
  "path_error k op p msg = Error k (op @ '' '' @ p @ '': '' @ msg)"

definition no_such :: "string \<Rightarrow> string \<Rightarrow> error" where
  "no_such op p = path_error KNotExist op p ''no such file or directory''"

definition fs_node :: "fsys \<Rightarrow> string \<Rightarrow> node option" where
  "fs_node fs p = map_of fs (path_clean p)"

definition fs_is_dir :: "fsys \<Rightarrow> string \<Rightarrow> bool" where
  "fs_is_dir fs p = (path_clean p = [slash] \<or> path_clean p = ''.'' \<or>
     (case fs_node fs p of Some (Dir _) \<Rightarrow> True | _ \<Rightarrow> False))"

definition fs_put :: "string \<Rightarrow> node \<Rightarrow> fsys \<Rightarrow> fsys" where
  "fs_put p n fs = AList.update (path_clean p) n fs"

definition fs_del :: "string \<Rightarrow> fsys \<Rightarrow> fsys" where
  "fs_del p fs = AList.delete (path_clean p) fs"

definition fs_stat :: "string \<Rightarrow> fsys \<Rightarrow> node res" where
  "fs_stat p fs = (if fs_is_dir fs p then (case fs_node fs p of Some n \<Rightarrow> Inr n | None \<Rightarrow> Inr (Dir 493))
     else case fs_node fs p of Some n \<Rightarrow> Inr n | None \<Rightarrow> Inl (no_such ''stat'' p))"

definition fs_read :: "string \<Rightarrow> fsys \<Rightarrow> string res" where
  "fs_read p fs = (if fs_is_dir fs p then Inl (path_error KOther ''read'' p ''is a directory'')
     else case fs_node fs p of Some (File b _ _) \<Rightarrow> Inr b | _ \<Rightarrow> Inl (no_such ''open'' p))"

text \<open>\<open>os.OpenFile\<close> with \<open>O_CREATE|O_WRONLY|O_TRUNC\<close>: the mode is that of a new file only.\<close>

definition fs_open_trunc :: "string \<Rightarrow> int \<Rightarrow> instant \<Rightarrow> fsys \<Rightarrow> unit res \<times> fsys" where
  "fs_open_trunc p mode t fs =
     (if fs_is_dir fs p then (Inl (path_error KOther ''open'' p ''is a directory''), fs)
      else case fs_node fs p of
        Some n \<Rightarrow> (Inr (), fs_put p (File [] (node_mode n) t) fs)
      | None \<Rightarrow> if fs_is_dir fs (path_dir p) then (Inr (), fs_put p (File [] mode t) fs)
                else (Inl (no_such ''open'' p), fs))"

text \<open>\<open>O_CREATE|O_APPEND|O_WRONLY\<close>.\<close>

definition fs_open_append :: "string \<Rightarrow> int \<Rightarrow> instant \<Rightarrow> fsys \<Rightarrow> unit res \<times> fsys" where
  "fs_open_append p mode t fs =
     (if fs_is_dir fs p then (Inl (path_error KOther ''open'' p ''is a directory''), fs)
      else if fs_node fs p \<noteq> None then (Inr (), fs)
      else if fs_is_dir fs (path_dir p) then (Inr (), fs_put p (File [] mode t) fs)
      else (Inl (no_such ''open'' p), fs))"

text \<open>\<open>O_CREATE|O_EXCL|O_WRONLY\<close>.\<close>

definition fs_open_excl :: "string \<Rightarrow> int \<Rightarrow> instant \<Rightarrow> fsys \<Rightarrow> unit res \<times> fsys" where
  "fs_open_excl p mode t fs =
     (if fs_is_dir fs p \<or> fs_node fs p \<noteq> None then (Inl (path_error KExist ''open'' p ''file exists''), fs)
      else if fs_is_dir fs (path_dir p) then (Inr (), fs_put p (File [] mode t) fs)
      else (Inl (no_such ''open'' p), fs))"

definition fs_append :: "string \<Rightarrow> string \<Rightarrow> instant \<Rightarrow> fsys \<Rightarrow> fsys" where
  "fs_append p data t fs = (case fs_node fs p of
       Some (File b m _) \<Rightarrow> fs_put p (File (b @ data) m t) fs
     | _ \<Rightarrow> fs)"

definition fs_children :: "string \<Rightarrow> fsys \<Rightarrow> (string \<times> node) list" where
  "fs_children p fs =
     (let kids = filter (\<lambda>(q, n). path_dir q = path_clean p \<and> q \<noteq> path_clean p) fs
      in sort_key fst (map (\<lambda>(q, n). (path_base q, n)) kids))"

definition fs_below :: "string \<Rightarrow> string \<Rightarrow> bool" where
  "fs_below p q = (q = path_clean p \<or> has_prefix q (path_clean p @ [slash]))"

definition fs_remove :: "string \<Rightarrow> fsys \<Rightarrow> unit res \<times> fsys" where
  "fs_remove p fs =
     (if fs_node fs p = None then (Inl (no_such ''remove'' p), fs)
      else if fs_is_dir fs p \<and> fs_children p fs \<noteq> []
      then (Inl (path_error KOther ''remove'' p ''directory not empty''), fs)
      else (Inr (), fs_del p fs))"

definition fs_remove_all :: "string \<Rightarrow> fsys \<Rightarrow> fsys" where
  "fs_remove_all p fs = filter (\<lambda>(q, n). \<not> fs_below p q) fs"

text \<open>The directories \<open>os.MkdirAll\<close> looks at, outermost first.\<close>

fun path_prefixes :: "string \<Rightarrow> string list \<Rightarrow> string list" where
  "path_prefixes pre [] = []"
| "path_prefixes pre (x # xs) = (pre @ x) # path_prefixes (pre @ x @ [slash]) xs"

fun fs_mkdirs :: "int \<Rightarrow> string list \<Rightarrow> fsys \<Rightarrow> unit res \<times> fsys" where
  "fs_mkdirs mode [] fs = (Inr (), fs)"
| "fs_mkdirs mode (p # ps) fs =
     (if p = [] \<or> fs_is_dir fs p then fs_mkdirs mode ps fs
      else if fs_node fs p \<noteq> None then (Inl (path_error KOther ''mkdir'' p ''not a directory''), fs)
      else fs_mkdirs mode ps (fs_put p (Dir mode) fs))"

definition fs_mkdir_all :: "string \<Rightarrow> int \<Rightarrow> fsys \<Rightarrow> unit res \<times> fsys" where
  "fs_mkdir_all p mode fs = fs_mkdirs mode (path_prefixes [] (split_on slash (path_clean p))) fs"

definition fs_chmod :: "string \<Rightarrow> int \<Rightarrow> fsys \<Rightarrow> unit res \<times> fsys" where
  "fs_chmod p mode fs = (case fs_node fs p of
       None \<Rightarrow> (Inl (no_such ''chmod'' p), fs)
     | Some (File b _ t) \<Rightarrow> (Inr (), fs_put p (File b mode t) fs)
     | Some (Dir _) \<Rightarrow> (Inr (), fs_put p (Dir mode) fs))"

definition Stat :: "string \<Rightarrow> (node, 'x) act" where
  "Stat p = sysA (\<lambda>_ fs. (fs_stat p fs, fs))"

definition OpenRead :: "string \<Rightarrow> (unit, 'x) act" where
  "OpenRead p = sysA (\<lambda>_ fs. (case fs_stat p fs of Inl _ \<Rightarrow> Inl (no_such ''open'' p) | Inr _ \<Rightarrow> Inr (), fs))"

definition node_size :: "node \<Rightarrow> int" where
  "node_size n = (case n of File b _ _ \<Rightarrow> int (length b) | Dir _ \<Rightarrow> 4096)"

definition node_is_dir :: "node \<Rightarrow> bool" where
  "node_is_dir n = (case n of File _ _ _ \<Rightarrow> False | Dir _ \<Rightarrow> True)"

definition ReadFile :: "string \<Rightarrow> (string, 'x) act" where
  "ReadFile p = sysA (\<lambda>_ fs. (fs_read p fs, fs))"

definition OpenTrunc :: "string \<Rightarrow> int \<Rightarrow> (unit, 'x) act" where
  "OpenTrunc p mode = sysA (fs_open_trunc p mode)"

definition OpenAppend :: "string \<Rightarrow> int \<Rightarrow> (unit, 'x) act" where
  "OpenAppend p mode = sysA (fs_open_append p mode)"

definition OpenExcl :: "string \<Rightarrow> int \<Rightarrow> (unit, 'x) act" where
  "OpenExcl p mode = sysA (fs_open_excl p mode)"

definition Remove :: "string \<Rightarrow> (unit, 'x) act" where
  "Remove p = sysA (\<lambda>_. fs_remove p)"

definition RemoveAll :: "string \<Rightarrow> (unit, 'x) act" where
  "RemoveAll p = sysA (\<lambda>_ fs. (Inr (), fs_remove_all p fs))"

definition MkdirAll :: "string \<Rightarrow> int \<Rightarrow> (unit, 'x) act" where
  "MkdirAll p mode = sysA (\<lambda>_. fs_mkdir_all p mode)"

definition Chmod :: "string \<Rightarrow> int \<Rightarrow> (unit, 'x) act" where
  "Chmod p mode = sysA (\<lambda>_. fs_chmod p mode)"

definition ReadDir :: "string \<Rightarrow> ((string \<times> node) list, 'x) act" where
  "ReadDir p = sysA (\<lambda>_ fs. (if fs_is_dir fs p then Inr (fs_children p fs) else Inl (no_such ''open'' p), fs))"

text \<open>A write to an open file: a failing one may still have written a part of the data.\<close>

definition WriteBytes :: "string \<Rightarrow> string \<Rightarrow> (unit, 'x) act" where
  "WriteBytes p data w =
     (let t = clock (w_env w) (w_tick w)
      in case fault (w_env w) (w_tick w) of
           Some (n, msg) \<Rightarrow> (Inl (errorf msg), tickA (w\<lparr>w_fs := fs_append p (take n data) t (w_fs w)\<rparr>))
         | None \<Rightarrow> (Inr (), tickA (w\<lparr>w_fs := fs_append p data t (w_fs w)\<rparr>)))"

definition WriteFile :: "string \<Rightarrow> string \<Rightarrow> int \<Rightarrow> (unit, 'x) act" where
  "WriteFile p data mode = bindA (OpenTrunc p mode) (\<lambda>_. WriteBytes p data)"

text \<open>\<open>os.MkdirTemp("", pre)\<close>: a fresh random suffix, up to 10000 attempts.\<close>

function mkdir_temp :: "int \<Rightarrow> string \<Rightarrow> (string, 'x) act" where
  "mkdir_temp n pre w =
     (let d = path_join [tmp_root (w_env w), pre @ rnd (w_env w) (w_tick w)]
      in if n \<le> 0 then (Inl (path_error KExist ''mkdirtemp'' d ''file exists''), w)
         else case sysA (\<lambda>_ fs. if fs_is_dir fs d \<or> fs_node fs d \<noteq> None
                           then (Inl (path_error KExist ''mkdir'' d ''file exists''), fs)
                           else if fs_is_dir fs (path_dir d) then (Inr (), fs_put d (Dir 448) fs)
                           else (Inl (no_such ''mkdir'' d), fs)) w of
             (Inr _, w') \<Rightarrow> (Inr d, w')
           | (Inl e, w') \<Rightarrow> if err_kind e = KExist then mkdir_temp (n - 1) pre w' else (Inl e, w'))"
  by pat_completeness auto
termination by (relation "measure (\<lambda>(n, _, _). nat n)") auto

declare mkdir_temp.simps [simp del]

definition MkdirTemp :: "string \<Rightarrow> (string, 'x) act" where
  "MkdirTemp pre =
     (if slash \<in> set pre then failA (path_error KOther ''mkdirtemp'' pre ''pattern contains path separator'')
      else mkdir_temp 10000 pre)"

text \<open>The program's standard output and input.\<close>

definition putA :: "string \<Rightarrow> (unit, 'x) act" where
  "putA s w = (Inr (), w\<lparr>w_out := w_out w @ s\<rparr>)"

definition put_errA :: "string \<Rightarrow> (unit, 'x) act" where
  "put_errA s w = (Inr (), w\<lparr>w_err := w_err w @ s\<rparr>)"

definition read_line :: "(string, 'x) act" where
  "read_line w = (case w_in w of
       [] \<Rightarrow> (Inl (errorf ''EOF''), w)
     | l # ls \<Rightarrow> (Inr l, w\<lparr>w_in := ls\<rparr>))"

section \<open>Calls to external programs\<close>

text \<open>
  The code reaches docker and rclone through interfaces, whose implementations are parameters:
  \<open>callA c m\<close> runs the implementation \<open>m\<close> and records the call \<open>c\<close> with its success. The implementation
  may change the files and its own state; the oracles, the history and the program's input and
  output are not its to change.
\<close>

definition callA :: "call \<Rightarrow> ('a, 'x) act \<Rightarrow> ('a, 'x) act" where
  "callA c m w = (case m w of (r, w') \<Rightarrow>
     (r, tickA (w\<lparr>w_fs := w_fs w', w_ext := w_ext w', w_tick := w_tick w',
                  w_hist := w_hist w @ [(c, is_ok r)]\<rparr>)))"

section \<open>Reasoning about actions\<close>

text \<open>
  \<open>wp m Q w\<close>: after \<open>m\<close> from \<open>w\<close> the result and the world satisfy \<open>Q\<close>. The rules of the collection
  \<open>wp\<close> rewrite it through an action's text.
\<close>

definition wp :: "('a, 'x) act \<Rightarrow> ('a res \<Rightarrow> 'x world \<Rightarrow> bool) \<Rightarrow> 'x world \<Rightarrow> bool" where
  "wp m Q w = (case m w of (r, w') \<Rightarrow> Q r w')"

named_theorems wps \<open>rewrite rules for wp\<close>

lemma wpI: "(\<And>r w'. m w = (r, w') \<Longrightarrow> Q r w') \<Longrightarrow> wp m Q w"
  by (simp add: wp_def split: prod.split)

lemma wpD: "wp m Q w \<Longrightarrow> m w = (r, w') \<Longrightarrow> Q r w'"
  by (simp add: wp_def)

lemma wp_mono: "wp m Q w \<Longrightarrow> (\<And>r w'. Q r w' \<Longrightarrow> R r w') \<Longrightarrow> wp m R w"
  by (auto simp: wp_def split: prod.splits)

lemma wp_conj: "wp m (\<lambda>r w'. P r w' \<and> Q r w') w \<longleftrightarrow> wp m P w \<and> wp m Q w"
  by (simp add: wp_def split: prod.split)

lemma wp_return [wps]: "wp (returnA v) Q w = Q (Inr v) w"
  by (simp add: wp_def returnA_def)

lemma wp_fail [wps]: "wp (failA e) Q w = Q (Inl e) w"
  by (simp add: wp_def failA_def)

lemma wp_bind [wps]:
  "wp (bindA m f) Q w = wp m (\<lambda>r w'. case r of Inl e \<Rightarrow> Q (Inl e) w' | Inr v \<Rightarrow> wp (f v) Q w') w"
  by (simp add: wp_def bindA_def split: prod.split sum.split)

lemma wp_wrap [wps]:
  "wp (wrapA g m) Q w = wp m (\<lambda>r w'. case r of Inl e \<Rightarrow> Q (Inl (if is_panic e then e else g e)) w'
     | Inr v \<Rightarrow> Q (Inr v) w') w"
  by (simp add: wp_def wrapA_def split: prod.split sum.split)

lemma wp_try [wps]:
  "wp (tryA m f) Q w = wp m (\<lambda>r w'. if \<exists>e. r = Inl e \<and> is_panic e then Q (Inl (projl r)) w'
     else wp (f r) Q w') w"
  by (auto simp: wp_def tryA_def split: prod.split sum.split)

lemma wp_defer [wps]:
  "wp (deferA f m) Q w = wp m (\<lambda>r w'. wp (f r) (\<lambda>r' w''.
     if \<exists>e. r = Inl e \<and> is_panic e then Q (Inl (projl r)) w'' else Q r' w'') w') w"
  by (auto simp: wp_def deferA_def split: prod.split sum.split)

lemma wp_ignore [wps]:
  "wp (ignoreA m) Q w = wp m (\<lambda>r w'. if \<exists>e. r = Inl e \<and> is_panic e then Q (Inl (projl r)) w'
     else Q (Inr ()) w') w"
  by (simp add: ignoreA_def wps)

lemma wp_cleanup [wps]: "wp (cleanupA f m) Q w = wp m (\<lambda>r w'. wp f (\<lambda>_ w''. Q r w'') w') w"
  by (auto simp: wp_def cleanupA_def deferA_def split: prod.split sum.split)

lemma wp_env [wps]: "wp (get_env f) Q w = Q (Inr (f (w_env w))) w"
  by (simp add: wp_def get_env_def)

lemma wp_put [wps]: "wp (putA s) Q w = Q (Inr ()) (w\<lparr>w_out := w_out w @ s\<rparr>)"
  by (simp add: wp_def putA_def)

lemma wp_put_err [wps]: "wp (put_errA s) Q w = Q (Inr ()) (w\<lparr>w_err := w_err w @ s\<rparr>)"
  by (simp add: wp_def put_errA_def)

text \<open>What an action may not touch: the oracles, and, if it is local, the history of calls and the
  external programs' state.\<close>

definition hist_ext :: "'x world \<Rightarrow> (call \<times> bool) list \<Rightarrow> 'x world \<Rightarrow> bool" where
  "hist_ext w es w' = (w_hist w' = w_hist w @ es \<and> w_env w' = w_env w)"

definition quiet :: "('a, 'x) act \<Rightarrow> bool" where
  "quiet m = (\<forall>w. case m w of (r, w') \<Rightarrow> hist_ext w [] w' \<and> w_ext w' = w_ext w)"

lemma hist_ext_refl [simp]: "hist_ext w [] w"
  by (simp add: hist_ext_def)

lemma hist_ext_trans: "hist_ext w es w' \<Longrightarrow> hist_ext w' es' w'' \<Longrightarrow> hist_ext w (es @ es') w''"
  by (simp add: hist_ext_def)

lemma quietD: "quiet m \<Longrightarrow> m w = (r, w') \<Longrightarrow> hist_ext w [] w' \<and> w_ext w' = w_ext w"
  unfolding quiet_def by (drule spec [of _ w]) simp

lemma quiet_wp:
  "quiet m \<Longrightarrow> (\<And>r w'. m w = (r, w') \<Longrightarrow> hist_ext w [] w' \<Longrightarrow> w_ext w' = w_ext w \<Longrightarrow> Q r w') \<Longrightarrow> wp m Q w"
  by (auto intro!: wpI dest: quietD)

lemma call_wp: "(\<And>r w'. hist_ext w [(c, is_ok r)] w' \<Longrightarrow> Q r w') \<Longrightarrow> wp (callA c m) Q w"
  by (auto simp: wp_def callA_def hist_ext_def tickA_def split: prod.split)

text \<open>The same two rules along a run whose events so far are \<open>es\<close>.\<close>

lemma quiet_step:
  "quiet m \<Longrightarrow> hist_ext w0 es w \<Longrightarrow> (\<And>r w'. hist_ext w0 es w' \<Longrightarrow> w_ext w' = w_ext w \<Longrightarrow> Q r w') \<Longrightarrow> wp m Q w"
  by (rule quiet_wp) (use hist_ext_trans [of w0 es w "[]"] in auto)

lemma call_step:
  "hist_ext w0 es w \<Longrightarrow> (\<And>r w'. hist_ext w0 (es @ [(c, is_ok r)]) w' \<Longrightarrow> Q r w') \<Longrightarrow> wp (callA c m) Q w"
  by (rule call_wp) (use hist_ext_trans [of w0 es w] in blast)

lemma wp_if: "(b \<Longrightarrow> wp m Q w) \<Longrightarrow> (\<not> b \<Longrightarrow> wp n Q w) \<Longrightarrow> wp (if b then m else n) Q w"
  by simp

lemma wp_sum:
  "(\<And>e. r = Inl e \<Longrightarrow> wp (f e) Q w) \<Longrightarrow> (\<And>v. r = Inr v \<Longrightarrow> wp (g v) Q w)
    \<Longrightarrow> wp (case r of Inl e \<Rightarrow> f e | Inr v \<Rightarrow> g v) Q w"
  by (cases r) simp_all

named_theorems quiets \<open>actions that make no external call\<close>

lemma quiet_tick [simp]: "hist_ext w es (tickA w') = hist_ext w es w'" "w_ext (tickA w) = w_ext w"
  by (simp_all add: hist_ext_def tickA_def)

lemma quiet_return [quiets]: "quiet (returnA v)" and quiet_fail [quiets]: "quiet (failA e)"
  and quiet_env [quiets]: "quiet (get_env f)" and quiet_put [quiets]: "quiet (putA s)"
  and quiet_now [quiets]: "quiet nowA" and quiet_range [quiets]: "quiet (range_keysA m)" and quiet_cancelled [quiets]: "quiet cancelledA"
  and quiet_put_err [quiets]: "quiet (put_errA s)"
  by (simp_all add: quiet_def returnA_def failA_def get_env_def putA_def put_errA_def nowA_def range_keysA_def
      cancelledA_def hist_ext_def tickA_def)

lemma quiet_read_line [quiets]: "quiet read_line"
  by (simp add: quiet_def read_line_def hist_ext_def split: list.split)

lemma quiet_sys [quiets]: "quiet (sysA f)"
  by (auto simp: quiet_def sysA_def hist_ext_def tickA_def split: option.split prod.split)

lemma quiet_bind [quiets]: "quiet m \<Longrightarrow> (\<And>v. quiet (f v)) \<Longrightarrow> quiet (bindA m f)"
  by (fastforce simp: quiet_def bindA_def hist_ext_def split: prod.splits sum.splits)

lemma quiet_wrap [quiets]: "quiet m \<Longrightarrow> quiet (wrapA g m)"
  by (fastforce simp: quiet_def wrapA_def split: prod.splits sum.splits)

lemma quiet_try [quiets]: "quiet m \<Longrightarrow> (\<And>r. quiet (f r)) \<Longrightarrow> quiet (tryA m f)"
  by (fastforce simp: quiet_def tryA_def hist_ext_def split: prod.splits sum.splits)

lemma quiet_defer [quiets]: "quiet m \<Longrightarrow> (\<And>r. quiet (f r)) \<Longrightarrow> quiet (deferA f m)"
  by (fastforce simp: quiet_def deferA_def hist_ext_def split: prod.splits sum.splits)

lemma quiet_ignore [quiets]: "quiet m \<Longrightarrow> quiet (ignoreA m)"
  unfolding ignoreA_def by (intro quiets)

lemma quiet_cleanup [quiets]: "quiet m \<Longrightarrow> quiet f \<Longrightarrow> quiet (cleanupA f m)"
  unfolding cleanupA_def by (intro quiets) (auto simp: quiet_def split: prod.splits)

lemma quiet_for [quiets]: "(\<And>x s. quiet (f x s)) \<Longrightarrow> quiet (forA xs f s)"
  by (induction xs arbitrary: s) (auto intro!: quiets)

lemma quiet_if [quiets]: "(b \<Longrightarrow> quiet m) \<Longrightarrow> (\<not> b \<Longrightarrow> quiet n) \<Longrightarrow> quiet (if b then m else n)"
  by simp

lemma quiet_case_sum [quiets]:
  "(\<And>e. r = Inl e \<Longrightarrow> quiet (f e)) \<Longrightarrow> (\<And>v. r = Inr v \<Longrightarrow> quiet (g v))
    \<Longrightarrow> quiet (case r of Inl e \<Rightarrow> f e | Inr v \<Rightarrow> g v)"
  by (cases r) simp_all

lemma quiet_case_option [quiets]:
  "(x = None \<Longrightarrow> quiet m) \<Longrightarrow> (\<And>v. x = Some v \<Longrightarrow> quiet (g v))
    \<Longrightarrow> quiet (case x of None \<Rightarrow> m | Some v \<Rightarrow> g v)"
  by (cases x) simp_all

lemma quiet_case_prod [quiets]: "(\<And>a b. x = (a, b) \<Longrightarrow> quiet (f a b)) \<Longrightarrow> quiet (case x of (a, b) \<Rightarrow> f a b)"
  by (cases x) simp

lemma quiet_let [quiets]: "(\<And>x. x = v \<Longrightarrow> quiet (f x)) \<Longrightarrow> quiet (let x = v in f x)"
  by simp

lemma quiet_write_bytes [quiets]: "quiet (WriteBytes p data)"
  by (auto simp: quiet_def WriteBytes_def Let_def hist_ext_def tickA_def split: option.split prod.split)

lemma quiet_os [quiets]:
  "quiet (Stat p)" "quiet (OpenRead p)" "quiet (ReadFile p)" "quiet (OpenTrunc p m)" "quiet (OpenExcl p m)" "quiet (Remove p)"
  "quiet (RemoveAll p)" "quiet (MkdirAll p m)" "quiet (Chmod p m)" "quiet (ReadDir p)" "quiet (OpenAppend p m)"
  unfolding Stat_def OpenRead_def ReadFile_def OpenTrunc_def OpenExcl_def Remove_def RemoveAll_def MkdirAll_def
    Chmod_def ReadDir_def OpenAppend_def by (intro quiets)+

lemma quiet_write_file [quiets]: "quiet (WriteFile p data m)"
  unfolding WriteFile_def by (intro quiets)

lemma mkdir_temp_quiet: "mkdir_temp n pre w = (r, w') \<Longrightarrow> hist_ext w [] w' \<and> w_ext w' = w_ext w"
proof (induction n pre w arbitrary: r w' rule: mkdir_temp.induct)
  case (1 n pre w)
  let ?d = "path_join [tmp_root (w_env w), pre @ rnd (w_env w) (w_tick w)]"
  let ?mk = "sysA (\<lambda>_ fs. if fs_is_dir fs ?d \<or> fs_node fs ?d \<noteq> None
      then (Inl (path_error KExist ''mkdir'' ?d ''file exists''), fs)
      else if fs_is_dir fs (path_dir ?d) then (Inr (), fs_put ?d (Dir 448) fs)
      else (Inl (no_such ''mkdir'' ?d), fs)) :: (unit, 'a) act"
  obtain s v where sv: "?mk w = (s, v)" by force
  have q: "hist_ext w [] v" "w_ext v = w_ext w" using quietD [OF quiet_sys sv] by simp_all
  show ?case
    using "1.prems" "1.IH" [OF refl] q hist_ext_trans [OF q(1), of "[]"] sv
    by (fastforce simp: mkdir_temp.simps [of n pre w] Let_def split: if_splits sum.splits)
qed

lemma quiet_mkdir_temp [quiets]: "quiet (MkdirTemp pre)"
  by (auto simp: quiet_def MkdirTemp_def failA_def dest: mkdir_temp_quiet)

section \<open>Files written are read back\<close>

lemma fs_node_put: "fs_node (fs_put p n fs) q = (if path_clean q = path_clean p then Some n else fs_node fs q)"
  by (simp add: fs_node_def fs_put_def update_conv')

lemma fs_node_del: "fs_node (fs_del p fs) q = (if path_clean q = path_clean p then None else fs_node fs q)"
  by (simp add: fs_node_def fs_del_def delete_conv')

lemma fs_node_append:
  "fs_node (fs_append p d t fs) q = (if path_clean q = path_clean p
     then (case fs_node fs p of Some (File b m _) \<Rightarrow> Some (File (b @ d) m t) | x \<Rightarrow> x) else fs_node fs q)"
proof (cases "path_clean q = path_clean p")
  case True
  then have "fs_node fs q = fs_node fs p" by (simp add: fs_node_def)
  then show ?thesis using True by (auto simp: fs_append_def fs_node_put split: option.split node.split)
qed (auto simp: fs_append_def fs_node_put split: option.split node.split)

lemma open_trunc_node:
  assumes "fs_open_trunc p mode t fs = (Inr u, fs')"
  shows "\<exists>m. fs_node fs' p = Some (File [] m t) \<and> (m = mode \<or> (\<exists>b t'. fs_node fs p = Some (File b m t')))"
    and "\<not> fs_is_dir fs p" and "path_clean q \<noteq> path_clean p \<Longrightarrow> fs_node fs' q = fs_node fs q"
proof -
  show d: "\<not> fs_is_dir fs p" using assms by (auto simp: fs_open_trunc_def)
  have "fs_node fs p = Some n \<Longrightarrow> \<exists>b m t'. n = File b m t'" for n
    using d by (cases n) (auto simp: fs_is_dir_def)
  then show "\<exists>m. fs_node fs' p = Some (File [] m t) \<and> (m = mode \<or> (\<exists>b t'. fs_node fs p = Some (File b m t')))"
    using assms d by (fastforce simp: fs_open_trunc_def fs_node_put split: option.splits if_splits)
  show "path_clean q \<noteq> path_clean p \<Longrightarrow> fs_node fs' q = fs_node fs q"
    using assms by (auto simp: fs_open_trunc_def fs_node_put split: option.splits if_splits)
qed

lemma fs_read_file:
  assumes "fs_node fs p = Some (File b m t)" and "path_clean p \<noteq> [slash]" and "path_clean p \<noteq> ''.''"
  shows "fs_read p fs = Inr b"
  using assms by (simp add: fs_read_def fs_is_dir_def)

lemma WriteFile_run:
  assumes "WriteFile p d mode w = (Inr u, w')"
  shows "fs_read p (w_fs w') = Inr d"
    and "path_clean q \<noteq> path_clean p \<Longrightarrow> fs_node (w_fs w') q = fs_node (w_fs w) q"
    and "\<exists>m t. fs_node (w_fs w') p = Some (File d m t) \<and> (m = mode \<or> (\<exists>b t'. fs_node (w_fs w) p = Some (File b m t')))"
proof -
  let ?t = "clock (w_env w) (w_tick w)"
  obtain fs1 where o: "fs_open_trunc p mode ?t (w_fs w) = (Inr (), fs1)"
    and w': "w_fs w' = fs_append p d (clock (w_env w) (Suc (w_tick w))) fs1"
    using assms
    by (auto simp: WriteFile_def bindA_def OpenTrunc_def sysA_def WriteBytes_def tickA_def Let_def
        split: prod.splits sum.splits option.splits)
  note n = open_trunc_node [OF o]
  obtain m where m: "fs_node fs1 p = Some (File [] m ?t)" "m = mode \<or> (\<exists>b t'. fs_node (w_fs w) p = Some (File b m t'))"
    using n(1) by blast
  have f: "fs_node (w_fs w') p = Some (File d m (clock (w_env w) (Suc (w_tick w))))"
    unfolding w' by (simp add: fs_node_append m(1))
  have "path_clean p \<noteq> [slash]" "path_clean p \<noteq> ''.''" using n(2) by (auto simp: fs_is_dir_def)
  then show "fs_read p (w_fs w') = Inr d" by (rule fs_read_file [OF f])
  show "\<exists>m t. fs_node (w_fs w') p = Some (File d m t) \<and> (m = mode \<or> (\<exists>b t'. fs_node (w_fs w) p = Some (File b m t')))"
    using f m(2) by blast
  show "path_clean q \<noteq> path_clean p \<Longrightarrow> fs_node (w_fs w') q = fs_node (w_fs w) q"
    unfolding w' using n(3) by (simp add: fs_node_append)
qed

lemma bind_Inr:
  assumes "bindA m f w = (Inr v, w')"
  obtains u w1 where "m w = (Inr u, w1)" "f u w1 = (Inr v, w')"
  using assms by (auto simp: bindA_def split: prod.splits sum.splits)

lemma wrap_Inr: "wrapA g m w = (Inr v, w') \<longleftrightarrow> m w = (Inr v, w')"
  by (auto simp: wrapA_def split: prod.splits sum.splits)

lemma cleanup_Inr:
  assumes "cleanupA f m w = (Inr v, w')"
  obtains w1 u where "m w = (Inr v, w1)" "f w1 = (u, w')"
  using assms by (auto simp: cleanupA_def deferA_def split: prod.splits sum.splits if_splits)

lemma return_Inr: "returnA x w = (Inr v, w') \<longleftrightarrow> v = x \<and> w' = w"
  by (auto simp: returnA_def)

lemma env_Inr: "get_env f w = (r, w') \<longleftrightarrow> r = Inr (f (w_env w)) \<and> w' = w"
  by (auto simp: get_env_def)

section \<open>A sample world\<close>

text \<open>A machine on which nothing fails, with an empty \<open>/tmp\<close>; the witnesses run on it.\<close>

definition sample_env :: os_env where
  "sample_env = \<lparr>clock = (\<lambda>_. 1717200000000000000), fault = (\<lambda>_. None), cancelled = (\<lambda>_. False), rnd = (\<lambda>_. ''1''),
     tmp_root = ''/tmp'', getenv = (\<lambda>_. []), map_order = (\<lambda>_ ks. ks), md5_hex = (\<lambda>s. show_int (int (length s))),
     sha256_hex = (\<lambda>s. show_int (int (length s))), gzip = (\<lambda>s. s), 
     gzip_open = (\<lambda>_. Inr ()), gunzip = Inr,
     user_home = Inr ''/home/u'', host_name = Inr ''h'', user_name = Inr ''u'', exe_path = Inr ''/bin/dockvault'', goos = ''linux'',
     pid = 7, alive = (\<lambda>_ _. False), stdout_device = Inr False\<rparr>"

definition sample_world :: "unit world" where
  "sample_world = \<lparr>w_env = sample_env, w_fs = [(''/tmp'', Dir 511)], w_tick = 0, w_hist = [], w_in = [], w_out = [], w_err = [], w_ext = ()\<rparr>"

end
