(* ===== verification/Process.thy ===== *)
theory Process
  imports World
begin

text \<open>
  Running a program through os/exec: the machine's programs are a parameter, a function from the
  command line, the standard input and the state to what the process prints, its error if it
  did not exit with status 0, and the state it leaves. \<open>command\<close> is the part the docker and the
  rclone client share: an error carries the trimmed standard error, or the process's own error if
  there was none, behind the command line as the client chooses to show it.
\<close>

record outcome =
  oc_stdout :: string
  oc_stderr :: string
  oc_error :: "string option"

type_synonym 'x programs =
  "string \<Rightarrow> string list \<Rightarrow> string option \<Rightarrow> fsys \<Rightarrow> 'x \<Rightarrow> outcome \<times> fsys \<times> 'x"

definition failure_text :: "outcome \<Rightarrow> string" where
  "failure_text oc =
     (let msg = trim_space (oc_stderr oc)
      in if msg = [] then (case oc_error oc of Some e \<Rightarrow> e | None \<Rightarrow> []) else msg)"

definition command ::
  "'x programs \<Rightarrow> string \<Rightarrow> string \<Rightarrow> string list \<Rightarrow> string list \<Rightarrow> string option \<Rightarrow> (string, 'x) act" where
  "command X tool bin args shown stdin w =
     (case X bin args stdin (w_fs w) (w_ext w) of (oc, fs', x') \<Rightarrow>
        let r = (case oc_error oc of
                   None \<Rightarrow> Inr (oc_stdout oc)
                 | Some _ \<Rightarrow> Inl (errorf (tool @ '' '' @ join '' '' shown @ '': '' @ failure_text oc)))
        in (r, tickA (w\<lparr>w_fs := fs', w_ext := x', w_hist := w_hist w @ [(CCommand bin args stdin, is_ok r)]\<rparr>)))"

lemma command_wp:
  assumes "\<And>r w'. hist_ext w [(CCommand bin args stdin, is_ok r)] w'
      \<Longrightarrow> (\<forall>e. r = Inl e \<longrightarrow> \<not> is_panic e) \<Longrightarrow> Q r w'"
  shows "wp (command X tool bin args shown stdin) Q w"
  by (rule wpI, rule assms)
    (auto simp: command_def Let_def hist_ext_def tickA_def split: prod.splits option.splits)

end
