(* ===== verification/Json.thy ===== *)
theory Json
  imports Prelude
begin

text \<open>
  The part of encoding/json the program relies on: values, the encoder (\<open>Marshal\<close> and
  \<open>MarshalIndent\<close> with two blanks), a recursive-descent decoder for the same grammar, and the
  rules by which \<open>Unmarshal\<close> fills a struct (keys matched exactly or by case folding, unknown keys
  skipped, \<open>null\<close> leaves a field as it was, a value of the wrong type is an error). A number keeps
  its literal, since every number of the program is an integer. Strings are bytes: bytes from 128
  on are passed through, which is what the encoder does with valid UTF-8 apart from U+2028/9.

  The theorem is the round trip: decoding what the encoder printed, compact or indented, gives
  the value back. The decoder's fuel is the length of its input, and the theorem covers that it
  is enough.
\<close>

datatype json =
    JNull
  | JBool bool
  | JNum string
  | JStr string
  | JArr "json list"
  | JObj "(string \<times> json) list"

section \<open>Encoder\<close>

definition backslash :: char where "backslash = chr_n 92"
definition dquote :: char where "dquote = chr_n 34"

lemma json_chars: "ord_c backslash = 92" "ord_c dquote = 34" "backslash \<noteq> dquote"
proof -
  show 1: "ord_c backslash = 92" "ord_c dquote = 34" by (simp_all add: backslash_def dquote_def ord_chr)
  show "backslash \<noteq> dquote" using 1 by auto
qed

definition hex4 :: "int \<Rightarrow> string" where
  "hex4 n = [hex_digit (n div 4096 mod 16), hex_digit (n div 256 mod 16),
             hex_digit (n div 16 mod 16), hex_digit (n mod 16)]"

definition esc_char :: "char \<Rightarrow> string" where
  "esc_char c =
     (let n = ord_c c
      in if c = dquote \<or> c = backslash then [backslash, c]
         else if n = 8 then [backslash, CHR ''b'']
         else if n = 12 then [backslash, CHR ''f'']
         else if n = 10 then [backslash, CHR ''n'']
         else if n = 13 then [backslash, CHR ''r'']
         else if n = 9 then [backslash, CHR ''t'']
         else if n < 32 \<or> n = 60 \<or> n = 62 \<or> n = 38 then backslash # CHR ''u'' # hex4 n
         else [c])"

definition enc_str :: "string \<Rightarrow> string" where
  "enc_str s = dquote # concat (map esc_char s) @ [dquote]"

definition line_break :: "bool \<Rightarrow> nat \<Rightarrow> string" where
  "line_break ind d = (if ind then newline # replicate (2 * d) CHR '' '' else [])"

definition colon :: "bool \<Rightarrow> string" where
  "colon ind = (if ind then '': '' else '':'')"

fun enc :: "bool \<Rightarrow> nat \<Rightarrow> json \<Rightarrow> string"
  and enc_elems :: "bool \<Rightarrow> nat \<Rightarrow> json list \<Rightarrow> string"
  and enc_members :: "bool \<Rightarrow> nat \<Rightarrow> (string \<times> json) list \<Rightarrow> string" where
  "enc ind d JNull = ''null''"
| "enc ind d (JBool b) = (if b then ''true'' else ''false'')"
| "enc ind d (JNum l) = l"
| "enc ind d (JStr s) = enc_str s"
| "enc ind d (JArr xs) = (if xs = [] then ''[]'' else
     ''['' @ line_break ind (Suc d) @ enc_elems ind (Suc d) xs @ line_break ind d @ '']'')"
| "enc ind d (JObj ms) = (if ms = [] then ''{}'' else
     ''{'' @ line_break ind (Suc d) @ enc_members ind (Suc d) ms @ line_break ind d @ ''}'')"
| "enc_elems ind d [] = []"
| "enc_elems ind d (x # xs) =
     enc ind d x @ (if xs = [] then [] else '','' @ line_break ind d @ enc_elems ind d xs)"
| "enc_members ind d [] = []"
| "enc_members ind d ((k, v) # ms) = enc_str k @ colon ind @ enc ind d v
     @ (if ms = [] then [] else '','' @ line_break ind d @ enc_members ind d ms)"

definition Marshal :: "json \<Rightarrow> string" where
  "Marshal v = enc False 0 v"

definition MarshalIndent :: "json \<Rightarrow> string" where
  "MarshalIndent v = enc True 0 v"

section \<open>Decoder\<close>

definition is_ws :: "char \<Rightarrow> bool" where
  "is_ws c = (ord_c c = 32 \<or> ord_c c = 9 \<or> ord_c c = 10 \<or> ord_c c = 13)"

definition skip_ws :: "string \<Rightarrow> string" where
  "skip_ws s = dropWhile is_ws s"

definition hex_value :: "char \<Rightarrow> int option" where
  "hex_value c =
     (let n = ord_c c
      in if 48 \<le> n \<and> n \<le> 57 then Some (n - 48)
         else if 97 \<le> n \<and> n \<le> 102 then Some (n - 87)
         else if 65 \<le> n \<and> n \<le> 70 then Some (n - 55)
         else None)"

definition hex4_value :: "char \<Rightarrow> char \<Rightarrow> char \<Rightarrow> char \<Rightarrow> int option" where
  "hex4_value a b c d =
     (case (hex_value a, hex_value b, hex_value c, hex_value d) of
        (Some p, Some q, Some r, Some s) \<Rightarrow> Some (4096 * p + 256 * q + 16 * r + s)
      | _ \<Rightarrow> None)"

definition utf8 :: "int \<Rightarrow> string" where
  "utf8 n =
     (if n < 128 then [chr_n n]
      else if n < 2048 then [chr_n (192 + n div 64), chr_n (128 + n mod 64)]
      else if n < 65536 then [chr_n (224 + n div 4096), chr_n (128 + n div 64 mod 64), chr_n (128 + n mod 64)]
      else [chr_n (240 + n div 262144), chr_n (128 + n div 4096 mod 64),
            chr_n (128 + n div 64 mod 64), chr_n (128 + n mod 64)])"

definition is_surrogate :: "int \<Rightarrow> bool" where
  "is_surrogate n = (55296 \<le> n \<and> n < 57344)"

text \<open>The second half of a surrogate pair, if the input goes on with one.\<close>

definition low_surrogate :: "string \<Rightarrow> int option" where
  "low_surrogate s =
     (case s of e # u # a # b # c # d # _ \<Rightarrow>
        if e = backslash \<and> u = CHR ''u'' then
          (case hex4_value a b c d of
             Some n \<Rightarrow> if 56320 \<le> n \<and> n < 57344 then Some n else None
           | None \<Rightarrow> None)
        else None
      | _ \<Rightarrow> None)"

definition simple_escape :: "char \<Rightarrow> char option" where
  "simple_escape e =
     map_of [(dquote, dquote), (backslash, backslash), (CHR ''/'', CHR ''/''), (CHR ''b'', chr_n 8),
             (CHR ''f'', chr_n 12), (CHR ''n'', chr_n 10), (CHR ''r'', chr_n 13), (CHR ''t'', chr_n 9)] e"

text \<open>The rest of a string, after its opening quote.\<close>

function dec_str :: "string \<Rightarrow> (string \<times> string) option" where
  "dec_str [] = None"
| "dec_str (c # s) =
     (if c = dquote then Some ([], s)
      else if ord_c c < 32 then None
      else if c \<noteq> backslash then map_option (map_prod (Cons c) id) (dec_str s)
      else if s = [] then None
      else if hd s \<noteq> CHR ''u'' then
        (case simple_escape (hd s) of
           None \<Rightarrow> None
         | Some x \<Rightarrow> map_option (map_prod (Cons x) id) (dec_str (tl s)))
      else if length s < 5 then None
      else (case hex4_value (s ! 1) (s ! 2) (s ! 3) (s ! 4) of
              None \<Rightarrow> None
            | Some n \<Rightarrow>
                (case (if is_surrogate n \<and> n < 56320 then low_surrogate (drop 5 s) else None) of
                   Some m \<Rightarrow> map_option (map_prod ((@) (utf8 (65536 + (n - 55296) * 1024 + (m - 56320)))) id)
                               (dec_str (drop 11 s))
                 | None \<Rightarrow> map_option (map_prod ((@) (utf8 (if is_surrogate n then 65533 else n))) id)
                             (dec_str (drop 5 s)))))"
  by pat_completeness auto
termination by (relation "measure length") auto

declare dec_str.simps(2) [simp del]

text \<open>Numbers, as the grammar has them; the literal is kept.\<close>

definition take_digits :: "string \<Rightarrow> string \<times> string" where
  "take_digits s = (takeWhile is_digit s, dropWhile is_digit s)"

definition dec_int_part :: "string \<Rightarrow> (string \<times> string) option" where
  "dec_int_part s =
     (case s of
        [] \<Rightarrow> None
      | c # t \<Rightarrow> if c = CHR ''0'' then Some ([c], t)
                 else if is_digit c then Some (take_digits s) else None)"

definition dec_frac :: "string \<Rightarrow> (string \<times> string) option" where
  "dec_frac s =
     (case s of
        c # t \<Rightarrow> if c = CHR ''.'' then
                    (let (ds, r) = take_digits t in if ds = [] then None else Some (c # ds, r))
                  else Some ([], s)
      | [] \<Rightarrow> Some ([], s))"

definition dec_exp :: "string \<Rightarrow> (string \<times> string) option" where
  "dec_exp s =
     (case s of
        c # t \<Rightarrow> if c = CHR ''e'' \<or> c = CHR ''E'' then
                    (let sg = takeWhile (\<lambda>x. x = CHR ''+'' \<or> x = CHR ''-'') (take 1 t);
                         (ds, r) = take_digits (drop (length sg) t)
                     in if ds = [] then None else Some (c # sg @ ds, r))
                  else Some ([], s)
      | [] \<Rightarrow> Some ([], s))"

definition dec_num :: "string \<Rightarrow> (string \<times> string) option" where
  "dec_num s =
     (let (m, s0) = (case s of c # t \<Rightarrow> if c = CHR ''-'' then ([c], t) else ([], s) | [] \<Rightarrow> ([], s))
      in Option.bind (dec_int_part s0) (\<lambda>(i, s1).
         Option.bind (dec_frac s1) (\<lambda>(f, s2).
         Option.bind (dec_exp s2) (\<lambda>(e, s3). Some (m @ i @ f @ e, s3)))))"

fun dec_val :: "nat \<Rightarrow> string \<Rightarrow> (json \<times> string) option"
  and dec_elems :: "nat \<Rightarrow> string \<Rightarrow> (json list \<times> string) option"
  and dec_members :: "nat \<Rightarrow> string \<Rightarrow> ((string \<times> json) list \<times> string) option" where
  "dec_val 0 s = None"
| "dec_val (Suc n) s =
     (case skip_ws s of
        [] \<Rightarrow> None
      | c # t \<Rightarrow>
          if c = dquote then map_option (map_prod JStr id) (dec_str t)
          else if c = CHR ''['' then
            (case skip_ws t of
               [] \<Rightarrow> None
             | x # r \<Rightarrow> if x = CHR '']'' then Some (JArr [], r) else map_option (map_prod JArr id) (dec_elems n t))
          else if c = CHR ''{'' then
            (case skip_ws t of
               [] \<Rightarrow> None
             | x # r \<Rightarrow> if x = CHR ''}'' then Some (JObj [], r) else map_option (map_prod JObj id) (dec_members n t))
          else if has_prefix (c # t) ''null'' then Some (JNull, drop 4 (c # t))
          else if has_prefix (c # t) ''true'' then Some (JBool True, drop 4 (c # t))
          else if has_prefix (c # t) ''false'' then Some (JBool False, drop 5 (c # t))
          else map_option (map_prod JNum id) (dec_num (c # t)))"
| "dec_elems 0 s = None"
| "dec_elems (Suc n) s =
     Option.bind (dec_val n s) (\<lambda>(v, r).
       case skip_ws r of
         [] \<Rightarrow> None
       | c # t \<Rightarrow> if c = CHR '']'' then Some ([v], t)
                  else if c = CHR '','' then map_option (map_prod (Cons v) id) (dec_elems n t)
                  else None)"
| "dec_members 0 s = None"
| "dec_members (Suc n) s =
     (case skip_ws s of
        [] \<Rightarrow> None
      | q # s1 \<Rightarrow>
          if q \<noteq> dquote then None else
          Option.bind (dec_str s1) (\<lambda>(k, s2).
            case skip_ws s2 of
              [] \<Rightarrow> None
            | c # s3 \<Rightarrow>
                if c \<noteq> CHR '':'' then None else
                Option.bind (dec_val n s3) (\<lambda>(v, s4).
                  case skip_ws s4 of
                    [] \<Rightarrow> None
                  | d # t \<Rightarrow> if d = CHR ''}'' then Some ([(k, v)], t)
                             else if d = CHR '','' then map_option (map_prod (Cons (k, v)) id) (dec_members n t)
                             else None)))"

definition json_parse :: "string \<Rightarrow> json option" where
  "json_parse s =
     (case dec_val (2 * length s + 2) s of
        Some (v, r) \<Rightarrow> if skip_ws r = [] then Some v else None
      | None \<Rightarrow> None)"

section \<open>Filling a struct\<close>

text \<open>The field a key stands for: an exact match, or one up to case; None for an unknown key.\<close>

definition field_of :: "string list \<Rightarrow> string \<Rightarrow> string option" where
  "field_of fl k =
     (if k \<in> set fl then Some k else find (\<lambda>f. to_lower f = to_lower k) fl)"

fun fill :: "string list \<Rightarrow> (string \<Rightarrow> json \<Rightarrow> 'a \<Rightarrow> 'a option) \<Rightarrow> (string \<times> json) list \<Rightarrow> 'a \<Rightarrow> 'a option" where
  "fill fl f [] x = Some x"
| "fill fl f ((k, v) # ms) x =
     (case field_of fl k of
        None \<Rightarrow> fill fl f ms x
      | Some n \<Rightarrow> Option.bind (f n v x) (fill fl f ms))"

definition unmarshal_struct :: "string list \<Rightarrow> (string \<Rightarrow> json \<Rightarrow> 'a \<Rightarrow> 'a option) \<Rightarrow> json \<Rightarrow> 'a \<Rightarrow> 'a option" where
  "unmarshal_struct fl f v x =
     (case v of JObj ms \<Rightarrow> fill fl f ms x | JNull \<Rightarrow> Some x | _ \<Rightarrow> None)"

definition set_string :: "json \<Rightarrow> (string \<Rightarrow> 'a) \<Rightarrow> 'a \<Rightarrow> 'a option" where
  "set_string v upd x = (case v of JStr s \<Rightarrow> Some (upd s) | JNull \<Rightarrow> Some x | _ \<Rightarrow> None)"

definition set_int :: "json \<Rightarrow> (int \<Rightarrow> 'a) \<Rightarrow> 'a \<Rightarrow> 'a option" where
  "set_int v upd x =
     (case v of
        JNum l \<Rightarrow> (case atoi l of Inr n \<Rightarrow> Some (upd n) | Inl _ \<Rightarrow> None)
      | JNull \<Rightarrow> Some x
      | _ \<Rightarrow> None)"

definition set_bool :: "json \<Rightarrow> (bool \<Rightarrow> 'a) \<Rightarrow> 'a \<Rightarrow> 'a option" where
  "set_bool v upd x = (case v of JBool b \<Rightarrow> Some (upd b) | JNull \<Rightarrow> Some x | _ \<Rightarrow> None)"

text \<open>A struct's encoding lists its fields in order, leaving out an empty one marked omitempty.\<close>

definition omit_str :: "string \<Rightarrow> string \<Rightarrow> (string \<times> json) list" where
  "omit_str k s = (if s = [] then [] else [(k, JStr s)])"

definition json_int :: "int \<Rightarrow> json" where
  "json_int n = JNum (show_int n)"

definition unmarshal_error :: error where
  "unmarshal_error = errorf ''json: cannot decode''"

section \<open>Round trip\<close>

lemma hex_value_digit: "0 \<le> d \<Longrightarrow> d < 16 \<Longrightarrow> hex_value (hex_digit d) = Some d"
  by (auto simp: hex_value_def hex_digit_def ord_chr ord_digit_char Let_def)

lemma hex4_value_hex4:
  assumes "0 \<le> n" and "n < 128"
  shows "hex4_value (hex4 n ! 0) (hex4 n ! 1) (hex4 n ! 2) (hex4 n ! 3) = Some n"
proof -
  have "n div 4096 = 0" "n div 256 = 0" using assms by simp_all
  moreover have "hex_value (hex_digit (n div 16)) = Some (n div 16)"
    using assms by (intro hex_value_digit) auto
  ultimately show ?thesis
    using assms by (simp add: hex4_def hex4_value_def hex_value_digit)
qed

lemma esc_char_cases:
  obtains (plain) "esc_char c = [c]" "c \<noteq> dquote" "c \<noteq> backslash" "32 \<le> ord_c c"
  | (short) x where "esc_char c = [backslash, x]" "simple_escape x = Some c" "x \<noteq> CHR ''u''"
  | (hex) "esc_char c = backslash # CHR ''u'' # hex4 (ord_c c)" "ord_c c < 128"
proof -
  have o: "ord_c CHR ''u'' = 117" "ord_c CHR ''b'' = 98" "ord_c CHR ''f'' = 102" "ord_c CHR ''n'' = 110"
    "ord_c CHR ''r'' = 114" "ord_c CHR ''t'' = 116" "ord_c CHR ''/'' = 47" by code_simp+
  have d: "CHR ''u'' \<noteq> dquote" "CHR ''u'' \<noteq> backslash" "CHR ''b'' \<noteq> dquote" "CHR ''b'' \<noteq> backslash"
    "CHR ''f'' \<noteq> dquote" "CHR ''f'' \<noteq> backslash" "CHR ''n'' \<noteq> dquote" "CHR ''n'' \<noteq> backslash"
    "CHR ''r'' \<noteq> dquote" "CHR ''r'' \<noteq> backslash" "CHR ''t'' \<noteq> dquote" "CHR ''t'' \<noteq> backslash"
    using o json_chars by auto
  have c: "c = chr_n (ord_c c)" by simp
  show thesis
  proof (cases "c = dquote \<or> c = backslash")
    case True
    then show thesis using short [of c] d by (auto simp: esc_char_def simple_escape_def Let_def)
  next
    case False
    consider "ord_c c = 8" | "ord_c c = 12" | "ord_c c = 10" | "ord_c c = 13" | "ord_c c = 9"
      | "ord_c c \<notin> {8, 9, 10, 12, 13}" "ord_c c < 32 \<or> ord_c c = 60 \<or> ord_c c = 62 \<or> ord_c c = 38"
      | "ord_c c \<notin> {8, 9, 10, 12, 13}" "32 \<le> ord_c c" "ord_c c \<noteq> 60" "ord_c c \<noteq> 62" "ord_c c \<noteq> 38"
      by fastforce
    then show thesis
    proof cases
      case 1 then show thesis using False c short [of "CHR ''b''"] d
        by (simp add: esc_char_def simple_escape_def)
    next
      case 2 then show thesis using False c short [of "CHR ''f''"] d
        by (simp add: esc_char_def simple_escape_def)
    next
      case 3 then show thesis using False c short [of "CHR ''n''"] d
        by (simp add: esc_char_def simple_escape_def)
    next
      case 4 then show thesis using False c short [of "CHR ''r''"] d
        by (simp add: esc_char_def simple_escape_def)
    next
      case 5 then show thesis using False c short [of "CHR ''t''"] d
        by (simp add: esc_char_def simple_escape_def)
    next
      case 6 then show thesis using False hex by (auto simp: esc_char_def Let_def)
    next
      case 7 then show thesis using False plain by (auto simp: esc_char_def Let_def)
    qed
  qed
qed

lemma dec_str_esc: "dec_str (esc_char c @ s) = map_option (map_prod (Cons c) id) (dec_str s)"
proof (cases rule: esc_char_cases [of c])
  case plain
  then show ?thesis by (simp add: dec_str.simps)
next
  case (short x)
  then show ?thesis using json_chars by (simp add: dec_str.simps)
next
  case hex
  have h: "hex4_value (hex4 (ord_c c) ! 0) (hex4 (ord_c c) ! 1) (hex4 (ord_c c) ! 2) (hex4 (ord_c c) ! 3)
      = Some (ord_c c)" using hex ord_c_bounds by (intro hex4_value_hex4) auto
  have "is_surrogate (ord_c c) = False" "utf8 (ord_c c) = [c]"
    using hex by (simp_all add: is_surrogate_def utf8_def)
  then show ?thesis using h hex json_chars by (simp add: dec_str.simps hex4_def map_prod_def)
qed

lemma dec_enc_str: "dec_str (concat (map esc_char s) @ dquote # r) = Some (s, r)"
  by (induction s) (simp_all add: dec_str_esc dec_str.simps)

lemma skip_ws_id: "s = [] \<or> \<not> is_ws (hd s) \<Longrightarrow> skip_ws s = s"
  by (cases s) (simp_all add: skip_ws_def)

lemma skip_ws_append: "list_all is_ws ws \<Longrightarrow> skip_ws (ws @ s) = skip_ws s"
  by (induction ws) (simp_all add: skip_ws_def)

lemma ws_line_break: "list_all is_ws (line_break ind d)"
proof -
  have "is_ws newline" "is_ws CHR '' ''" by code_simp+
  then show ?thesis by (auto simp: line_break_def list_all_iff)
qed

lemma ws_colon: "\<exists>ws. colon ind = CHR '':'' # ws \<and> list_all is_ws ws"
  by (simp add: colon_def is_ws_def ord_c_def)

lemma dec_ws:
  assumes "list_all is_ws ws"
  shows "dec_val n (ws @ s) = dec_val n s" "dec_members n (ws @ s) = dec_members n s"
    "dec_elems n (ws @ s) = dec_elems n s"
proof -
  show v: "dec_val n (ws @ s) = dec_val n s" for n by (cases n) (simp_all add: skip_ws_append assms)
  show "dec_members n (ws @ s) = dec_members n s" by (cases n) (simp_all add: skip_ws_append assms)
  show "dec_elems n (ws @ s) = dec_elems n s" by (cases n) (simp_all add: v)
qed

text \<open>The values whose numbers are integers.\<close>

fun int_json :: "json \<Rightarrow> bool" where
  "int_json (JNum l) = (\<exists>n. l = show_int n)"
| "int_json (JArr xs) = (\<forall>x \<in> set xs. int_json x)"
| "int_json (JObj ms) = (\<forall>(k, v) \<in> set ms. int_json v)"
| "int_json _ = True"

text \<open>What may follow an encoded value.\<close>

definition delim :: "string \<Rightarrow> bool" where
  "delim r = (r = [] \<or> hd r \<in> {CHR '','', CHR '']'', CHR ''}'', newline})"

lemma show_dec_hd: "0 < n \<Longrightarrow> hd (show_dec n) \<noteq> CHR ''0''"
proof (induction n rule: show_dec.induct)
  case (1 n)
  show ?case
  proof (cases "n < 10")
    case True
    then have "ord_c (digit_char n) \<noteq> ord_c CHR ''0''" using 1 by (simp add: ord_digit_char) (simp add: ord_c_def)
    then show ?thesis using True by (auto simp: show_dec.simps [of n])
  next
    case False
    then show ?thesis using 1 by (simp add: show_dec.simps [of n] hd_append)
  qed
qed

lemma span_digits:
  assumes "list_all is_digit ds" and "delim r"
  shows "takeWhile is_digit (ds @ r) = ds" "dropWhile is_digit (ds @ r) = r"
proof -
  have "\<not> is_digit CHR '',''" "\<not> is_digit CHR '']''" "\<not> is_digit CHR ''}''" "\<not> is_digit newline" by code_simp+
  then have r: "r = [] \<or> \<not> is_digit (hd r)" using assms(2) by (auto simp: delim_def)
  have d: "\<And>x. x \<in> set ds \<Longrightarrow> is_digit x" using assms(1) by (simp add: list_all_iff)
  show "takeWhile is_digit (ds @ r) = ds" using d r by (subst takeWhile_append2) (cases r; auto)+
  show "dropWhile is_digit (ds @ r) = r" using d r by (subst dropWhile_append2) (cases r; auto)+
qed

lemma dec_num_rest:
  assumes "delim r"
  shows "dec_frac r = Some ([], r)" "dec_exp r = Some ([], r)"
  using assms by (auto simp: delim_def dec_frac_def dec_exp_def newline_def split: list.split)

lemma dec_int_part_dec:
  assumes "0 \<le> n" and "delim r"
  shows "dec_int_part (show_dec n @ r) = Some (show_dec n, r)"
proof (cases "n = 0")
  case True
  have "show_dec 0 = ''0''" by code_simp
  then show ?thesis using True by (simp add: dec_int_part_def)
next
  case False
  obtain c ds where s: "show_dec n = c # ds" using show_dec_not_Nil by (cases "show_dec n") auto
  have "c \<noteq> CHR ''0''" using show_dec_hd [of n] False assms(1) s by simp
  moreover have "list_all is_digit (c # ds)" using show_dec_digits assms(1) s by metis
  ultimately show ?thesis using span_digits [of "c # ds", OF _ assms(2)] s
    by (simp add: dec_int_part_def take_digits_def)
qed

lemma show_dec_first: "0 \<le> n \<Longrightarrow> \<exists>c ds. show_dec n = c # ds \<and> is_digit c"
  using show_dec_digits [of n] by (cases "show_dec n") auto

lemma dec_num_int:
  assumes "delim r"
  shows "dec_num (show_int n @ r) = Some (show_int n, r)"
proof (cases "n < 0")
  case True
  then show ?thesis using dec_int_part_dec [OF _ assms, of "- n"] dec_num_rest [OF assms]
    by (simp add: dec_num_def show_int_def)
next
  case False
  then obtain c ds where "show_dec n = c # ds" "is_digit c" using show_dec_first [of n] by auto
  moreover have "\<not> is_digit CHR ''-''" by code_simp
  ultimately show ?thesis using False dec_int_part_dec [OF _ assms, of n] dec_num_rest [OF assms]
    by (auto simp: dec_num_def show_int_def)
qed

text \<open>The first character of an encoded value decides which branch of the decoder reads it.\<close>

lemma enc_int_first:
  "\<exists>c t. show_int n = c # t \<and> (c = CHR ''-'' \<or> is_digit c)"
  using show_dec_first [of n] show_dec_first [of "- n"] by (auto simp: show_int_def)

definition value_start :: "char \<Rightarrow> bool" where
  "value_start c = (c \<in> {CHR ''n'', CHR ''t'', CHR ''f'', CHR ''['', CHR ''{'', dquote, CHR ''-''} \<or> is_digit c)"

lemma value_start_chars:
  assumes "value_start c"
  shows "\<not> is_ws c" "c \<noteq> CHR '']''"
proof -
  have n: "\<not> is_digit CHR '']''" "\<forall>c \<in> {CHR ''n'', CHR ''t'', CHR ''f'', CHR ''['', CHR ''{'', dquote, CHR ''-''}. \<not> is_ws c \<and> c \<noteq> CHR '']''"
    by code_simp+
  have "is_digit c \<Longrightarrow> \<not> is_ws c" by (auto simp: is_digit_def is_ws_def)
  then show "\<not> is_ws c" using assms n(2) by (auto simp only: value_start_def)
  show "c \<noteq> CHR '']''" using assms n by (auto simp only: value_start_def)
qed

lemma enc_start:
  assumes "int_json v"
  shows "\<exists>c t. enc ind d v = c # t \<and> value_start c"
proof (cases v)
  case (JNum l)
  then obtain n where "l = show_int n" using assms by auto
  then show ?thesis using JNum enc_int_first [of n] by (auto simp: value_start_def)
qed (auto simp: enc_str_def value_start_def)

fun weight :: "json \<Rightarrow> nat" and weights :: "json list \<Rightarrow> nat" where
  "weight (JArr xs) = Suc (weights xs)"
| "weight (JObj ms) = Suc (weights (map snd ms))"
| "weight _ = 1"
| "weights [] = 0"
| "weights (x # xs) = Suc (max (weight x) (weights xs))"

lemma weight_length:
  "int_json v \<Longrightarrow> weight v \<le> length (enc ind d v)"
  "\<forall>x \<in> set xs. int_json x \<Longrightarrow> weights xs \<le> Suc (length (enc_elems ind d xs))"
  "\<forall>(k, v) \<in> set ms. int_json v \<Longrightarrow> weights (map snd ms) \<le> Suc (length (enc_members ind d ms))"
proof (induction ind d v and ind d xs and ind d ms rule: enc_enc_elems_enc_members.induct)
  case (3 ind d l)
  then obtain n where "l = show_int n" by auto
  then show ?case using enc_int_first [of n] by auto
next
  case (8 ind d x xs)
  then show ?case using enc_start [of x ind d] by (auto simp: Suc_le_eq max_def)
qed (auto simp: enc_str_def max_def split: if_splits)

lemma skip_ws_start: "value_start c \<Longrightarrow> skip_ws (c # t) = c # t"
  using value_start_chars by (simp add: skip_ws_def)

lemma dec_val_num:
  assumes "delim r"
  shows "dec_val (Suc n) (show_int i @ r) = Some (JNum (show_int i), r)"
proof -
  obtain c t where ct: "show_int i = c # t" "c = CHR ''-'' \<or> is_digit c" using enc_int_first by blast
  have "\<forall>x \<in> {dquote, CHR ''['', CHR ''{'', CHR ''n'', CHR ''t'', CHR ''f''}. x \<noteq> CHR ''-'' \<and> \<not> is_digit x"
    by code_simp
  then have c: "c \<noteq> dquote" "c \<noteq> CHR ''[''" "c \<noteq> CHR ''{''" "c \<noteq> CHR ''n''" "c \<noteq> CHR ''t''" "c \<noteq> CHR ''f''"
    using ct(2) by auto
  have "value_start c" using ct(2) by (auto simp: value_start_def)
  then have "skip_ws (show_int i @ r) = show_int i @ r" using ct by (simp add: skip_ws_start)
  then show ?thesis using ct c dec_num_int [OF assms, of i] by (simp add: has_prefix_def)
qed

lemma delim_chars: "delim (CHR '']'' # r)" "delim (CHR ''}'' # r)" "delim (CHR '','' # r)" "delim []"
  by (simp_all add: delim_def)

lemma delim_line_break: "delim (line_break ind d @ CHR '']'' # r)" "delim (line_break ind d @ CHR ''}'' # r)"
  by (simp_all add: delim_def line_break_def)

lemma skip_ws_chars: "skip_ws (CHR '']'' # r) = CHR '']'' # r" "skip_ws (CHR ''}'' # r) = CHR ''}'' # r"
  "skip_ws (CHR '','' # r) = CHR '','' # r" "skip_ws (CHR '':'' # r) = CHR '':'' # r"
  "skip_ws (CHR ''['' # r) = CHR ''['' # r" "skip_ws (CHR ''{'' # r) = CHR ''{'' # r"
  "skip_ws (dquote # r) = dquote # r"
proof -
  have "\<forall>x \<in> {CHR '']'', CHR ''}'', CHR '','', CHR '':'', CHR ''['', CHR ''{'', dquote}. \<not> is_ws x" by code_simp
  then show "skip_ws (CHR '']'' # r) = CHR '']'' # r" "skip_ws (CHR ''}'' # r) = CHR ''}'' # r"
    "skip_ws (CHR '','' # r) = CHR '','' # r" "skip_ws (CHR '':'' # r) = CHR '':'' # r"
    "skip_ws (CHR ''['' # r) = CHR ''['' # r" "skip_ws (CHR ''{'' # r) = CHR ''{'' # r"
    "skip_ws (dquote # r) = dquote # r" by (simp_all add: skip_ws_def)
qed

lemma dquote_neq: "dquote \<noteq> CHR ''[''" "dquote \<noteq> CHR ''{''" "CHR ''['' \<noteq> dquote" "CHR ''{'' \<noteq> dquote"
  "CHR ''n'' \<noteq> dquote" "CHR ''t'' \<noteq> dquote" "CHR ''f'' \<noteq> dquote" "dquote \<noteq> CHR ''}''"
  by code_simp+

lemma skip_ws_keywords: "skip_ws (''null'' @ r) = ''null'' @ r" "skip_ws (''true'' @ r) = ''true'' @ r"
  "skip_ws (''false'' @ r) = ''false'' @ r"
proof -
  have "\<not> is_ws CHR ''n''" "\<not> is_ws CHR ''t''" "\<not> is_ws CHR ''f''" by code_simp+
  then show "skip_ws (''null'' @ r) = ''null'' @ r" "skip_ws (''true'' @ r) = ''true'' @ r"
    "skip_ws (''false'' @ r) = ''false'' @ r" by (simp_all add: skip_ws_def)
qed

lemma dec_val_scalar:
  "dec_val (Suc n) (''null'' @ r) = Some (JNull, r)"
  "dec_val (Suc n) ((if b then ''true'' else ''false'') @ r) = Some (JBool b, r)"
  "dec_val (Suc n) (enc_str s @ r) = Some (JStr s, r)"
  using skip_ws_keywords [of r]
  by (simp_all add: skip_ws_chars dquote_neq has_prefix_def enc_str_def dec_enc_str)

lemma dec_val_empty:
  "dec_val (Suc n) (''[]'' @ r) = Some (JArr [], r)" "dec_val (Suc n) (''{}'' @ r) = Some (JObj [], r)"
  by (simp_all add: skip_ws_chars dquote_neq)

lemma dec_elems_step:
  assumes "dec_val n s = Some (v, ws @ c # r)" and "list_all is_ws ws" and "c \<in> {CHR '','', CHR '']''}"
  shows "dec_elems (Suc n) s = (if c = CHR '']'' then Some ([v], r) else map_option (map_prod (Cons v) id) (dec_elems n r))"
  using assms by (auto simp: skip_ws_append skip_ws_chars)

lemma dec_members_step:
  assumes "dec_val n s = Some (v, ws @ c # r)" and "list_all is_ws ws" and "c \<in> {CHR '','', CHR ''}''}"
  shows "dec_members (Suc n) (enc_str k @ colon ind @ s) =
    (if c = CHR ''}'' then Some ([(k, v)], r) else map_option (map_prod (Cons (k, v)) id) (dec_members n r))"
proof -
  obtain ws' where c': "colon ind = CHR '':'' # ws'" "list_all is_ws ws'" using ws_colon by blast
  show ?thesis
    using assms c' by (auto simp: skip_ws_append skip_ws_chars enc_str_def dec_enc_str dec_ws)
qed

lemma dec_enc:
  "int_json v \<Longrightarrow> delim r \<Longrightarrow> weight v \<le> n \<Longrightarrow> dec_val n (enc ind d v @ r) = Some (v, r)"
  "xs \<noteq> [] \<Longrightarrow> \<forall>x \<in> set xs. int_json x \<Longrightarrow> weights xs \<le> n
    \<Longrightarrow> dec_elems n (enc_elems ind d xs @ line_break ind d' @ CHR '']'' # r) = Some (xs, r)"
  "ms \<noteq> [] \<Longrightarrow> \<forall>(k, v) \<in> set ms. int_json v \<Longrightarrow> weights (map snd ms) \<le> n
    \<Longrightarrow> dec_members n (enc_members ind d ms @ line_break ind d' @ CHR ''}'' # r) = Some (ms, r)"
proof (induction ind d v and ind d xs and ind d ms arbitrary: n r and n r d' and n r d'
    rule: enc_enc_elems_enc_members.induct)
  case (1 ind d)
  then obtain m where "n = Suc m" by (cases n) auto
  then show ?case by (simp only: enc.simps dec_val_scalar)
next
  case (2 ind d b)
  then obtain m where "n = Suc m" by (cases n) auto
  then show ?case by (simp only: enc.simps dec_val_scalar)
next
  case (3 ind d l)
  then obtain i m where "l = show_int i" "n = Suc m" by (cases n) auto
  then show ?case using 3 by (simp only: enc.simps dec_val_num)
next
  case (4 ind d s)
  then obtain m where "n = Suc m" by (cases n) auto
  then show ?case by (simp only: enc.simps dec_val_scalar)
next
  case (5 ind d xs)
  then obtain m where m: "n = Suc m" by (cases n) auto
  show ?case
  proof (cases xs)
    case Nil
    then show ?thesis by (simp only: m enc.simps dec_val_empty if_True simp_thms)
  next
    case (Cons x ys)
    obtain c t where ct: "enc ind (Suc d) x = c # t" "value_start c"
      using enc_start [of x] 5 Cons by force
    let ?body = "line_break ind (Suc d) @ enc_elems ind (Suc d) xs @ line_break ind d @ CHR '']'' # r"
    have "dec_elems m (enc_elems ind (Suc d) xs @ line_break ind d @ CHR '']'' # r) = Some (xs, r)"
      using 5 m Cons by simp
    then have "dec_elems m ?body = Some (xs, r)" by (simp add: dec_ws ws_line_break)
    moreover have "\<exists>t'. skip_ws ?body = c # t'" "c \<noteq> CHR '']''"
      using ct Cons by (auto simp: skip_ws_append ws_line_break skip_ws_start value_start_chars)
    ultimately show ?thesis using Cons by (auto simp: m skip_ws_chars dquote_neq)
  qed
next
  case (6 ind d ms)
  then obtain m where m: "n = Suc m" by (cases n) auto
  show ?case
  proof (cases ms)
    case Nil
    then show ?thesis by (simp only: m enc.simps dec_val_empty if_True simp_thms)
  next
    case (Cons kv ys)
    let ?body = "line_break ind (Suc d) @ enc_members ind (Suc d) ms @ line_break ind d @ CHR ''}'' # r"
    have "dec_members m (enc_members ind (Suc d) ms @ line_break ind d @ CHR ''}'' # r) = Some (ms, r)"
      using 6 m Cons by simp
    then have "dec_members m ?body = Some (ms, r)" by (simp add: dec_ws ws_line_break)
    moreover have "\<exists>t'. skip_ws ?body = dquote # t'"
      using Cons by (cases kv) (simp add: skip_ws_append ws_line_break skip_ws_chars enc_str_def)
    ultimately show ?thesis using Cons by (auto simp: m skip_ws_chars dquote_neq)
  qed
next
  case (8 ind d x xs)
  then obtain m where m: "n = Suc m" by (cases n) auto
  show ?case
  proof (cases xs)
    case Nil
    have "dec_val m (enc ind d x @ line_break ind d' @ CHR '']'' # r) = Some (x, line_break ind d' @ CHR '']'' # r)"
      using "8.IH"(1) "8.prems" m by (simp add: delim_line_break)
    from dec_elems_step [OF this ws_line_break] show ?thesis using Nil m by simp
  next
    case (Cons y ys)
    let ?rest = "enc_elems ind d xs @ line_break ind d' @ CHR '']'' # r"
    have "dec_val m (enc ind d x @ CHR '','' # line_break ind d @ ?rest)
        = Some (x, [] @ CHR '','' # line_break ind d @ ?rest)"
      using "8.IH"(1) "8.prems" m by (simp add: delim_chars)
    from dec_elems_step [OF this] show ?thesis
      using "8.IH"(2) [of m d' r] "8.prems" Cons m by (simp add: dec_ws ws_line_break)
  qed
next
  case (10 ind d k v ms)
  then obtain m where m: "n = Suc m" by (cases n) auto
  show ?case
  proof (cases ms)
    case Nil
    have "dec_val m (enc ind d v @ line_break ind d' @ CHR ''}'' # r) = Some (v, line_break ind d' @ CHR ''}'' # r)"
      using "10.IH"(1) "10.prems" m by (simp add: delim_line_break)
    from dec_members_step [OF this ws_line_break] show ?thesis using Nil m by simp
  next
    case (Cons y ys)
    let ?rest = "enc_members ind d ms @ line_break ind d' @ CHR ''}'' # r"
    have "dec_val m (enc ind d v @ CHR '','' # line_break ind d @ ?rest)
        = Some (v, [] @ CHR '','' # line_break ind d @ ?rest)"
      using "10.IH"(1) "10.prems" m by (simp add: delim_chars)
    from dec_members_step [OF this] show ?thesis
      using "10.IH"(2) [of m d' r] "10.prems" Cons m by (simp add: dec_ws ws_line_break)
  qed
qed simp_all

theorem json_roundtrip:
  assumes "int_json v"
  shows "json_parse (Marshal v) = Some v \<and> json_parse (MarshalIndent v) = Some v"
proof -
  have "dec_val (2 * length (enc ind 0 v) + 2) (enc ind 0 v) = Some (v, [])" for ind
  proof -
    have "weight v \<le> 2 * length (enc ind 0 v) + 2" using weight_length(1) [OF assms, of ind 0] by simp
    from dec_enc(1) [OF assms delim_chars(4) this, of ind 0] show ?thesis by (simp only: append_Nil2)
  qed
  then show ?thesis
    by (simp only: json_parse_def Marshal_def MarshalIndent_def option.case prod.case skip_ws_def
        dropWhile.simps if_True simp_thms)
qed

text \<open>The fields of a struct come back through \<open>fill\<close> when every key is a field's own name.\<close>

lemma field_of_self [simp]: "k \<in> set fl \<Longrightarrow> field_of fl k = Some k"
  by (simp add: field_of_def)

lemma fill_append: "fill fl f (ms @ ns) x = Option.bind (fill fl f ms x) (fill fl f ns)"
  by (induction fl f ms x rule: fill.induct) (auto split: option.split bind_split)

definition int64 :: "int \<Rightarrow> bool" where
  "int64 n = (- int64_max - 1 \<le> n \<and> n \<le> int64_max)"

lemma atoi_show_int: "int64 n \<Longrightarrow> atoi (show_int n) = Inr n"
proof (cases "n < 0")
  case True
  moreover assume "int64 n"
  ultimately show ?thesis using show_dec_digits [of "- n"]
    by (simp add: int64_def show_int_def atoi_def)
next
  case False
  moreover assume "int64 n"
  ultimately show ?thesis by (simp add: int64_def show_int_def atoi_show_dec)
qed

lemma set_int_json [simp]: "int64 n \<Longrightarrow> set_int (json_int n) upd x = Some (upd n)"
  by (simp add: set_int_def json_int_def atoi_show_int)

lemma set_string_simps [simp]: "set_string (JStr s) upd x = Some (upd s)"
  by (simp add: set_string_def)

lemma int_json_int [simp]: "int_json (json_int n)"
  by (auto simp: json_int_def)

lemma int_json_omit [simp]: "(k, v) \<in> set (omit_str j s) \<Longrightarrow> int_json v"
  by (auto simp: omit_str_def split: if_splits)

end
