(* ===== verification/Rclone_Client.thy ===== *)
theory Rclone_Client
  imports Process Json "HOL-Library.Multiset"
begin

text \<open>
  internal/rclone/client.go: the rclone command lines, listing, retention and pruning. A Go slice
  expression out of range is the panic of \<open>FilesToPrune\<close>: the function returns None then, and
  \<open>Prune\<close> panics.
\<close>

section \<open>Client\<close>

record rclone_client =
  rc_BinPath :: string
  rc_Remote :: string

definition rc_New :: "string \<Rightarrow> rclone_client" where
  "rc_New remote = \<lparr>rc_BinPath = ''rclone'', rc_Remote = remote\<rparr>"

definition rc_bin :: "rclone_client \<Rightarrow> string" where
  "rc_bin c = (if rc_BinPath c = [] then ''rclone'' else rc_BinPath c)"

definition rc_run :: "'x programs \<Rightarrow> rclone_client \<Rightarrow> string list \<Rightarrow> (string, 'x) act" where
  "rc_run X c args = command X ''rclone'' (rc_bin c) args args None"

definition remotePath :: "rclone_client \<Rightarrow> string \<Rightarrow> string" where
  "remotePath c path = rc_Remote c @ '':'' @ trim_prefix path [slash]"

definition ManifestSuffix :: string where
  "ManifestSuffix = ''.manifest.json''"

definition CheckConfigured :: "'x programs \<Rightarrow> rclone_client \<Rightarrow> (unit, 'x) act" where
  "CheckConfigured X c =
     bindA (rc_run X c [''listremotes'']) (\<lambda>out.
       if \<exists>line \<in> set (split_on newline out). trim_suffix (trim_space line) '':'' = rc_Remote c
       then returnA ()
       else failA (errorf (''rclone remote '' @ quote (rc_Remote c) @ '' is not configured''
              @ [newline] @ ''  hint: run `rclone config` and create a remote named '' @ quote (rc_Remote c))))"

definition rc_Mkdir :: "'x programs \<Rightarrow> rclone_client \<Rightarrow> string \<Rightarrow> (unit, 'x) act" where
  "rc_Mkdir X c path =
     bindA (wrapA (wrapf (''creating remote directory '' @ path)) (rc_run X c [''mkdir'', remotePath c path]))
       (\<lambda>_. returnA ())"

definition rc_Upload :: "'x programs \<Rightarrow> rclone_client \<Rightarrow> string \<Rightarrow> string \<Rightarrow> (unit, 'x) act" where
  "rc_Upload X c localPath path =
     bindA (wrapA (wrapf (''uploading '' @ localPath)) (rc_run X c [''copy'', localPath, remotePath c path]))
       (\<lambda>_. returnA ())"

definition rc_Download :: "'x programs \<Rightarrow> rclone_client \<Rightarrow> string \<Rightarrow> string \<Rightarrow> (unit, 'x) act" where
  "rc_Download X c path localDest =
     bindA (wrapA (wrapf (''downloading '' @ path)) (rc_run X c [''copy'', remotePath c path, localDest]))
       (\<lambda>_. returnA ())"

definition rc_Hashsum :: "'x programs \<Rightarrow> rclone_client \<Rightarrow> string \<Rightarrow> (string, 'x) act" where
  "rc_Hashsum X c path =
     bindA (wrapA (wrapf (''hashing '' @ path)) (rc_run X c [''hashsum'', ''md5'', remotePath c path]))
       (\<lambda>out. case str_fields (trim_space out) of
          [] \<Rightarrow> failA (errorf (''hashing '' @ path @ '': empty output from rclone hashsum''))
        | f # _ \<Rightarrow> returnA f)"

section \<open>Listing\<close>

record lsjsonEntry =
  ls_Path :: string
  ls_Name :: string
  ls_Size :: int
  ls_ModTime :: string
  ls_IsDir :: bool

record FileInfo =
  fi_Name :: string
  fi_Size :: int
  fi_ModTime :: string
  fi_Path :: string

definition lsjson_fields :: "string list" where
  "lsjson_fields = [''Path'', ''Name'', ''Size'', ''ModTime'', ''IsDir'']"

definition set_lsjson :: "string \<Rightarrow> json \<Rightarrow> lsjsonEntry \<Rightarrow> lsjsonEntry option" where
  "set_lsjson k v e =
     (if k = ''Path'' then set_string v (\<lambda>s. e\<lparr>ls_Path := s\<rparr>) e
      else if k = ''Name'' then set_string v (\<lambda>s. e\<lparr>ls_Name := s\<rparr>) e
      else if k = ''Size'' then set_int v (\<lambda>n. e\<lparr>ls_Size := n\<rparr>) e
      else if k = ''ModTime'' then set_string v (\<lambda>s. e\<lparr>ls_ModTime := s\<rparr>) e
      else set_bool v (\<lambda>b. e\<lparr>ls_IsDir := b\<rparr>) e)"

definition empty_lsjson :: lsjsonEntry where
  "empty_lsjson = \<lparr>ls_Path = [], ls_Name = [], ls_Size = 0, ls_ModTime = [], ls_IsDir = False\<rparr>"

text \<open>\<open>json.Unmarshal\<close> into a slice of structs.\<close>

definition unmarshal_slice :: "(json \<Rightarrow> 'a option) \<Rightarrow> string \<Rightarrow> 'a list option" where
  "unmarshal_slice f s =
     Option.bind (json_parse s) (\<lambda>v. case v of
         JArr xs \<Rightarrow> those (map f xs)
       | JNull \<Rightarrow> Some []
       | _ \<Rightarrow> None)"

definition parse_lsjson :: "string \<Rightarrow> lsjsonEntry list res" where
  "parse_lsjson out =
     (case unmarshal_slice (\<lambda>v. unmarshal_struct lsjson_fields set_lsjson v empty_lsjson) out of
        Some es \<Rightarrow> Inr es
      | None \<Rightarrow> Inl (wrapf ''parsing rclone lsjson output'' unmarshal_error))"

definition newest_first :: "FileInfo list \<Rightarrow> FileInfo list" where
  "newest_first fs = rev (sort_key fi_ModTime (rev fs))"

definition backup_files :: "string \<Rightarrow> lsjsonEntry list \<Rightarrow> FileInfo list" where
  "backup_files path es =
     (let base = trim_suffix path [slash]
      in map (\<lambda>e. \<lparr>fi_Name = ls_Name e, fi_Size = ls_Size e, fi_ModTime = ls_ModTime e,
                    fi_Path = base @ [slash] @ ls_Name e\<rparr>)
           (filter (\<lambda>e. \<not> ls_IsDir e \<and> \<not> has_suffix (ls_Name e) ManifestSuffix) es))"

definition rc_ListFiles :: "'x programs \<Rightarrow> rclone_client \<Rightarrow> string \<Rightarrow> (FileInfo list, 'x) act" where
  "rc_ListFiles X c path =
     bindA (wrapA (wrapf (''listing '' @ path)) (rc_run X c [''lsjson'', remotePath c path])) (\<lambda>out.
       case parse_lsjson out of
         Inl e \<Rightarrow> failA e
       | Inr es \<Rightarrow> returnA (newest_first (backup_files path es)))"

record TreeEntry =
  te_Path :: string
  te_Name :: string
  te_Size :: int
  te_ModTime :: string
  te_IsDir :: bool

definition rc_ListTree :: "'x programs \<Rightarrow> rclone_client \<Rightarrow> string \<Rightarrow> (TreeEntry list, 'x) act" where
  "rc_ListTree X c path =
     bindA (wrapA (wrapf (''listing '' @ path)) (rc_run X c [''lsjson'', ''--recursive'', remotePath c path])) (\<lambda>out.
       case parse_lsjson out of
         Inl e \<Rightarrow> failA e
       | Inr es \<Rightarrow> returnA (map (\<lambda>e. \<lparr>te_Path = ls_Path e, te_Name = ls_Name e, te_Size = ls_Size e,
                                         te_ModTime = ls_ModTime e, te_IsDir = ls_IsDir e\<rparr>) es))"

section \<open>Pruning\<close>

text \<open>None: the slice \<open>files[minFilesToKeep:]\<close> is out of range, a panic.\<close>

definition FilesToPrune :: "instant \<Rightarrow> FileInfo list \<Rightarrow> int \<Rightarrow> int \<Rightarrow> FileInfo list option" where
  "FilesToPrune now files retentionDays minFilesToKeep =
     (if int (length files) \<le> minFilesToKeep then Some []
      else if minFilesToKeep < 0 then None
      else let candidates = drop (nat minFilesToKeep) files;
               cutoff = add_days now (- retentionDays)
           in Some (filter (\<lambda>f. case parse_time (fi_ModTime f) of Some t \<Rightarrow> t < cutoff | None \<Rightarrow> False) candidates))"

definition prune_one :: "'x programs \<Rightarrow> rclone_client \<Rightarrow> int \<Rightarrow> FileInfo \<Rightarrow> string list \<Rightarrow> (string list, 'x) act" where
  "prune_one X c minFilesToKeep f pruned =
     bindA (wrapA (wrapf (''deleting '' @ fi_Path f @ '' (kept '' @ show_int (int (length pruned)) @ '' of the newest ''
                     @ show_int minFilesToKeep @ '' backups intact so far)''))
              (rc_run X c [''deletefile'', remotePath c (fi_Path f)])) (\<lambda>_.
     bindA (ignoreA (rc_run X c [''deletefile'', remotePath c (fi_Path f @ ManifestSuffix)])) (\<lambda>_.
       returnA (pruned @ [fi_Name f])))"

definition rc_Prune :: "'x programs \<Rightarrow> rclone_client \<Rightarrow> string \<Rightarrow> int \<Rightarrow> int \<Rightarrow> (string list, 'x) act" where
  "rc_Prune X c path retentionDays minFilesToKeep =
     bindA (wrapA (wrapf ''checking file count before prune'') (rc_ListFiles X c path)) (\<lambda>files.
     bindA nowA (\<lambda>now.
       case FilesToPrune now files retentionDays minFilesToKeep of
         None \<Rightarrow> failA (panicf ''slice bounds out of range'')
       | Some toDelete \<Rightarrow> forA toDelete (prune_one X c minFilesToKeep) []))"

section \<open>Setting up a Shared Drive\<close>

definition rc_ConfigureServiceAccountRemote ::
  "'x programs \<Rightarrow> rclone_client \<Rightarrow> string \<Rightarrow> string \<Rightarrow> string \<Rightarrow> (unit, 'x) act" where
  "rc_ConfigureServiceAccountRemote X c nm saFile teamDriveID =
     bindA (wrapA (wrapf (''configuring rclone remote '' @ quote nm))
       (rc_run X c [''config'', ''create'', nm, ''drive'', ''scope=drive'', ''service_account_file='' @ saFile,
                    ''team_drive='' @ teamDriveID, ''--non-interactive''])) (\<lambda>_. returnA ())"

record SharedDrive =
  sd_ID :: string
  sd_Name :: string

definition set_drive :: "string \<Rightarrow> json \<Rightarrow> SharedDrive \<Rightarrow> SharedDrive option" where
  "set_drive k v e =
     (if k = ''id'' then set_string v (\<lambda>s. e\<lparr>sd_ID := s\<rparr>) e else set_string v (\<lambda>s. e\<lparr>sd_Name := s\<rparr>) e)"

definition ParseBackendDrives :: "string \<Rightarrow> SharedDrive list res" where
  "ParseBackendDrives out =
     (case unmarshal_slice (\<lambda>v. unmarshal_struct [''id'', ''name''] set_drive v \<lparr>sd_ID = [], sd_Name = []\<rparr>) out of
        Some ds \<Rightarrow> Inr ds
      | None \<Rightarrow> Inl (wrapf ''parsing rclone backend drives output'' unmarshal_error))"

definition rc_ListSharedDrives :: "'x programs \<Rightarrow> rclone_client \<Rightarrow> string \<Rightarrow> (SharedDrive list, 'x) act" where
  "rc_ListSharedDrives X c remoteName =
     bindA (wrapA (wrapf (''listing Shared Drives visible to remote '' @ quote remoteName))
              (rc_run X c [''backend'', ''drives'', remoteName @ '':''])) (\<lambda>out.
       case ParseBackendDrives out of Inl e \<Rightarrow> failA e | Inr ds \<Rightarrow> returnA ds)"

section \<open>Properties\<close>

lemma newest_first_perm: "mset (newest_first fs) = mset fs"
  by (simp add: newest_first_def)

lemma newest_first_sorted: "sorted_wrt (\<lambda>f g. fi_ModTime g \<le> fi_ModTime f) (newest_first fs)"
  using sorted_sort_key [of fi_ModTime "rev fs"]
  by (simp add: newest_first_def sorted_wrt_rev sorted_map)

lemma newest_first_stable:
  "filter (\<lambda>f. fi_ModTime f = t) (newest_first fs) = filter (\<lambda>f. fi_ModTime f = t) fs"
  by (simp add: newest_first_def rev_filter [symmetric] sort_key_stable)

lemma FilesToPrune_None: "FilesToPrune now files r m = None \<longleftrightarrow> m < 0"
  by (auto simp: FilesToPrune_def Let_def)

lemma FilesToPrune_Some:
  assumes "FilesToPrune now files r m = Some D"
  shows "0 \<le> m \<and> D = filter (\<lambda>f. \<exists>t. parse_time (fi_ModTime f) = Some t \<and> t < add_days now (- r))
      (drop (nat m) files)"
  using assms
  by (auto simp: FilesToPrune_def Let_def split: if_splits option.splits intro!: filter_cong)

text \<open>The retention rule. Of a listing in the order \<open>ListFiles\<close> returns, \<open>FilesToPrune\<close> selects no
  file twice, only files with a readable time older than the retention period, and so that at least
  \<open>minFilesToKeep\<close> files (or all, if there are fewer) stay; the files of the listing's newest
  \<open>minFilesToKeep\<close> positions stay, and each is at least as new as every file selected.\<close>

theorem FilesToPrune_keeps_newest:
  assumes "FilesToPrune now (newest_first fs) r m = Some D"
  shows "mset D + mset (take (nat m) (newest_first fs)) \<subseteq># mset fs
    \<and> min m (int (length fs)) \<le> int (length fs) - int (length D)
    \<and> (\<forall>f \<in> set D. (\<exists>t. parse_time (fi_ModTime f) = Some t \<and> t < add_days now (- r))
         \<and> (\<forall>g \<in> set (take (nat m) (newest_first fs)). fi_ModTime f \<le> fi_ModTime g))"
proof -
  let ?fs = "newest_first fs" and ?P = "\<lambda>f. \<exists>t. parse_time (fi_ModTime f) = Some t \<and> t < add_days now (- r)"
  note D = FilesToPrune_Some [OF assms]
  have split: "mset fs = mset (take (nat m) ?fs) + mset (drop (nat m) ?fs)"
    by (metis append_take_drop_id mset_append newest_first_perm)
  have sub: "mset D \<subseteq># mset (drop (nat m) ?fs)" using D by (simp add: mset_filter)
  then have "length D \<le> length (drop (nat m) ?fs)" by (metis size_mset size_mset_mono)
  moreover have "length ?fs = length fs" by (metis newest_first_perm size_mset)
  ultimately have n: "min m (int (length fs)) \<le> int (length fs) - int (length D)" using D by auto
  have "f \<in> set (drop (nat m) ?fs)" if "f \<in> set D" for f using that D by auto
  then have "fi_ModTime f \<le> fi_ModTime g" if "f \<in> set D" "g \<in> set (take (nat m) ?fs)" for f g
    using that newest_first_sorted [of fs]
    by (metis append_take_drop_id sorted_wrt_append)
  then show ?thesis using split sub n D by (auto simp: add.commute)
qed

definition delete_calls :: "rclone_client \<Rightarrow> FileInfo \<Rightarrow> call list" where
  "delete_calls c f =
     [CCommand (rc_bin c) [''deletefile'', remotePath c (fi_Path f)] None,
      CCommand (rc_bin c) [''deletefile'', remotePath c (fi_Path f @ ManifestSuffix)] None]"

definition pruned_events :: "rclone_client \<Rightarrow> FileInfo list \<Rightarrow> string list \<Rightarrow> string list res \<Rightarrow> (call \<times> bool) list \<Rightarrow> bool" where
  "pruned_events c D pruned r es =
     (case r of
        Inr names \<Rightarrow> names = pruned @ map fi_Name D \<and> map fst es = concat (map (delete_calls c) D)
      | Inl e \<Rightarrow> \<not> is_panic e \<and> (\<exists>D1 f D2. D = D1 @ f # D2
          \<and> map fst es = concat (map (delete_calls c) D1) @ [hd (delete_calls c f)] \<and> \<not> snd (last es)))"

lemma rc_run_wp:
  assumes "\<And>r w'. hist_ext w [(CCommand (rc_bin c) args None, is_ok r)] w'
      \<Longrightarrow> (\<forall>e. r = Inl e \<longrightarrow> \<not> is_panic e) \<Longrightarrow> Q r w'"
  shows "wp (rc_run X c args) Q w"
  unfolding rc_run_def by (rule command_wp) (rule assms)

lemma is_panic_wrapf [simp]: "is_panic (wrapf p e) = is_panic e"
  by (simp add: wrapf_def is_panic_def)

lemma prune_one_wp:
  assumes "\<And>e w'. \<not> is_panic e \<Longrightarrow> hist_ext w [(hd (delete_calls c f), False)] w' \<Longrightarrow> Q (Inl e) w'"
    and "\<And>b w'. hist_ext w [(hd (delete_calls c f), True), (last (delete_calls c f), b)] w'
      \<Longrightarrow> Q (Inr (pruned @ [fi_Name f])) w'"
  shows "wp (prune_one X c m f pruned) Q w"
  unfolding prune_one_def wps
proof (rule rc_run_wp, goal_cases)
  case (1 r w1)
  show ?case
  proof (cases r)
    case (Inl e)
    then show ?thesis using 1 assms(1) by (simp add: delete_calls_def)
  next
    case (Inr v)
    show ?thesis unfolding Inr sum.case wps
    proof (rule rc_run_wp, goal_cases)
      case (1 r' w2)
      have "hist_ext w [(hd (delete_calls c f), True), (last (delete_calls c f), is_ok r')] w2"
        using hist_ext_trans [OF \<open>hist_ext w [_] w1\<close> 1(1)] Inr by (simp add: delete_calls_def)
      then show ?case using 1(2) assms(2) by auto
    qed
  qed
qed

lemma prune_all_wp:
  "wp (forA D (prune_one X c m) pruned) (\<lambda>r w'. \<exists>es. hist_ext w es w' \<and> pruned_events c D pruned r es) w"
proof (induction D arbitrary: pruned w)
  case Nil
  show ?case by (simp add: wps pruned_events_def exI [of _ "[]"])
next
  case (Cons f D)
  show ?case unfolding forA.simps wp_bind
  proof (rule prune_one_wp, goal_cases)
    case (1 e w')
    moreover have "\<exists>D1 g D2. f # D = D1 @ g # D2 \<and> map fst [(hd (delete_calls c f), False)]
        = concat (map (delete_calls c) D1) @ [hd (delete_calls c g)]"
      by (intro exI [of _ "[]"] exI [of _ f] exI [of _ D]) simp
    ultimately show ?case unfolding sum.case pruned_events_def
      by (intro exI [of _ "[(hd (delete_calls c f), False)]"]) simp
  next
    case (2 b w1)
    let ?first = "[(hd (delete_calls c f), True), (last (delete_calls c f), b)]"
    have f: "map fst ?first = delete_calls c f" by (simp add: delete_calls_def)
    show ?case unfolding sum.case
    proof (rule wp_mono [OF Cons.IH [of "pruned @ [fi_Name f]" w1]], elim exE conjE)
      fix r w' es
      assume h: "hist_ext w1 es w'" and e: "pruned_events c D (pruned @ [fi_Name f]) r es"
      have "pruned_events c (f # D) pruned r (?first @ es)"
      proof (cases r)
        case (Inl x)
        then obtain D1 g D2 where "D = D1 @ g # D2"
            "map fst es = concat (map (delete_calls c) D1) @ [hd (delete_calls c g)]" "\<not> snd (last es)" "\<not> is_panic x"
          using e by (auto simp: pruned_events_def)
        moreover from this have "es \<noteq> []" by auto
        ultimately show ?thesis unfolding pruned_events_def Inl sum.case using f
          by (intro conjI exI [of _ "f # D1"] exI [of _ g] exI [of _ D2]) simp_all
      qed (use e f in \<open>simp add: pruned_events_def\<close>)
      then show "\<exists>es. hist_ext w es w' \<and> pruned_events c (f # D) pruned r es"
        using hist_ext_trans [OF 2 h] by blast
    qed
  qed
qed

lemma unmarshal_error_no_panic [simp]: "\<not> is_panic unmarshal_error"
  by (simp add: unmarshal_error_def)

lemma rc_ListFiles_wp:
  assumes "\<And>r b w'. hist_ext w [(CCommand (rc_bin c) [''lsjson'', remotePath c path] None, b)] w'
      \<Longrightarrow> (\<forall>e. r = Inl e \<longrightarrow> \<not> is_panic e)
      \<Longrightarrow> (\<forall>files. r = Inr files \<longrightarrow> (\<exists>es. files = newest_first (backup_files path es))) \<Longrightarrow> Q r w'"
  shows "wp (rc_ListFiles X c path) Q w"
  unfolding rc_ListFiles_def wps
  by (rule rc_run_wp) (auto simp: wps parse_lsjson_def split: sum.split option.split intro!: assms)

lemma ListFiles_result:
  assumes "rc_ListFiles X c path w = (Inr files, w1)"
  shows "w_env w1 = w_env w \<and> (\<exists>es. files = newest_first (backup_files path es))"
proof -
  have "wp (rc_ListFiles X c path) (\<lambda>r w'. w_env w' = w_env w \<and>
      (\<forall>files. r = Inr files \<longrightarrow> (\<exists>es. files = newest_first (backup_files path es)))) w"
    by (rule rc_ListFiles_wp) (simp add: hist_ext_def)
  from wpD [OF this assms] show ?thesis by simp
qed

lemma Prune_after_listing:
  assumes "rc_ListFiles X c path w = (Inr files, w1)"
  shows "rc_Prune X c path r m w =
    (case FilesToPrune (clock (w_env w) (w_tick w1)) files r m of
       None \<Rightarrow> (Inl (panicf ''slice bounds out of range''), tickA w1)
     | Some D \<Rightarrow> forA D (prune_one X c m) [] (tickA w1))"
  using assms ListFiles_result [OF assms]
  by (simp add: rc_Prune_def bindA_def wrapA_def nowA_def failA_def split: option.split)

text \<open>C19: What \<open>Prune\<close> deletes. After a listing that succeeded, the calls made are exactly those for the
  files \<open>FilesToPrune\<close> selects, in order, each file's deletion followed by that of its manifest: all of
  them if \<open>Prune\<close> succeeds, and then it returns their names; otherwise those up to the first file
  whose deletion failed, with nothing deleted after it. A manifest that could not be deleted does
  not count as a failure.\<close>

theorem Prune_deletes_selected:
  assumes "rc_ListFiles X c path w = (Inr files, w1)"
    and "FilesToPrune (clock (w_env w) (w_tick w1)) files r m = Some D"
    and "rc_Prune X c path r m w = (res, w')"
  shows "\<exists>es. w_hist w' = w_hist w1 @ es \<and>
     (case res of
        Inr names \<Rightarrow> names = map fi_Name D \<and> map fst es = concat (map (delete_calls c) D)
      | Inl e \<Rightarrow> (\<exists>D1 f D2. D = D1 @ f # D2 \<and> \<not> snd (last es)
          \<and> map fst es = concat (map (delete_calls c) D1) @ [hd (delete_calls c f)]))"
proof -
  have "wp (rc_Prune X c path r m) (\<lambda>r w'. \<exists>es. hist_ext (tickA w1) es w' \<and> pruned_events c D [] r es) w"
    using prune_all_wp [of D X c m "[]" "tickA w1"]
    unfolding wp_def Prune_after_listing [OF assms(1)] assms(2) by simp
  from wpD [OF this assms(3)] show ?thesis
    by (cases res) (auto simp: pruned_events_def hist_ext_def tickA_def)
qed

lemma remotePath_prefix: "\<exists>pre. \<forall>n. remotePath c (base @ slash # n) = pre @ n"
proof (cases base)
  case Nil
  then show ?thesis by (simp add: remotePath_def trim_prefix_def has_prefix_def)
next
  case (Cons b bs)
  then show ?thesis
    by (cases "b = slash") (auto simp: remotePath_def trim_prefix_def has_prefix_def intro: exI [of _ "_ @ [slash]"])
qed

lemma delete_calls_prefix:
  assumes "map fst es = concat (map (delete_calls c) D)
    \<or> (\<exists>D1 f D2. D = D1 @ f # D2 \<and> map fst es = concat (map (delete_calls c) D1) @ [hd (delete_calls c f)])"
  shows "set (map fst es) \<subseteq> (\<Union>f \<in> set D. set (delete_calls c f))"
  using assms
proof (elim disjE exE conjE)
  fix D1 f D2
  assume D: "D = D1 @ f # D2" and e: "map fst es = concat (map (delete_calls c) D1) @ [hd (delete_calls c f)]"
  have "hd (delete_calls c f) \<in> set (delete_calls c f)" by (simp add: delete_calls_def)
  then show ?thesis unfolding e using D by auto
next
  assume e: "map fst es = concat (map (delete_calls c) D)"
  show ?thesis unfolding e by auto
qed


section \<open>Listings as the programs print them\<close>

definition lsjson_json :: "lsjsonEntry \<Rightarrow> json" where
  "lsjson_json e = JObj [(''Path'', JStr (ls_Path e)), (''Name'', JStr (ls_Name e)), (''Size'', json_int (ls_Size e)),
     (''ModTime'', JStr (ls_ModTime e)), (''IsDir'', JBool (ls_IsDir e))]"

lemma unmarshal_lsjson:
  "int64 (ls_Size e) \<Longrightarrow> unmarshal_struct lsjson_fields set_lsjson (lsjson_json e) empty_lsjson = Some e"
  by (simp add: unmarshal_struct_def lsjson_json_def lsjson_fields_def set_lsjson_def empty_lsjson_def set_bool_def)

lemma those_map_Some: "(\<And>x. x \<in> set xs \<Longrightarrow> f (g x) = Some x) \<Longrightarrow> those (map f (map g xs)) = Some xs"
  by (induction xs) simp_all

lemma those_json:
  "(\<And>x. x \<in> set xs \<Longrightarrow> f (g x) = Some x) \<Longrightarrow> (\<And>x. x \<in> set xs \<Longrightarrow> int_json (g x))
    \<Longrightarrow> unmarshal_slice f (Marshal (JArr (map g xs))) = Some xs
      \<and> unmarshal_slice f (MarshalIndent (JArr (map g xs))) = Some xs"
  using json_roundtrip [of "JArr (map g xs)"] those_map_Some [of xs f g]
  by (simp add: unmarshal_slice_def)

text \<open>\<open>ListFiles\<close> reads what \<open>rclone lsjson\<close> prints: for any directory whose entries have 64-bit sizes,
  printed as JSON compact or indented, the decoded entries are the directory's, and for
  \<open>rclone backend drives\<close> likewise.\<close>

theorem lsjson_roundtrip:
  assumes "\<forall>e \<in> set es. int64 (ls_Size e)"
  shows "parse_lsjson (Marshal (JArr (map lsjson_json es))) = Inr es
    \<and> parse_lsjson (MarshalIndent (JArr (map lsjson_json es))) = Inr es
    \<and> ParseBackendDrives (Marshal (JArr (map (\<lambda>d. JObj [(''id'', JStr (sd_ID d)), (''kind'', JStr ''drive#drive''),
          (''name'', JStr (sd_Name d))]) ds))) = Inr ds"
proof -
  have "int_json (lsjson_json e)" for e by (simp add: lsjson_json_def)
  then have 1: "unmarshal_slice (\<lambda>v. unmarshal_struct lsjson_fields set_lsjson v empty_lsjson)
        (Marshal (JArr (map lsjson_json es))) = Some es
     \<and> unmarshal_slice (\<lambda>v. unmarshal_struct lsjson_fields set_lsjson v empty_lsjson)
        (MarshalIndent (JArr (map lsjson_json es))) = Some es"
    using assms by (intro those_json) (simp_all add: unmarshal_lsjson)
  let ?g = "\<lambda>d. JObj [(''id'', JStr (sd_ID d)), (''kind'', JStr ''drive#drive''), (''name'', JStr (sd_Name d))]"
  have "field_of [''id'', ''name''] ''kind'' = None" by code_simp
  then have "unmarshal_slice (\<lambda>v. unmarshal_struct [''id'', ''name''] set_drive v \<lparr>sd_ID = [], sd_Name = []\<rparr>)
      (Marshal (JArr (map ?g ds))) = Some ds"
    by (intro conjunct1 [OF those_json]) (simp_all add: unmarshal_struct_def set_drive_def)
  then show ?thesis using 1 by (simp add: parse_lsjson_def ParseBackendDrives_def)
qed

section \<open>A sample remote\<close>

definition sample_entry :: "string \<Rightarrow> string \<Rightarrow> lsjsonEntry" where
  "sample_entry n t = \<lparr>ls_Path = n, ls_Name = n, ls_Size = 5, ls_ModTime = t, ls_IsDir = False\<rparr>"

definition sample_file :: "string \<Rightarrow> string \<Rightarrow> FileInfo" where
  "sample_file n t = \<lparr>fi_Name = n, fi_Size = 5, fi_ModTime = t, fi_Path = ''d/'' @ n\<rparr>"

definition sample_programs :: "unit programs" where
  "sample_programs bin args stdin fs x =
     (\<lparr>oc_stdout = (if hd args = ''lsjson''
         then Marshal (JArr [lsjson_json (sample_entry ''a'' ''2024-01-01T00:00:00Z''),
                             lsjson_json (sample_entry ''b'' ''2024-03-01T00:00:00Z'')])
         else []), oc_stderr = [], oc_error = None\<rparr>, fs, x)"

definition sample_after_list :: "unit world" where
  "sample_after_list = snd (rc_ListFiles sample_programs (rc_New ''r'') ''d'' sample_world)"

definition sample_listing :: "FileInfo list" where
  "sample_listing = [sample_file ''b'' ''2024-03-01T00:00:00Z'', sample_file ''a'' ''2024-01-01T00:00:00Z'']"

lemma sample_lists: "fst (rc_ListFiles sample_programs (rc_New ''r'') ''d'' sample_world) = Inr sample_listing"
  by code_simp

lemma sample_selection:
  "FilesToPrune 1717200000000000000 sample_listing 30 1 = Some [sample_file ''a'' ''2024-01-01T00:00:00Z'']"
  by code_simp

lemma sample_sorted: "newest_first sample_listing = sample_listing"
  by code_simp

lemma sample_clock: "clock (w_env sample_world) n = 1717200000000000000"
  by (simp add: sample_world_def sample_env_def)

theorem FilesToPrune_keeps_newest_witness:
  "\<exists>D. FilesToPrune 1717200000000000000 (newest_first sample_listing) 30 1 = Some D \<and> D \<noteq> []
    \<and> mset D + mset (take (nat 1) (newest_first sample_listing)) \<subseteq># mset sample_listing"
proof -
  have D: "FilesToPrune 1717200000000000000 (newest_first sample_listing) 30 1
      = Some [sample_file ''a'' ''2024-01-01T00:00:00Z'']" using sample_selection sample_sorted by simp
  from FilesToPrune_keeps_newest [OF D] D show ?thesis by blast
qed

theorem Prune_deletes_selected_witness:
  "\<exists>es. w_hist (snd (rc_Prune sample_programs (rc_New ''r'') ''d'' 30 1 sample_world)) = w_hist sample_after_list @ es
     \<and> map fst es = delete_calls (rc_New ''r'') (sample_file ''a'' ''2024-01-01T00:00:00Z'')"
proof -
  let ?p = "rc_Prune sample_programs (rc_New ''r'') ''d'' 30 1 sample_world"
  have l: "rc_ListFiles sample_programs (rc_New ''r'') ''d'' sample_world = (Inr sample_listing, sample_after_list)"
    using sample_lists by (simp add: prod_eq_iff sample_after_list_def)
  have s: "FilesToPrune (clock (w_env sample_world) (w_tick sample_after_list)) sample_listing 30 1
      = Some [sample_file ''a'' ''2024-01-01T00:00:00Z'']" using sample_selection by (simp add: sample_clock)
  have r: "fst ?p = Inr [''a'']" by code_simp
  then have p: "?p = (Inr [''a''], snd ?p)" by (simp add: prod_eq_iff)
  from Prune_deletes_selected [OF l s p] show ?thesis by fastforce
qed


theorem lsjson_roundtrip_witness:
  "parse_lsjson (Marshal (JArr (map lsjson_json [sample_entry ''a'' ''t'']))) = Inr [sample_entry ''a'' ''t'']"
proof -
  have "\<forall>e \<in> set [sample_entry ''a'' ''t'']. int64 (ls_Size e)" by code_simp
  from lsjson_roundtrip [OF this] show ?thesis by blast
qed

text \<open>The order of \<open>ListFiles\<close> is that of the time strings, which is not the order of the times
  when their zone offsets differ: here the file listed second is the newer one, and with
  \<open>minFilesToKeep = 1\<close> it is the one selected for deletion, while the older file is kept.\<close>

theorem lexical_order_not_chronological:
  "let older = sample_file ''old'' ''2024-01-01T01:30:00+02:00'';
       newer = sample_file ''new'' ''2024-01-01T00:00:00Z''
   in parse_time (fi_ModTime older) = Some 1704065400000000000
    \<and> parse_time (fi_ModTime newer) = Some 1704067200000000000
    \<and> FilesToPrune 1717200000000000000 (newest_first [older, newer]) 30 1 = Some [newer]"
proof -
  have "parse_time ''2024-01-01T01:30:00+02:00'' = Some 1704065400000000000"
    "parse_time ''2024-01-01T00:00:00Z'' = Some 1704067200000000000"
    "FilesToPrune 1717200000000000000 (newest_first [sample_file ''old'' ''2024-01-01T01:30:00+02:00'',
       sample_file ''new'' ''2024-01-01T00:00:00Z'']) 30 1 = Some [sample_file ''new'' ''2024-01-01T00:00:00Z'']"
    by code_simp+
  then show ?thesis by (simp add: sample_file_def)
qed

end
