(* ===== verification/Docker_Client.thy ===== *)
theory Docker_Client
  imports Process Json
begin

text \<open>
  internal/docker/client.go: the docker command lines, the redaction of credentials in error
  messages, and the normalisation of what docker prints.
\<close>

section \<open>Running docker\<close>

text \<open>The value behind a flag that carries a credential.\<close>

definition mask_env :: "string \<Rightarrow> string" where
  "mask_env kv = (case cut CHR ''='' kv of Some (k, _) \<Rightarrow> k @ ''=***'' | None \<Rightarrow> ''***'')"

definition is_env_flag :: "string \<Rightarrow> bool" where
  "is_env_flag a = (a = ''-e'' \<or> a = ''--env'')"

text \<open>The loop over the copied slice; an element that was masked is looked at again in its turn.\<close>

fun RedactArgs :: "string list \<Rightarrow> string list" where
  "RedactArgs [] = []"
| "RedactArgs [a] = [a]"
| "RedactArgs (a # b # rest) =
     (if is_env_flag a then a # RedactArgs (mask_env b # rest)
      else if a = ''--password'' then a # RedactArgs (''***'' # rest)
      else a # RedactArgs (b # rest))"

definition d_bin :: "string \<Rightarrow> string" where
  "d_bin binPath = (if binPath = [] then ''docker'' else binPath)"

definition runWithStdin :: "'x programs \<Rightarrow> string \<Rightarrow> string option \<Rightarrow> string list \<Rightarrow> (string, 'x) act" where
  "runWithStdin X binPath stdin args = command X ''docker'' (d_bin binPath) args (RedactArgs args) stdin"

definition d_run :: "'x programs \<Rightarrow> string \<Rightarrow> string list \<Rightarrow> (string, 'x) act" where
  "d_run X binPath args = runWithStdin X binPath None args"

definition hintf :: "string \<Rightarrow> error \<Rightarrow> error" where
  "hintf h e = Error (err_kind e) (err_msg e @ [newline] @ ''  hint: '' @ h)"

definition Ping :: "'x programs \<Rightarrow> string \<Rightarrow> (unit, 'x) act" where
  "Ping X binPath =
     bindA (wrapA (wrapf ''docker daemon not reachable'')
       (d_run X binPath [''info'', ''--format'', ''{{.ServerVersion}}''])) (\<lambda>_. returnA ())"

definition flag :: "MountSpec \<Rightarrow> string" where
  "flag m = ms_Source m @ '':'' @ ms_Target m @ (if ms_ReadOnly m then '':ro'' else [])"

definition run_args :: "string \<Rightarrow> MountSpec list \<Rightarrow> string list \<Rightarrow> string list" where
  "run_args img mounts cmd = [''run'', ''--rm''] @ concat (map (\<lambda>m. [''-v'', flag m]) mounts) @ [img] @ cmd"

definition d_Run :: "'x programs \<Rightarrow> string \<Rightarrow> string \<Rightarrow> MountSpec list \<Rightarrow> string list \<Rightarrow> (string, 'x) act" where
  "d_Run X binPath img mounts cmd =
     wrapA (hintf ''is Docker running? try `docker ps`'') (d_run X binPath (run_args img mounts cmd))"

definition exec_args :: "string \<Rightarrow> string list \<Rightarrow> (string \<times> string) list \<Rightarrow> bool \<Rightarrow> string list" where
  "exec_args container cmd env piped =
     [''exec''] @ (if piped then [''-i''] else []) @ concat (map (\<lambda>(k, v). [''-e'', k @ ''='' @ v]) env)
       @ [container] @ cmd"

definition d_Exec ::
  "'x programs \<Rightarrow> string \<Rightarrow> string \<Rightarrow> string list \<Rightarrow> smap \<Rightarrow> string option \<Rightarrow> (string, 'x) act" where
  "d_Exec X binPath container cmd env stdin =
     bindA (range_keysA env) (\<lambda>ks.
       wrapA (hintf (''is container '' @ quote container @ '' running? try `docker ps`''))
         (runWithStdin X binPath stdin (exec_args container cmd (map (\<lambda>k. (k, mget env k)) ks) (stdin \<noteq> None))))"

definition d_Stop :: "'x programs \<Rightarrow> string \<Rightarrow> string \<Rightarrow> (unit, 'x) act" where
  "d_Stop X binPath container =
     bindA (wrapA (hintf (''is container '' @ quote container @ '' still there? try `docker ps -a`''))
       (d_run X binPath [''stop'', container])) (\<lambda>_. returnA ())"

definition d_Start :: "'x programs \<Rightarrow> string \<Rightarrow> string \<Rightarrow> (unit, 'x) act" where
  "d_Start X binPath container =
     bindA (wrapA (hintf (''is container '' @ quote container @ '' still there? try `docker ps -a`''))
       (d_run X binPath [''start'', container])) (\<lambda>_. returnA ())"

definition d_Cp :: "'x programs \<Rightarrow> string \<Rightarrow> string \<Rightarrow> string \<Rightarrow> (unit, 'x) act" where
  "d_Cp X binPath src dst =
     bindA (wrapA (wrapf (''copying '' @ src @ '' -> '' @ dst)) (d_run X binPath [''cp'', src, dst])) (\<lambda>_. returnA ())"

section \<open>Listing\<close>

definition splitLines :: "string \<Rightarrow> string list" where
  "splitLines out = filter (\<lambda>l. l \<noteq> []) (map trim_space (split_on newline out))"

record VolumeSummary =
  vs_Name :: string
  vs_Driver :: string
  vs_Mountpoint :: string

record ContainerRef =
  cr_ID :: string
  cr_Names :: string
  cr_Image :: string

definition set_volume :: "string \<Rightarrow> json \<Rightarrow> VolumeSummary \<Rightarrow> VolumeSummary option" where
  "set_volume k v e =
     (if k = ''Name'' then set_string v (\<lambda>s. e\<lparr>vs_Name := s\<rparr>) e
      else if k = ''Driver'' then set_string v (\<lambda>s. e\<lparr>vs_Driver := s\<rparr>) e
      else set_string v (\<lambda>s. e\<lparr>vs_Mountpoint := s\<rparr>) e)"

definition set_ref :: "string \<Rightarrow> json \<Rightarrow> ContainerRef \<Rightarrow> ContainerRef option" where
  "set_ref k v e =
     (if k = ''ID'' then set_string v (\<lambda>s. e\<lparr>cr_ID := s\<rparr>) e
      else if k = ''Names'' then set_string v (\<lambda>s. e\<lparr>cr_Names := s\<rparr>) e
      else set_string v (\<lambda>s. e\<lparr>cr_Image := s\<rparr>) e)"

definition parse_lines :: "string \<Rightarrow> (json \<Rightarrow> 'a option) \<Rightarrow> string \<Rightarrow> 'a list res" where
  "parse_lines what f out =
     (case those (map (\<lambda>l. Option.bind (json_parse l) f) (splitLines out)) of
        Some xs \<Rightarrow> Inr xs
      | None \<Rightarrow> Inl (wrapf (''parsing `docker '' @ what @ ''` output'') unmarshal_error))"

definition ListVolumes :: "'x programs \<Rightarrow> string \<Rightarrow> (VolumeSummary list, 'x) act" where
  "ListVolumes X binPath =
     bindA (d_run X binPath [''volume'', ''ls'', ''--format'', ''{{json .}}'']) (\<lambda>out.
       case parse_lines ''volume ls'' (\<lambda>v. unmarshal_struct [''Name'', ''Driver'', ''Mountpoint''] set_volume v
              \<lparr>vs_Name = [], vs_Driver = [], vs_Mountpoint = []\<rparr>) out of
         Inl e \<Rightarrow> failA e
       | Inr vols \<Rightarrow> returnA vols)"

definition ListContainers :: "'x programs \<Rightarrow> string \<Rightarrow> bool \<Rightarrow> (ContainerRef list, 'x) act" where
  "ListContainers X binPath all =
     bindA (d_run X binPath ([''ps'', ''--format'', ''{{json .}}''] @ (if all then [''--all''] else []))) (\<lambda>out.
       case parse_lines ''ps'' (\<lambda>v. unmarshal_struct [''ID'', ''Names'', ''Image''] set_ref v
              \<lparr>cr_ID = [], cr_Names = [], cr_Image = []\<rparr>) out of
         Inl e \<Rightarrow> failA e
       | Inr refs \<Rightarrow> returnA refs)"

section \<open>Inspecting\<close>

record Mount =
  mt_Type :: string
  mt_Name :: string
  mt_Source :: string
  mt_Destination :: string

record ContainerDetail =
  cd_ID :: string
  cd_Name :: string
  cd_Image :: string
  cd_Running :: bool
  cd_Env :: smap
  cd_Mounts :: "Mount list"
  cd_Ports :: "int list"

record rawInspect =
  raw_ID :: string
  raw_Name :: string
  raw_Running :: bool
  raw_Image :: string
  raw_Env :: "string list"
  raw_Mounts :: "Mount list"
  raw_Ports :: "(string \<times> json) list"

definition empty_raw :: rawInspect where
  "empty_raw = \<lparr>raw_ID = [], raw_Name = [], raw_Running = False, raw_Image = [], raw_Env = [],
     raw_Mounts = [], raw_Ports = []\<rparr>"

definition empty_mount :: Mount where
  "empty_mount = \<lparr>mt_Type = [], mt_Name = [], mt_Source = [], mt_Destination = []\<rparr>"

definition set_mount :: "string \<Rightarrow> json \<Rightarrow> Mount \<Rightarrow> Mount option" where
  "set_mount k v e =
     (if k = ''Type'' then set_string v (\<lambda>s. e\<lparr>mt_Type := s\<rparr>) e
      else if k = ''Name'' then set_string v (\<lambda>s. e\<lparr>mt_Name := s\<rparr>) e
      else if k = ''Source'' then set_string v (\<lambda>s. e\<lparr>mt_Source := s\<rparr>) e
      else set_string v (\<lambda>s. e\<lparr>mt_Destination := s\<rparr>) e)"

text \<open>A JSON array into a slice; \<open>null\<close> makes it nil.\<close>

definition set_list :: "json \<Rightarrow> (json \<Rightarrow> 'b option) \<Rightarrow> ('b list \<Rightarrow> 'a) \<Rightarrow> 'a \<Rightarrow> 'a option" where
  "set_list v f upd x =
     (case v of JArr js \<Rightarrow> map_option upd (those (map f js)) | JNull \<Rightarrow> Some (upd []) | _ \<Rightarrow> None)"

definition json_string :: "json \<Rightarrow> string option" where
  "json_string v = (case v of JStr s \<Rightarrow> Some s | JNull \<Rightarrow> Some [] | _ \<Rightarrow> None)"

definition set_state :: "string \<Rightarrow> json \<Rightarrow> rawInspect \<Rightarrow> rawInspect option" where
  "set_state k v e = set_bool v (\<lambda>b. e\<lparr>raw_Running := b\<rparr>) e"

definition set_config :: "string \<Rightarrow> json \<Rightarrow> rawInspect \<Rightarrow> rawInspect option" where
  "set_config k v e =
     (if k = ''Image'' then set_string v (\<lambda>s. e\<lparr>raw_Image := s\<rparr>) e
      else set_list v json_string (\<lambda>xs. e\<lparr>raw_Env := xs\<rparr>) e)"

definition set_network :: "string \<Rightarrow> json \<Rightarrow> rawInspect \<Rightarrow> rawInspect option" where
  "set_network k v e =
     (case v of
        JObj ms \<Rightarrow> Some (e\<lparr>raw_Ports := fold (\<lambda>(p, j). mput p j) ms (raw_Ports e)\<rparr>)
      | JNull \<Rightarrow> Some (e\<lparr>raw_Ports := []\<rparr>)
      | _ \<Rightarrow> None)"

definition set_raw :: "string \<Rightarrow> json \<Rightarrow> rawInspect \<Rightarrow> rawInspect option" where
  "set_raw k v e =
     (if k = ''Id'' then set_string v (\<lambda>s. e\<lparr>raw_ID := s\<rparr>) e
      else if k = ''Name'' then set_string v (\<lambda>s. e\<lparr>raw_Name := s\<rparr>) e
      else if k = ''State'' then unmarshal_struct [''Running''] set_state v e
      else if k = ''Config'' then unmarshal_struct [''Image'', ''Env''] set_config v e
      else if k = ''Mounts'' then
        set_list v (\<lambda>j. unmarshal_struct [''Type'', ''Name'', ''Source'', ''Destination''] set_mount j empty_mount)
          (\<lambda>ms. e\<lparr>raw_Mounts := ms\<rparr>) e
      else unmarshal_struct [''Ports''] set_network v e)"

definition raw_fields :: "string list" where
  "raw_fields = [''Id'', ''Name'', ''State'', ''Config'', ''Mounts'', ''NetworkSettings'']"

text \<open>\<open>KEY=VALUE\<close> entries; one without \<open>=\<close> is dropped, a later one replaces an earlier one.\<close>

definition env_map :: "string list \<Rightarrow> smap" where
  "env_map kvs = fold (\<lambda>kv m. case cut CHR ''='' kv of Some (k, v) \<Rightarrow> mput k v m | None \<Rightarrow> m) kvs []"

definition port_number :: "string \<Rightarrow> int option" where
  "port_number p = (case atoi (hd (split_on slash p)) of Inr n \<Rightarrow> Some n | Inl _ \<Rightarrow> None)"

definition detail_of :: "rawInspect \<Rightarrow> string list \<Rightarrow> ContainerDetail" where
  "detail_of r ports =
     \<lparr>cd_ID = raw_ID r, cd_Name = trim_prefix (raw_Name r) [slash], cd_Image = raw_Image r,
      cd_Running = raw_Running r, cd_Env = env_map (raw_Env r), cd_Mounts = raw_Mounts r,
      cd_Ports = List.map_filter port_number ports\<rparr>"

definition InspectContainer :: "'x programs \<Rightarrow> string \<Rightarrow> string \<Rightarrow> (ContainerDetail, 'x) act" where
  "InspectContainer X binPath cid =
     bindA (d_run X binPath [''inspect'', cid]) (\<lambda>out.
       case Option.bind (json_parse out) (\<lambda>v. case v of
              JArr xs \<Rightarrow> those (map (\<lambda>x. unmarshal_struct raw_fields set_raw x empty_raw) xs)
            | JNull \<Rightarrow> Some [] | _ \<Rightarrow> None) of
         None \<Rightarrow> failA (wrapf (''parsing `docker inspect '' @ cid @ ''` output'') unmarshal_error)
       | Some [] \<Rightarrow> failA (errorf (''docker inspect '' @ cid @ '': no such object''))
       | Some (r # _) \<Rightarrow> bindA (range_keysA (raw_Ports r)) (\<lambda>ports. returnA (detail_of r ports)))"

fun InspectContainers ::
  "'x programs \<Rightarrow> string \<Rightarrow> string list \<Rightarrow> (ContainerDetail list \<times> error list, 'x) act" where
  "InspectContainers X binPath [] = returnA ([], [])"
| "InspectContainers X binPath (cid # cids) =
     tryA (InspectContainer X binPath cid) (\<lambda>r.
     bindA (InspectContainers X binPath cids) (\<lambda>(ds, es).
       returnA (case r of Inl e \<Rightarrow> (ds, e # es) | Inr d \<Rightarrow> (d # ds, es))))"

section \<open>Redaction\<close>

lemma length_RedactArgs: "length (RedactArgs args) = length args"
  by (induction args rule: RedactArgs.induct) auto

lemma mask_env_value: "mask_env (k @ ''='' @ v) = mask_env (k @ ''='' @ v')"
proof -
  have "takeWhile (\<lambda>x. x \<noteq> CHR ''='') (k @ CHR ''='' # v) = takeWhile (\<lambda>x. x \<noteq> CHR ''='') (k @ CHR ''='' # v')"
    by (induction k) auto
  then show ?thesis by (simp add: mask_env_def cut_def)
qed

lemma mask_env_ends: "\<exists>p. mask_env kv = p @ ''***''"
  by (auto simp: mask_env_def split: option.split)

lemma mask_env_no_flag: "\<not> is_env_flag (mask_env kv)" "mask_env kv \<noteq> ''--password''"
proof -
  obtain p where "mask_env kv = p @ ''***''" using mask_env_ends by blast
  then have "last (mask_env kv) = CHR ''*''" by simp
  then show "\<not> is_env_flag (mask_env kv)" "mask_env kv \<noteq> ''--password''" by (auto simp: is_env_flag_def)
qed

lemma stars_no_flag: "\<not> is_env_flag ''***''" "''***'' \<noteq> ''--password''"
  by (simp_all add: is_env_flag_def)

lemma RedactArgs_skip: "\<not> is_env_flag a \<Longrightarrow> a \<noteq> ''--password'' \<Longrightarrow> RedactArgs (a # xs) = a # RedactArgs xs"
  by (cases xs) simp_all

lemma RedactArgs_env: "is_env_flag a \<Longrightarrow> RedactArgs (a # b # xs) = a # mask_env b # RedactArgs xs"
  by (simp add: RedactArgs_skip mask_env_no_flag)

lemma RedactArgs_password: "RedactArgs (''--password'' # b # xs) = ''--password'' # ''***'' # RedactArgs xs"
  by (simp add: RedactArgs_skip stars_no_flag is_env_flag_def)

lemma RedactArgs_env_flags:
  "RedactArgs (concat (map (\<lambda>(k, v). [''-e'', k @ ''='' @ v]) env) @ xs)
    = concat (map (\<lambda>(k, v). [''-e'', mask_env (k @ ''='')]) env) @ RedactArgs xs"
proof (induction env)
  case (Cons kv env)
  have e: "is_env_flag ''-e''" by (simp add: is_env_flag_def)
  show ?case using Cons mask_env_value [of "fst kv" "snd kv" "[]"]
    by (cases kv) (simp add: RedactArgs_env [OF e] del: RedactArgs.simps)
qed simp

lemma RedactArgs_exec:
  "RedactArgs (exec_args container cmd env piped) =
    [''exec''] @ (if piped then [''-i''] else []) @ concat (map (\<lambda>(k, v). [''-e'', mask_env (k @ ''='')]) env)
      @ RedactArgs (container # cmd)"
  using RedactArgs_env_flags [of env "container # cmd"]
  by (simp add: exec_args_def RedactArgs_skip is_env_flag_def del: RedactArgs.simps)

lemma RedactArgs_skip_list:
  "list_all (\<lambda>a. \<not> is_env_flag a \<and> a \<noteq> ''--password'') pre \<Longrightarrow> RedactArgs (pre @ xs) = pre @ RedactArgs xs"
  by (induction pre) (simp_all add: RedactArgs_skip del: RedactArgs.simps)

lemma RedactArgs_hides:
  assumes "map fst env = map fst env'"
    and "list_all (\<lambda>a. \<not> is_env_flag a \<and> a \<noteq> ''--password'') (container # pre)"
  shows "RedactArgs (exec_args container cmd env piped) = RedactArgs (exec_args container cmd env' piped)"
    and "RedactArgs (exec_args container (pre @ [''--password'', pw] @ post) env piped)
       = RedactArgs (exec_args container (pre @ [''--password'', pw'] @ post) env' piped)"
proof -
  have "map (\<lambda>(k, v). [''-e'', mask_env (k @ ''='')]) e = map (\<lambda>k. [''-e'', mask_env (k @ ''='')]) (map fst e)"
    for e :: "(string \<times> string) list" by (simp add: case_prod_unfold)
  then have e: "map (\<lambda>(k, v). [''-e'', mask_env (k @ ''='')]) env = map (\<lambda>(k, v). [''-e'', mask_env (k @ ''='')]) env'"
    using assms(1) by metis
  show "RedactArgs (exec_args container cmd env piped) = RedactArgs (exec_args container cmd env' piped)"
    unfolding RedactArgs_exec e ..
  have "RedactArgs ((container # pre) @ [''--password'', x] @ post)
      = (container # pre) @ ''--password'' # ''***'' # RedactArgs post" for x
    using RedactArgs_skip_list [OF assms(2)] RedactArgs_password [of x post] by simp
  then show "RedactArgs (exec_args container (pre @ [''--password'', pw] @ post) env piped)
       = RedactArgs (exec_args container (pre @ [''--password'', pw'] @ post) env' piped)"
    unfolding RedactArgs_exec e by simp
qed

lemma command_failing:
  assumes "\<And>bin args stdin fs x. oc_error (fst (X bin args stdin fs x)) \<noteq> None \<and> failure_text (fst (X bin args stdin fs x)) = msg"
  shows "fst (command X tool bin args shown stdin w) = Inl (errorf (tool @ '' '' @ join '' '' shown @ '': '' @ msg))"
proof (cases "X bin args stdin (w_fs w) (w_ext w)")
  case (fields oc fs' x')
  then have "oc_error oc \<noteq> None" "failure_text oc = msg" using assms by (metis fst_conv)+
  then show ?thesis using fields by (auto simp: command_def Let_def)
qed

lemma fst_wrapA_Inl: "fst (m w) = Inl e \<Longrightarrow> \<not> is_panic e \<Longrightarrow> fst (wrapA g m w) = Inl (g e)"
  by (auto simp: wrapA_def split: prod.split)

lemma d_Exec_failing:
  assumes "\<And>bin args stdin fs x. oc_error (fst (X bin args stdin fs x)) \<noteq> None \<and> failure_text (fst (X bin args stdin fs x)) = msg"
  shows "fst (d_Exec X b container cmd env stdin w) =
    Inl (hintf (''is container '' @ quote container @ '' running? try `docker ps`'')
      (errorf (''docker'' @ '' '' @ join '' '' (RedactArgs (exec_args container cmd
         (map (\<lambda>k. (k, mget env k)) (map_order (w_env w) (w_tick w) (map fst env))) (stdin \<noteq> None))) @ '': '' @ msg)))"
  unfolding d_Exec_def bindA_def range_keysA_def prod.case sum.case runWithStdin_def
  by (rule fst_wrapA_Inl [OF command_failing]) (rule assms, simp)

text \<open>C20: No credential reaches an error message. If the docker process fails with some text, the error
  \<open>Exec\<close> returns is the same whatever the values of the environment variables passed to it, and,
  for a command that carries \<open>--password value\<close> after words that are not themselves such flags,
  whatever the password: only the names of the variables and the process's own output show.\<close>

theorem Exec_error_hides_secrets:
  assumes "\<And>bin args stdin fs x. oc_error (fst (X bin args stdin fs x)) \<noteq> None
      \<and> failure_text (fst (X bin args stdin fs x)) = msg"
    and "map fst env = map fst env'"
    and "list_all (\<lambda>a. \<not> is_env_flag a \<and> a \<noteq> ''--password'') (container # pre)"
  shows "fst (d_Exec X b container cmd env stdin w) = fst (d_Exec X b container cmd env' stdin w)
    \<and> fst (d_Exec X b container (pre @ [''--password'', pw] @ post) env stdin w)
      = fst (d_Exec X b container (pre @ [''--password'', pw'] @ post) env' stdin w)"
proof -
  let ?e = "\<lambda>env. map (\<lambda>k. (k, mget env k)) (map_order (w_env w) (w_tick w) (map fst env))"
  have "map fst (?e env) = map fst (?e env')" using assms(2) by (simp add: comp_def)
  note h = RedactArgs_hides [OF this assms(3)]
  show ?thesis using h(1) h(2) [of pw post _ pw'] unfolding d_Exec_failing [OF assms(1)] by simp
qed

theorem Exec_error_hides_secrets_witness:
  "fst (d_Exec (\<lambda>_ _ _ fs x. (\<lparr>oc_stdout = [], oc_stderr = ''boom'', oc_error = Some ''exit status 1''\<rparr>, fs, x)) []
        ''mongo'' ([''mongodump''] @ [''--password'', ''hunter2''] @ []) [(''A'', ''x'')] None sample_world)
   = fst (d_Exec (\<lambda>_ _ _ fs x. (\<lparr>oc_stdout = [], oc_stderr = ''boom'', oc_error = Some ''exit status 1''\<rparr>, fs, x)) []
        ''mongo'' ([''mongodump''] @ [''--password'', ''other''] @ []) [(''A'', ''y'')] None sample_world)"
proof -
  let ?oc = "\<lparr>oc_stdout = [], oc_stderr = ''boom'', oc_error = Some ''exit status 1''\<rparr>"
  let ?X = "\<lambda>(_::string) (_::string list) (_::string option) (fs::fsys) x. (?oc, fs, x)"
  have f: "failure_text ?oc = ''boom''" by code_simp
  have k: "map fst [(''A'', ''x'')] = map fst [(''A'', ''y'')]"
    "list_all (\<lambda>a. \<not> is_env_flag a \<and> a \<noteq> ''--password'') (''mongo'' # [''mongodump''])"
    by (simp_all add: is_env_flag_def)
  show ?thesis
    by (rule Exec_error_hides_secrets [of ?X "''boom''", THEN conjunct2, OF _ k]) (simp_all add: f)
qed

text \<open>The short flags with which the connectivity test of internal/generator passes passwords are not covered.\<close>

lemma RedactArgs_short_flags:
  assumes "c \<noteq> ''-e''" and "c \<noteq> ''--env''" and "c \<noteq> ''--password''" and "pw \<noteq> ''-e''" and "pw \<noteq> ''--env''" and "pw \<noteq> ''--password''"
  shows "RedactArgs [''exec'', c, ''redis-cli'', ''-a'', pw, ''--no-auth-warning'', ''ping'']
       = [''exec'', c, ''redis-cli'', ''-a'', pw, ''--no-auth-warning'', ''ping'']"
  using assms by (simp add: RedactArgs_skip is_env_flag_def)

end
