(* ===== verification/Backup_Core.thy ===== *)
theory Backup_Core
  imports Rclone_Client Docker_Client
begin

text \<open>
  internal/backup: the job, the interfaces the executors are written against, the archive and its
  integrity manifest, the upload with its verification, local retention, and the bookkeeping
  around a backup (archive.go, executor.go, manifest.go, run.go, local_retention.go, size.go).
  internal/utils/notifications.go's webhook is here too.
\<close>

section \<open>Jobs and interfaces\<close>

record Job =
  j_Name :: string
  j_BackupType :: string
  j_VolumeID :: string
  j_VolumeIdentifier :: string
  j_HostPath :: string
  j_ContainerName :: string
  j_ServiceType :: string
  j_Credentials :: smap
  j_GoogleDrivePath :: string
  j_RetentionDays :: int
  j_MinFilesToKeep :: int
  j_WebhookURL :: string
  j_LocalBackupDir :: string
  j_LocalRetentionCount :: int
  j_LastBackup :: "instant option"
  j_LastBackupStatus :: string

record 'x DockerClient =
  dk_Run :: "string \<Rightarrow> MountSpec list \<Rightarrow> string list \<Rightarrow> (string, 'x) act"
  dk_Exec :: "string \<Rightarrow> string list \<Rightarrow> smap \<Rightarrow> string option \<Rightarrow> (string, 'x) act"
  dk_Stop :: "string \<Rightarrow> (unit, 'x) act"
  dk_Start :: "string \<Rightarrow> (unit, 'x) act"
  dk_Cp :: "string \<Rightarrow> string \<Rightarrow> (unit, 'x) act"

record 'x RcloneClient =
  rk_Upload :: "string \<Rightarrow> string \<Rightarrow> (unit, 'x) act"
  rk_ListFiles :: "string \<Rightarrow> (FileInfo list, 'x) act"
  rk_Download :: "string \<Rightarrow> string \<Rightarrow> (unit, 'x) act"
  rk_Prune :: "string \<Rightarrow> int \<Rightarrow> int \<Rightarrow> (string list, 'x) act"
  rk_Hashsum :: "string \<Rightarrow> (string, 'x) act"

text \<open>The two clients of an executor and the machine's HTTP transport, which returns a status code.\<close>

record 'x services =
  sv_docker :: "'x DockerClient"
  sv_rclone :: "'x RcloneClient"
  sv_http :: "string \<Rightarrow> string \<Rightarrow> (int, 'x) act"

text \<open>The clients of the program itself.\<close>

definition docker_client :: "'x programs \<Rightarrow> string \<Rightarrow> 'x DockerClient" where
  "docker_client X binPath = \<lparr>dk_Run = d_Run X binPath, dk_Exec = d_Exec X binPath, dk_Stop = d_Stop X binPath,
     dk_Start = d_Start X binPath, dk_Cp = d_Cp X binPath\<rparr>"

definition rclone_client :: "'x programs \<Rightarrow> rclone_client \<Rightarrow> 'x RcloneClient" where
  "rclone_client X c = \<lparr>rk_Upload = rc_Upload X c, rk_ListFiles = rc_ListFiles X c, rk_Download = rc_Download X c,
     rk_Prune = rc_Prune X c, rk_Hashsum = rc_Hashsum X c\<rparr>"

definition Run :: "'x services \<Rightarrow> string \<Rightarrow> MountSpec list \<Rightarrow> string list \<Rightarrow> (string, 'x) act" where
  "Run sv img mounts cmd = callA (CRun img mounts cmd) (dk_Run (sv_docker sv) img mounts cmd)"

definition Exec :: "'x services \<Rightarrow> string \<Rightarrow> string list \<Rightarrow> smap \<Rightarrow> string option \<Rightarrow> (string, 'x) act" where
  "Exec sv container cmd env stdin = callA (CExec container cmd env stdin) (dk_Exec (sv_docker sv) container cmd env stdin)"

definition Stop :: "'x services \<Rightarrow> string \<Rightarrow> (unit, 'x) act" where
  "Stop sv container = callA (CStop container) (dk_Stop (sv_docker sv) container)"

definition Start :: "'x services \<Rightarrow> string \<Rightarrow> (unit, 'x) act" where
  "Start sv container = callA (CStart container) (dk_Start (sv_docker sv) container)"

definition Cp :: "'x services \<Rightarrow> string \<Rightarrow> string \<Rightarrow> (unit, 'x) act" where
  "Cp sv src dst = callA (CCp src dst) (dk_Cp (sv_docker sv) src dst)"

definition Upload :: "'x services \<Rightarrow> string \<Rightarrow> string \<Rightarrow> (unit, 'x) act" where
  "Upload sv localPath path = callA (CUpload localPath path) (rk_Upload (sv_rclone sv) localPath path)"

definition ListFiles :: "'x services \<Rightarrow> string \<Rightarrow> (FileInfo list, 'x) act" where
  "ListFiles sv path = callA (CListFiles path) (rk_ListFiles (sv_rclone sv) path)"

definition Download :: "'x services \<Rightarrow> string \<Rightarrow> string \<Rightarrow> (unit, 'x) act" where
  "Download sv path dest = callA (CDownload path dest) (rk_Download (sv_rclone sv) path dest)"

definition Prune :: "'x services \<Rightarrow> string \<Rightarrow> int \<Rightarrow> int \<Rightarrow> (string list, 'x) act" where
  "Prune sv path days keep = callA (CPrune path days keep) (rk_Prune (sv_rclone sv) path days keep)"

text \<open>What the remote answered is part of the record of the call.\<close>

definition hash_answer :: "string res \<Rightarrow> string" where
  "hash_answer r = (case r of Inl _ \<Rightarrow> [] | Inr h \<Rightarrow> h)"

definition Hashsum :: "'x services \<Rightarrow> string \<Rightarrow> (string, 'x) act" where
  "Hashsum sv path w = callA (CHashsum path (hash_answer (fst (rk_Hashsum (sv_rclone sv) path w)))) (rk_Hashsum (sv_rclone sv) path) w"

lemmas client_calls = Run_def Exec_def Stop_def Start_def Cp_def Upload_def ListFiles_def Download_def
  Prune_def Hashsum_def

section \<open>Sizes\<close>

text \<open>Division rounding to the nearest integer, ties to even.\<close>

definition round_div :: "int \<Rightarrow> int \<Rightarrow> int" where
  "round_div a b =
     (let q = a div b; r = a mod b
      in if 2 * r < b then q else if 2 * r > b then q + 1 else if even q then q else q + 1)"

function bit_length :: "int \<Rightarrow> int" where
  "bit_length n = (if n \<le> 0 then 0 else 1 + bit_length (n div 2))"
  by pat_completeness auto
termination by (relation "measure nat") auto

declare bit_length.simps [simp del]

text \<open>\<open>float64(n)\<close>, an integer again for \<open>n\<close> that is not negative.\<close>

definition float_of_int :: "int \<Rightarrow> int" where
  "float_of_int n = (let k = bit_length n - 53 in if k \<le> 0 then n else round_div n (2 ^ nat k) * 2 ^ nat k)"

text \<open>\<open>fmt.Sprintf("%.1f", a / b)\<close> for floats with \<open>1 \<le> a / b < 2 ^ 53\<close>: the quotient is rounded to 53
  bits, and its exact value to one decimal.\<close>

definition show_quotient :: "int \<Rightarrow> int \<Rightarrow> string" where
  "show_quotient a b =
     (let k = nat (53 - bit_length (a div b)); m = round_div (a * 2 ^ k) b; t = round_div (10 * m) (2 ^ k)
      in show_dec (t div 10) @ ''.'' @ show_dec (t mod 10))"

function unit_loop :: "int \<Rightarrow> int \<Rightarrow> nat \<Rightarrow> int \<times> nat" where
  "unit_loop v dv ex = (if v \<ge> 1000 then unit_loop (v div 1000) (dv * 1000) (Suc ex) else (dv, ex))"
  by pat_completeness auto
termination by (relation "measure (\<lambda>(v, _, _). nat v)") auto

declare unit_loop.simps [simp del]

definition size_units :: "string list" where
  "size_units = [''KB'', ''MB'', ''GB'', ''TB'']"

text \<open>None: the index into the units is out of range, a panic.\<close>

definition FormatBytes :: "int \<Rightarrow> string option" where
  "FormatBytes n =
     (if n < 1000 then Some (show_int n @ '' B'')
      else let (dv, ex) = unit_loop (n div 1000) 1000 0
           in if ex < length size_units
              then Some (show_quotient (float_of_int n) dv @ '' '' @ size_units ! ex) else None)"

section \<open>Archives\<close>

definition archive_name :: "instant \<Rightarrow> string \<Rightarrow> string \<Rightarrow> string \<Rightarrow> string" where
  "archive_name t jobName volumeIdentifier ext =
     jobName @ ''_'' @ volumeIdentifier @ ''_'' @ (format_compact t @ ''Z'') @ ''.'' @ trim_prefix ext ''.''"

definition ArchiveFileName :: "string \<Rightarrow> string \<Rightarrow> string \<Rightarrow> (string, 'x) act" where
  "ArchiveFileName jobName volumeIdentifier ext =
     bindA nowA (\<lambda>t. returnA (archive_name t jobName volumeIdentifier ext))"

definition GzipToFile :: "string \<Rightarrow> string \<Rightarrow> (unit, 'x) act" where
  "GzipToFile data path =
     bindA (OpenTrunc path 384) (\<lambda>_. bindA (get_env gzip) (\<lambda>gz. WriteBytes path (gz data)))"

definition VolumeIdentifierOrFallback :: "Job \<Rightarrow> string" where
  "VolumeIdentifierOrFallback job =
     (if j_VolumeIdentifier job \<noteq> [] then j_VolumeIdentifier job
      else if j_VolumeID job \<noteq> [] then j_VolumeID job else ''data'')"

section \<open>Integrity manifests\<close>

record ArchiveManifest =
  am_JobName :: string
  am_BackupType :: string
  am_FileName :: string
  am_SHA256 :: string
  am_MD5 :: string
  am_SizeBytes :: int
  am_CreatedAt :: instant

definition ComputeManifest :: "Job \<Rightarrow> string \<Rightarrow> (ArchiveManifest, 'x) act" where
  "ComputeManifest job localPath =
     bindA (wrapA (wrapf (''opening '' @ localPath @ '' to hash'')) (OpenRead localPath)) (\<lambda>_.
     bindA (wrapA (wrapf (''hashing '' @ localPath)) (ReadFile localPath)) (\<lambda>data.
     bindA (get_env sha256_hex) (\<lambda>sha.
     bindA (get_env md5_hex) (\<lambda>md5.
     bindA nowA (\<lambda>now.
       returnA \<lparr>am_JobName = j_Name job, am_BackupType = j_BackupType job, am_FileName = path_base localPath,
         am_SHA256 = sha data, am_MD5 = md5 data, am_SizeBytes = int (length data), am_CreatedAt = now\<rparr>)))))"

definition ManifestPathFor :: "string \<Rightarrow> string" where
  "ManifestPathFor localPath = localPath @ ManifestSuffix"

definition manifest_json :: "ArchiveManifest \<Rightarrow> json" where
  "manifest_json m = JObj
     [(''job_name'', JStr (am_JobName m)), (''backup_type'', JStr (am_BackupType m)),
      (''file_name'', JStr (am_FileName m)), (''sha256'', JStr (am_SHA256 m)), (''md5'', JStr (am_MD5 m)),
      (''size_bytes'', json_int (am_SizeBytes m)), (''created_at'', JStr (format_rfc3339nano (am_CreatedAt m)))]"

text \<open>A time with a year of more than four digits has no JSON form.\<close>

definition year_error :: error where
  "year_error = errorf ''json: error calling MarshalJSON for type time.Time: year outside of range [0,9999]''"

definition WriteManifest :: "ArchiveManifest \<Rightarrow> string \<Rightarrow> (unit, 'x) act" where
  "WriteManifest m path =
     (if \<not> four_digit_year (am_CreatedAt m) then failA (wrapf ''encoding manifest'' year_error)
      else wrapA (wrapf (''writing manifest '' @ path)) (WriteFile path (MarshalIndent (manifest_json m)) 384))"

text \<open>A warning appended to a status.\<close>

definition remark :: "string \<Rightarrow> string \<Rightarrow> string" where
  "remark what msg = '', '' @ what @ '': '' @ msg"

section \<open>Local retention\<close>

definition copyFile :: "string \<Rightarrow> string \<Rightarrow> (unit, 'x) act" where
  "copyFile src dst =
     bindA (wrapA (wrapf (''opening '' @ src)) (OpenRead src)) (\<lambda>_.
     bindA (wrapA (wrapf (''creating '' @ dst)) (OpenTrunc dst 384)) (\<lambda>_.
       wrapA (wrapf (''copying '' @ src @ '' -> '' @ dst)) (bindA (ReadFile src) (WriteBytes dst))))"

definition local_file :: "string \<Rightarrow> string \<times> node \<Rightarrow> FileInfo option" where
  "local_file dir e =
     (case e of (nm, File b _ t) \<Rightarrow>
        if has_suffix nm ManifestSuffix then None
        else Some \<lparr>fi_Name = nm, fi_Size = int (length b), fi_ModTime = format_rfc3339 t, fi_Path = path_join [dir, nm]\<rparr>
      | _ \<Rightarrow> None)"

definition remove_local :: "FileInfo \<Rightarrow> unit \<Rightarrow> (unit, 'x) act" where
  "remove_local f _ =
     tryA (Remove (fi_Path f)) (\<lambda>r. case r of
       Inl e \<Rightarrow> if err_kind e = KNotExist then ignoreA (Remove (fi_Path f @ ManifestSuffix))
               else failA (wrapf (''removing '' @ fi_Path f) e)
     | Inr _ \<Rightarrow> ignoreA (Remove (fi_Path f @ ManifestSuffix)))"

definition pruneLocalCopies :: "string \<Rightarrow> int \<Rightarrow> (unit, 'x) act" where
  "pruneLocalCopies dir keep =
     bindA (wrapA (wrapf (''listing '' @ dir)) (ReadDir dir)) (\<lambda>entries.
     bindA nowA (\<lambda>now.
       case FilesToPrune now (newest_first (List.map_filter (local_file dir) entries)) 0 keep of
         None \<Rightarrow> failA (panicf ''slice bounds out of range'')
       | Some toDelete \<Rightarrow> forA toDelete remove_local ()))"

definition retainLocalCopy :: "Job \<Rightarrow> string \<Rightarrow> string \<Rightarrow> string \<Rightarrow> (string, 'x) act" where
  "retainLocalCopy job localPath manifestPath status =
     (if j_LocalRetentionCount job \<le> 0 \<or> j_LocalBackupDir job = [] then returnA status
      else
        let dir = path_join [j_LocalBackupDir job, j_Name job]
        in tryA (MkdirAll dir 448) (\<lambda>r. case r of
             Inl e \<Rightarrow> returnA (status @ remark ''local copy warning'' (''creating '' @ dir @ '': '' @ err_msg e))
           | Inr _ \<Rightarrow>
               bindA (ignoreA (Chmod dir 448)) (\<lambda>_.
               tryA (copyFile localPath (path_join [dir, path_base localPath])) (\<lambda>r. case r of
                 Inl e \<Rightarrow> returnA (status @ remark ''local copy warning'' (err_msg e))
               | Inr _ \<Rightarrow>
                   bindA (if manifestPath = [] then returnA status
                          else tryA (copyFile manifestPath (path_join [dir, path_base manifestPath])) (\<lambda>r. case r of
                                 Inl e \<Rightarrow> returnA (status @ remark ''local manifest copy warning'' (err_msg e))
                               | Inr _ \<Rightarrow> returnA status)) (\<lambda>status.
                   tryA (pruneLocalCopies dir (j_LocalRetentionCount job)) (\<lambda>r. case r of
                     Inl e \<Rightarrow> returnA (status @ remark ''local prune warning'' (err_msg e))
                   | Inr _ \<Rightarrow> returnA status))))))"

section \<open>Upload and verification\<close>

definition PruneWithWarning :: "'x services \<Rightarrow> Job \<Rightarrow> string \<Rightarrow> (string, 'x) act" where
  "PruneWithWarning sv job status =
     (if j_RetentionDays job \<le> 0 then returnA status
      else tryA (Prune sv (j_GoogleDrivePath job) (j_RetentionDays job) (j_MinFilesToKeep job)) (\<lambda>r. case r of
             Inl e \<Rightarrow> returnA (status @ remark ''prune warning'' (err_msg e))
           | Inr _ \<Rightarrow> returnA status))"

definition verifyRemoteHash :: "'x services \<Rightarrow> string \<Rightarrow> string \<Rightarrow> (unit, 'x) act" where
  "verifyRemoteHash sv remoteFile localMD5 =
     bindA (wrapA (wrapf (''verifying upload integrity for '' @ remoteFile)) (Hashsum sv remoteFile)) (\<lambda>remoteMD5.
       if remoteMD5 \<noteq> localMD5
       then failA (errorf (''upload integrity check failed for '' @ remoteFile @ '': local md5 '' @ localMD5
              @ '' != remote md5 '' @ remoteMD5 @ '' (the uploaded object doesn't match what was sent)''))
       else returnA ())"

text \<open>Steps 1 of \<open>UploadArchive\<close>: the manifest, its path (empty if there is none) and the status so far.\<close>

definition prepare_manifest :: "Job \<Rightarrow> string \<Rightarrow> (string \<times> string \<times> string, 'x) act" where
  "prepare_manifest job localPath =
     tryA (ComputeManifest job localPath) (\<lambda>mr. case mr of
       Inl e \<Rightarrow> returnA ([], [], remark ''manifest warning'' (err_msg e))
     | Inr m \<Rightarrow>
         tryA (WriteManifest m (ManifestPathFor localPath)) (\<lambda>r. case r of
           Inl e \<Rightarrow> returnA (am_MD5 m, [], remark ''manifest warning'' (err_msg e))
         | Inr _ \<Rightarrow> returnA (am_MD5 m, ManifestPathFor localPath, [])))"

definition upload_manifest :: "'x services \<Rightarrow> Job \<Rightarrow> string \<Rightarrow> string \<Rightarrow> (string, 'x) act" where
  "upload_manifest sv job manifestPath status =
     (if manifestPath = [] then returnA status
      else tryA (Upload sv manifestPath (j_GoogleDrivePath job)) (\<lambda>r. case r of
             Inl e \<Rightarrow> returnA (status @ remark ''manifest upload warning'' (err_msg e))
           | Inr _ \<Rightarrow> returnA status))"

text \<open>From the manifest's upload on: steps 3 to 5.\<close>

definition finish_upload ::
  "'x services \<Rightarrow> Job \<Rightarrow> string \<Rightarrow> string \<Rightarrow> string \<Rightarrow> int \<Rightarrow> string \<Rightarrow> (string, 'x) act" where
  "finish_upload sv job localPath md5 manifestPath n status =
     bindA (upload_manifest sv job manifestPath status) (\<lambda>status.
     bindA (if manifestPath = [] then returnA ()
            else verifyRemoteHash sv (path_join [j_GoogleDrivePath job, path_base localPath]) md5) (\<lambda>_.
       case FormatBytes n of
         None \<Rightarrow> failA (panicf ''index out of range'')
       | Some sz \<Rightarrow> PruneWithWarning sv job (''success ('' @ sz @ '')'' @ status)))"

definition UploadArchive :: "'x services \<Rightarrow> Job \<Rightarrow> string \<Rightarrow> (string, 'x) act" where
  "UploadArchive sv job localPath =
     bindA (wrapA (wrapf ''reading archive output'') (Stat localPath)) (\<lambda>info.
     bindA (prepare_manifest job localPath) (\<lambda>(md5, manifestPath, status).
     bindA (retainLocalCopy job localPath manifestPath status) (\<lambda>status.
     bindA (wrapA (wrapf (''uploading to '' @ j_GoogleDrivePath job)) (Upload sv localPath (j_GoogleDrivePath job))) (\<lambda>_.
       finish_upload sv job localPath md5 manifestPath (node_size info) status))))"

definition UniqueRemoteDirs :: "Job list \<Rightarrow> string list" where
  "UniqueRemoteDirs jobs =
     snd (fold (\<lambda>job (seen, dirs).
            if j_GoogleDrivePath job = [] \<or> j_GoogleDrivePath job \<in> set seen then (seen, dirs)
            else (j_GoogleDrivePath job # seen, dirs @ [j_GoogleDrivePath job])) jobs ([], []))"

section \<open>Webhooks and bookkeeping\<close>

record WebhookPayload =
  wh_Job :: string
  wh_Status :: string
  wh_Message :: string
  wh_Timestamp :: instant
  wh_SizeBytes :: int
  wh_Elapsed :: string

definition payload_json :: "WebhookPayload \<Rightarrow> json" where
  "payload_json p = JObj
     ([(''job'', JStr (wh_Job p)), (''status'', JStr (wh_Status p)), (''message'', JStr (wh_Message p)),
       (''timestamp'', JStr (format_rfc3339nano (wh_Timestamp p)))]
      @ (if wh_SizeBytes p = 0 then [] else [(''size_bytes'', json_int (wh_SizeBytes p))])
      @ omit_str ''elapsed'' (wh_Elapsed p))"

definition SendWebhook :: "'x services \<Rightarrow> string \<Rightarrow> WebhookPayload \<Rightarrow> (unit, 'x) act" where
  "SendWebhook sv url payload =
     (if url = [] then returnA ()
      else if \<not> four_digit_year (wh_Timestamp payload) then failA year_error
      else let body = Marshal (payload_json payload)
           in bindA (wrapA (wrapf ''webhook request failed'') (callA (CPost url body) (sv_http sv url body))) (\<lambda>code.
                if code \<ge> 300 then failA (errorf (''webhook returned status '' @ show_int code)) else returnA ()))"

text \<open>The job is passed by reference; here the updated job is returned with the error, if any.\<close>

definition record_outcome :: "Job \<Rightarrow> instant \<Rightarrow> string res \<Rightarrow> Job" where
  "record_outcome job now r =
     job\<lparr>j_LastBackup := Some now,
         j_LastBackupStatus := (case r of Inl e \<Rightarrow> ''failed: '' @ err_msg e | Inr status \<Rightarrow> status)\<rparr>"

definition RunAndRecord :: "'x services \<Rightarrow> Job \<Rightarrow> (string, 'x) act \<Rightarrow> (Job \<times> error option, 'x) act" where
  "RunAndRecord sv job fn =
     tryA fn (\<lambda>r.
     bindA nowA (\<lambda>now.
       let job' = record_outcome job now r;
           payload = \<lparr>wh_Job = j_Name job, wh_Status = (case r of Inl _ \<Rightarrow> ''failure'' | Inr _ \<Rightarrow> ''success''),
                      wh_Message = j_LastBackupStatus job', wh_Timestamp = now, wh_SizeBytes = 0, wh_Elapsed = []\<rparr>
       in bindA (if j_WebhookURL job = [] then returnA ()
                 else ignoreA (SendWebhook sv (j_WebhookURL job) payload)) (\<lambda>_.
            returnA (job', case r of Inl e \<Rightarrow> Some e | Inr _ \<Rightarrow> None))))"

section \<open>Local steps\<close>

lemma quiet_compute_manifest [quiets]: "quiet (ComputeManifest job p)"
  unfolding ComputeManifest_def by (intro quiets)

lemma quiet_write_manifest [quiets]: "quiet (WriteManifest m p)"
  unfolding WriteManifest_def by (intro quiets)

lemma quiet_copy_file [quiets]: "quiet (copyFile src dst)"
  unfolding copyFile_def by (intro quiets)

lemma quiet_remove_local [quiets]: "quiet (remove_local f u)"
  unfolding remove_local_def by (intro quiets)

lemma quiet_prune_local [quiets]: "quiet (pruneLocalCopies dir keep)"
  unfolding pruneLocalCopies_def by (intro quiets)

lemma quiet_retain_local [quiets]: "quiet (retainLocalCopy job p mp status)"
  unfolding retainLocalCopy_def by (intro quiets)

lemma quiet_prepare [quiets]: "quiet (prepare_manifest job p)"
  unfolding prepare_manifest_def by (intro quiets)

lemma quiet_archive_name [quiets]: "quiet (ArchiveFileName j v e)"
  unfolding ArchiveFileName_def by (intro quiets)

lemma quiet_gzip [quiets]: "quiet (GzipToFile d p)"
  unfolding GzipToFile_def by (intro quiets)

text \<open>Reading leaves the files alone.\<close>

lemma read_wp:
  "(\<And>r w'. hist_ext w [] w' \<Longrightarrow> w_fs w' = w_fs w \<Longrightarrow> (\<forall>b. r = Inr b \<longrightarrow> fs_read p (w_fs w) = Inr b) \<Longrightarrow> Q r w')
    \<Longrightarrow> wp (ReadFile p) Q w"
  by (auto simp: wp_def ReadFile_def sysA_def hist_ext_def tickA_def split: option.split prod.split)

lemma open_wp:
  "(\<And>r w'. hist_ext w [] w' \<Longrightarrow> w_fs w' = w_fs w \<Longrightarrow> Q r w') \<Longrightarrow> wp (OpenRead p) Q w"
  by (auto simp: wp_def OpenRead_def sysA_def hist_ext_def tickA_def split: option.split prod.split)

lemma stat_wp:
  "(\<And>r w'. hist_ext w [] w' \<Longrightarrow> w_ext w' = w_ext w \<Longrightarrow> w_fs w' = w_fs w \<Longrightarrow> Q r w') \<Longrightarrow> wp (Stat p) Q w"
  by (auto simp: wp_def Stat_def sysA_def hist_ext_def tickA_def split: option.split prod.split)

lemma compute_manifest_wp:
  assumes "\<And>r w'. (\<forall>m. r = Inr m \<longrightarrow> (\<exists>b. fs_read p (w_fs w) = Inr b \<and> am_MD5 m = md5_hex (w_env w) b
      \<and> am_SHA256 m = sha256_hex (w_env w) b)) \<Longrightarrow> Q r w'"
  shows "wp (ComputeManifest job p) Q w"
  unfolding ComputeManifest_def wps
proof (rule open_wp, goal_cases)
  case (1 r w1)
  show ?case
  proof (cases r)
    case (Inl e)
    then show ?thesis using assms by simp
  next
    case (Inr u)
    show ?thesis unfolding Inr sum.case
    proof (rule read_wp, goal_cases)
      case (1 r' w2)
      then show ?case using assms \<open>hist_ext w [] w1\<close> \<open>w_fs w1 = w_fs w\<close>
        by (cases r') (simp_all add: wp_def nowA_def returnA_def hist_ext_def)
    qed
  qed
qed

text \<open>What \<open>prepare_manifest\<close> reports: an MD5 of the archive's bytes, or a warning.\<close>

definition prepared :: "'x world \<Rightarrow> string \<Rightarrow> string \<times> string \<times> string \<Rightarrow> bool" where
  "prepared w p res = (case res of (md5, mp, st) \<Rightarrow>
     (mp = ManifestPathFor p \<and> mp \<noteq> [] \<and> st = [] \<and> (\<exists>b. fs_read p (w_fs w) = Inr b \<and> md5 = md5_hex (w_env w) b))
     \<or> (mp = [] \<and> (\<exists>x. st = remark ''manifest warning'' x)))"

lemma prepare_manifest_wp:
  assumes "\<And>r w'. hist_ext w [] w' \<Longrightarrow> w_ext w' = w_ext w \<Longrightarrow> (\<forall>x. r = Inr x \<longrightarrow> prepared w p x) \<Longrightarrow> Q r w'"
  shows "wp (prepare_manifest job p) Q w"
proof -
  have mp: "ManifestPathFor p \<noteq> []" by (simp add: ManifestPathFor_def ManifestSuffix_def)
  have warn: "prepared w p (md5, [], remark ''manifest warning'' x)" for md5 x by (auto simp: prepared_def)
  have "wp (prepare_manifest job p) (\<lambda>r w'. \<forall>x. r = Inr x \<longrightarrow> prepared w p x) w"
    unfolding prepare_manifest_def wps
  proof (rule compute_manifest_wp, goal_cases)
    case (1 r w1)
    show ?case
    proof (cases r)
      case (Inl e)
      then show ?thesis using warn by (simp add: wps)
    next
      case (Inr m)
      then have "prepared w p (am_MD5 m, ManifestPathFor p, [])" using 1 mp by (auto simp: prepared_def)
      then show ?thesis unfolding Inr
        by (simp add: wps) (rule wpI, auto simp: wps warn split: sum.split)
    qed
  qed
  moreover have "wp (prepare_manifest job p) (\<lambda>r w'. hist_ext w [] w' \<and> w_ext w' = w_ext w) w"
    by (rule quiet_wp [OF quiet_prepare]) simp
  ultimately show ?thesis by (auto simp: wp_def intro: assms split: prod.splits)
qed

text \<open>An action that only ever appends to a status.\<close>

definition appends :: "string \<Rightarrow> (string, 'x) act \<Rightarrow> bool" where
  "appends s m = (\<forall>w st w'. m w = (Inr st, w') \<longrightarrow> (\<exists>x. st = s @ x))"

named_theorems appending \<open>rules for appends\<close>

lemma appends_return [appending]: "appends s (returnA s)" "appends s (returnA (s @ x))"
  by (auto simp: appends_def returnA_def)

lemma appends_if [appending]: "appends s m \<Longrightarrow> appends s n \<Longrightarrow> appends s (if b then m else n)"
  by simp

lemma appends_try [appending]: "(\<And>r. appends s (f r)) \<Longrightarrow> appends s (tryA m f)"
  by (auto simp: appends_def tryA_def split: prod.splits sum.splits if_splits)

lemma appends_case [appending]:
  "(\<And>e. appends s (f e)) \<Longrightarrow> (\<And>v. appends s (g v)) \<Longrightarrow> appends s (case r of Inl e \<Rightarrow> f e | Inr v \<Rightarrow> g v)"
  by (cases r) simp_all

lemma appends_bind: "(\<And>v. appends s (f v)) \<Longrightarrow> appends s (bindA m f)"
  by (fastforce simp: appends_def bindA_def split: prod.splits sum.splits)

lemma appends_then:
  assumes "appends s m" and "\<And>t. appends t (f t)"
  shows "appends s (bindA m f)"
  unfolding appends_def
proof (intro allI impI)
  fix w st w' assume r: "bindA m f w = (Inr st, w')"
  then obtain t w1 where m: "m w = (Inr t, w1)" and f: "f t w1 = (Inr st, w')"
    by (auto simp: bindA_def split: prod.splits sum.splits)
  obtain x y where "t = s @ x" "st = t @ y" using assms m f by (meson appends_def)
  then show "\<exists>x. st = s @ x" by simp
qed

lemma appends_retain: "appends status (retainLocalCopy job p mp status)"
  unfolding retainLocalCopy_def Let_def
  by (intro appending appends_bind appends_then)

lemma appends_upload_manifest: "appends status (upload_manifest sv job mp status)"
  unfolding upload_manifest_def by (intro appending)

lemma appends_prune: "appends status (PruneWithWarning sv job status)"
  unfolding PruneWithWarning_def by (intro appending)

lemma appended:
  assumes "appends s m" and "\<And>r w'. (\<forall>st. r = Inr st \<longrightarrow> (\<exists>x. st = s @ x)) \<Longrightarrow> m w = (r, w') \<Longrightarrow> Q r w'"
  shows "wp m Q w"
proof (rule wpI)
  fix r w' assume 2: "m w = (r, w')"
  then have "\<forall>st. r = Inr st \<longrightarrow> (\<exists>x. st = s @ x)" using assms(1) by (auto simp: appends_def)
  then show "Q r w'" using 2 by (rule assms(2))
qed

lemma retain_wp:
  assumes "\<And>r w'. hist_ext w [] w' \<Longrightarrow> (\<forall>st. r = Inr st \<longrightarrow> (\<exists>x. st = status @ x)) \<Longrightarrow> Q r w'"
  shows "wp (retainLocalCopy job p mp status) Q w"
proof (rule appended [OF appends_retain])
  fix r w' assume 1: "\<forall>st. r = Inr st \<longrightarrow> (\<exists>x. st = status @ x)" and 2: "retainLocalCopy job p mp status w = (r, w')"
  show "Q r w'" by (rule assms [OF conjunct1 [OF quietD [OF quiet_retain_local 2]] 1])
qed

section \<open>Upload and verification\<close>

text \<open>The calls of a complete upload, with (\<open>wm\<close>) or without a manifest; \<open>b1\<close> and \<open>b2\<close> say whether the two
  steps that may fail without failing the backup succeeded.\<close>

definition remote_file :: "Job \<Rightarrow> string \<Rightarrow> string" where
  "remote_file job p = path_join [j_GoogleDrivePath job, path_base p]"

definition checked_upload :: "Job \<Rightarrow> string \<Rightarrow> bool \<Rightarrow> string \<Rightarrow> bool \<Rightarrow> (call \<times> bool) list" where
  "checked_upload job p wm md5 b1 =
     (CUpload p (j_GoogleDrivePath job), True) #
     (if wm then [(CUpload (ManifestPathFor p) (j_GoogleDrivePath job), b1), (CHashsum (remote_file job p) md5, True)] else [])"

definition prune_events :: "Job \<Rightarrow> bool \<Rightarrow> (call \<times> bool) list" where
  "prune_events job b2 =
     (if j_RetentionDays job \<le> 0 then []
      else [(CPrune (j_GoogleDrivePath job) (j_RetentionDays job) (j_MinFilesToKeep job), b2)])"

definition is_prune :: "call \<Rightarrow> bool" where
  "is_prune c = (case c of CPrune _ _ _ \<Rightarrow> True | _ \<Rightarrow> False)"

text \<open>\<open>md5\<close> is the MD5 of the bytes of the local file \<open>p\<close>.\<close>

definition has_md5 :: "'x world \<Rightarrow> string \<Rightarrow> string \<Rightarrow> bool" where
  "has_md5 w p md5 = (\<exists>data. fs_read p (w_fs w) = Inr data \<and> md5 = md5_hex (w_env w) data)"

definition upload_result :: "Job \<Rightarrow> string \<Rightarrow> 'x world \<Rightarrow> string res \<Rightarrow> 'x world \<Rightarrow> bool" where
  "upload_result job p w r w' =
     (case r of
        Inr status \<Rightarrow> \<exists>wm md5 b1 b2. hist_ext w (checked_upload job p wm md5 b1 @ prune_events job b2) w' \<and>
          (if wm then has_md5 w p md5
           else \<exists>sz x. status = ''success ('' @ sz @ '')'' @ remark ''manifest warning'' x)
      | Inl e \<Rightarrow> \<exists>es wm md5 b1 b2. hist_ext w es w' \<and>
          prefix (map fst es) (map fst (checked_upload job p wm md5 b1 @ prune_events job b2)) \<and>
          (if is_panic e then True else \<forall>c \<in> fst ` set es. \<not> is_prune c))"

lemma prune_wp:
  assumes "hist_ext w0 es w"
    and "\<And>r w' b. hist_ext w0 (es @ prune_events job b) w' \<Longrightarrow> (\<forall>st. r = Inr st \<longrightarrow> (\<exists>x. st = status @ x))
      \<Longrightarrow> (\<forall>e. r = Inl e \<longrightarrow> is_panic e) \<Longrightarrow> Q r w'"
  shows "wp (PruneWithWarning sv job status) Q w"
  unfolding PruneWithWarning_def
proof (rule wp_if, goal_cases)
  case 1
  then show ?case using assms(1) assms(2) [of "True" w "Inr status"] by (simp add: wps prune_events_def)
next
  case 2
  show ?case unfolding wps Prune_def
  proof (rule call_step [OF assms(1)], goal_cases)
    case (1 r w')
    then have h: "hist_ext w0 (es @ prune_events job (is_ok r)) w'" using 2 by (simp add: prune_events_def)
    show ?case
    proof (cases r)
      case (Inl e)
      then show ?thesis using assms(2) [OF h] by (simp add: wps)
    next
      case (Inr v)
      then show ?thesis using assms(2) [OF h, of "Inr status"] by (simp add: wps)
    qed
  qed
qed

lemma hashsum_wp:
  assumes "hist_ext w0 es w"
    and "\<And>e a b w'. hist_ext w0 (es @ [(CHashsum rf a, b)]) w' \<Longrightarrow> Q (Inl e) w'"
    and "\<And>w'. hist_ext w0 (es @ [(CHashsum rf md5, True)]) w' \<Longrightarrow> Q (Inr ()) w'"
  shows "wp (verifyRemoteHash sv rf md5) Q w"
proof (rule wpI)
  fix r w' assume run: "verifyRemoteHash sv rf md5 w = (r, w')"
  obtain h w2 where h: "rk_Hashsum (sv_rclone sv) rf w = (h, w2)" by force
  obtain w3 where w3: "Hashsum sv rf w = (h, w3)" by (simp add: Hashsum_def callA_def h)
  have "wp (callA (CHashsum rf (hash_answer h)) (rk_Hashsum (sv_rclone sv) rf)) (\<lambda>r w'. hist_ext w0 (es @ [(CHashsum rf (hash_answer h), is_ok r)]) w') w"
    by (rule call_step [OF assms(1)])
  from wpD [OF this] w3 h have e: "hist_ext w0 (es @ [(CHashsum rf (hash_answer h), is_ok h)]) w3" by (simp add: Hashsum_def)
  show "Q r w'"
    using run w3 e [unfolded hash_answer_def] assms(2,3)
    by (cases h) (auto simp: verifyRemoteHash_def bindA_def wrapA_def failA_def returnA_def split: if_splits)
qed

lemma upload_failed:
  assumes "hist_ext w es w'" and "prefix (map fst es) (map fst (checked_upload job p wm md5 b1))"
  shows "upload_result job p w (Inl e) w'"
proof -
  have "\<forall>c \<in> fst ` set (checked_upload job p wm md5 b1). \<not> is_prune c"
    by (auto simp: checked_upload_def is_prune_def)
  moreover have "fst ` set es \<subseteq> fst ` set (checked_upload job p wm md5 b1)"
    using set_mono_prefix [OF assms(2)] by (simp only: set_map)
  ultimately have "\<forall>c \<in> fst ` set es. \<not> is_prune c" by blast
  then show ?thesis unfolding upload_result_def sum.case using assms
    by (intro exI [of _ es] exI [of _ wm] exI [of _ md5] exI [of _ b1] exI [of _ True]) (simp add: prefix_append)
qed

lemma upload_panicked:
  assumes "hist_ext w (checked_upload job p wm md5 b1 @ prune_events job b2) w'" and "is_panic e"
  shows "upload_result job p w (Inl e) w'"
  unfolding upload_result_def sum.case using assms by fastforce

text \<open>After the checks: the size, the status and the pruning.\<close>

lemma upload_tail:
  assumes "hist_ext w (checked_upload job p wm md5 b1) w1"
    and "if wm then has_md5 w p md5 else \<exists>x. st = remark ''manifest warning'' x"
  shows "wp (case FormatBytes n of None \<Rightarrow> failA (panicf ''index out of range'')
      | Some sz \<Rightarrow> PruneWithWarning sv job (''success ('' @ sz @ '')'' @ st)) (upload_result job p w) w1"
proof (cases "FormatBytes n")
  case None
  then show ?thesis using upload_failed [OF assms(1), of job p wm md5 b1] by (simp add: wps)
next
  case (Some sz)
  show ?thesis unfolding Some option.case
  proof (rule prune_wp [OF assms(1)], goal_cases)
    case (1 r w' b)
    show ?case
    proof (cases r)
      case (Inl e)
      then show ?thesis using upload_panicked [OF 1(1)] 1(3) by simp
    next
      case (Inr s)
      have "\<exists>sz x. s = ''success ('' @ sz @ '')'' @ remark ''manifest warning'' x" if nw: "\<not> wm"
      proof -
        obtain x y where "st = remark ''manifest warning'' x" "s = (''success ('' @ sz @ '')'' @ st) @ y"
          using 1(2) Inr assms(2) nw by auto
        then have "s = ''success ('' @ sz @ '')'' @ remark ''manifest warning'' (x @ y)" by (simp add: remark_def)
        then show ?thesis by blast
      qed
      then show ?thesis unfolding upload_result_def Inr sum.case using 1(1) assms(2)
        by (intro exI [of _ wm] exI [of _ md5] exI [of _ b1] exI [of _ b]) simp
    qed
  qed
qed

lemma upload_manifest_wp:
  assumes "hist_ext w0 es w" and "mp \<noteq> []"
    and "\<And>r w' b. hist_ext w0 (es @ [(CUpload mp (j_GoogleDrivePath job), b)]) w'
      \<Longrightarrow> (\<forall>st. r = Inr st \<longrightarrow> (\<exists>x. st = status @ x)) \<Longrightarrow> Q r w'"
  shows "wp (upload_manifest sv job mp status) Q w"
proof (rule appended [OF appends_upload_manifest])
  fix r w' assume 1: "\<forall>st. r = Inr st \<longrightarrow> (\<exists>x. st = status @ x)" and 2: "upload_manifest sv job mp status w = (r, w')"
  have "wp (upload_manifest sv job mp status) (\<lambda>r w'. \<exists>b. hist_ext w0 (es @ [(CUpload mp (j_GoogleDrivePath job), b)]) w') w"
    unfolding upload_manifest_def using assms(2)
    by (simp add: wps Upload_def) (rule call_step [OF assms(1)], auto simp: wps split: sum.split)
  from wpD [OF this 2] show "Q r w'" using assms(3) 1 by blast
qed

lemma finish_with_manifest:
  assumes h: "hist_ext w [(CUpload p (j_GoogleDrivePath job), True)] w4"
    and mp: "mp = ManifestPathFor p" "mp \<noteq> []"
    and data: "fs_read p (w_fs w) = Inr data" "md5 = md5_hex (w_env w) data"
  shows "wp (finish_upload sv job p md5 mp n st) (upload_result job p w) w4"
  unfolding finish_upload_def wp_bind if_not_P [OF mp(2)]
proof (rule upload_manifest_wp [OF h mp(2)], goal_cases)
  case (1 r w5 b)
  note h5 = 1(1)
  show ?case
  proof (cases r)
    case (Inl e)
    then show ?thesis using upload_failed [OF h5, of job p True md5 b] by (simp add: checked_upload_def mp)
  next
    case (Inr st5)
    show ?thesis unfolding Inr sum.case
    proof (rule hashsum_wp [OF h5], goal_cases)
      case (1 e a b' w6)
      then show ?case using upload_failed [OF 1(1), of job p True a b]
        by (simp add: checked_upload_def mp remote_file_def)
    next
      case (2 w6)
      have "has_md5 w p md5" using data by (simp add: has_md5_def)
      then show ?case using upload_tail [of w job p True md5 b w6 st5 sv n] 2 mp(1)
        by (simp add: checked_upload_def remote_file_def)
    qed
  qed
qed

lemma finish_without_manifest:
  assumes "hist_ext w [(CUpload p (j_GoogleDrivePath job), True)] w4" and "st = remark ''manifest warning'' x"
  shows "wp (finish_upload sv job p md5 [] n st) (upload_result job p w) w4"
  using upload_tail [of w job p False md5 True w4 st sv n] assms
  by (auto simp: finish_upload_def upload_manifest_def wps checked_upload_def)

lemma upload_after_prepare:
  assumes h2: "hist_ext w [] w2" and prep: "prepared w p (md5, mp, st)"
  shows "wp (bindA (retainLocalCopy job p mp st) (\<lambda>status.
     bindA (wrapA (wrapf (''uploading to '' @ j_GoogleDrivePath job)) (Upload sv p (j_GoogleDrivePath job))) (\<lambda>_.
       finish_upload sv job p md5 mp n status))) (upload_result job p w) w2"
  unfolding wps
proof (rule retain_wp, goal_cases)
  case (1 r w3)
  have h3: "hist_ext w [] w3" using hist_ext_trans [OF h2 1(1)] by simp
  show ?case
  proof (cases r)
    case (Inl e)
    then show ?thesis using upload_failed [of w "[]" w3] h3 by simp
  next
    case (Inr st3)
    then obtain x where st3: "st3 = st @ x" using 1(2) by auto
    show ?thesis unfolding Inr sum.case wps Upload_def
    proof (rule call_step [OF h3], goal_cases)
      case (1 r w4)
      show ?case
      proof (cases r)
        case (Inl e)
        then show ?thesis using upload_failed [OF 1, of job p True md5 True] by (simp add: checked_upload_def)
      next
        case (Inr u)
        have h4: "hist_ext w [(CUpload p (j_GoogleDrivePath job), True)] w4" using 1 Inr by simp
        from prep consider y where "mp = []" "st3 = remark ''manifest warning'' (y @ x)"
          | data where "mp = ManifestPathFor p" "mp \<noteq> []" "fs_read p (w_fs w) = Inr data" "md5 = md5_hex (w_env w) data"
          using st3 by (auto simp: prepared_def remark_def)
        then show ?thesis unfolding Inr sum.case
          by cases (use finish_without_manifest [OF h4] finish_with_manifest [OF h4] in blast)+
      qed
    qed
  qed
qed

lemma UploadArchive_wp: "wp (UploadArchive sv job p) (upload_result job p w) w"
  unfolding UploadArchive_def wps
proof (rule stat_wp, goal_cases)
  case (1 r w1)
  note h1 = 1(1)
  show ?case
  proof (cases r)
    case (Inl e)
    then show ?thesis using upload_failed [of w "[]" w1] h1 by simp
  next
    case (Inr info)
    show ?thesis unfolding Inr sum.case
    proof (rule prepare_manifest_wp, goal_cases)
      case (1 r w2)
      have h2: "hist_ext w [] w2" using hist_ext_trans [OF h1 1(1)] by simp
      show ?case
      proof (cases r)
        case (Inl e)
        then show ?thesis using upload_failed [of w "[]" w2] h2 by simp
      next
        case (Inr x)
        obtain md5 mp st where x: "x = (md5, mp, st)" by (cases x)
        have "prepared w p (md5, mp, st)"
          using 1(3) Inr x h1 \<open>w_fs w1 = w_fs w\<close> by (simp add: prepared_def hist_ext_def)
        then show ?thesis unfolding Inr x sum.case prod.case
          using upload_after_prepare [OF h2] by simp
      qed
    qed
  qed
qed

text \<open>C2: An upload, step by step. If \<open>UploadArchive\<close> succeeds with a manifest, then it uploaded the archive,
  then the manifest, then asked the remote for the archive's hash and got the MD5 of the local
  archive's bytes, and only then pruned (if retention is on); without a manifest it says so in
  the status. If it fails, the calls made are a part of that sequence in order, and it has not
  pruned. The model covers every behaviour of rclone and every failure of the machine.\<close>

theorem UploadArchive_verified:
  "case UploadArchive sv job p w of
     (Inr status, w') \<Rightarrow> \<exists>wm md5 b1 b2. w_hist w' = w_hist w @ checked_upload job p wm md5 b1 @ prune_events job b2 \<and>
        (if wm then has_md5 w p md5
         else \<exists>sz x. status = ''success ('' @ sz @ '')'' @ remark ''manifest warning'' x)
   | (Inl e, w') \<Rightarrow> \<exists>es wm md5 b1 b2. w_hist w' = w_hist w @ es \<and>
        prefix (map fst es) (map fst (checked_upload job p wm md5 b1 @ prune_events job b2)) \<and>
        (is_panic e \<or> list_all (\<lambda>(c, _). \<not> is_prune c) es)"
proof -
  obtain r w' where run: "UploadArchive sv job p w = (r, w')" by force
  have u: "upload_result job p w r w'" using wpD [OF UploadArchive_wp run] .
  show ?thesis
  proof (cases r)
    case (Inl e)
    then show ?thesis using u run unfolding upload_result_def hist_ext_def
      by (auto simp: list_all_iff split: if_splits) (metis fst_conv image_eqI)+
  next
    case (Inr s)
    show ?thesis using u unfolding run Inr prod.case sum.case upload_result_def hist_ext_def by blast
  qed
qed

section \<open>Bookkeeping\<close>

lemma bind_now: "bindA nowA f w = f (clock (w_env w) (w_tick w)) (tickA w)"
  by (simp add: bindA_def nowA_def)

lemma try_value: "m w = (r, w1) \<Longrightarrow> \<not> (\<exists>e. r = Inl e \<and> is_panic e) \<Longrightarrow> tryA m f w = f r w1"
  by (cases r) (auto simp: tryA_def)

definition is_post :: "string \<Rightarrow> call \<times> bool \<Rightarrow> bool" where
  "is_post url ev = (case fst ev of CPost u _ \<Rightarrow> u = url | _ \<Rightarrow> False)"

definition posts_only :: "string \<Rightarrow> (call \<times> bool) list \<Rightarrow> bool" where
  "posts_only url es = (length es \<le> 1 \<and> list_all (is_post url) es \<and> (if url = [] then es = [] else True))"

lemma send_webhook_wp:
  "wp (SendWebhook sv url pl) (\<lambda>r w'. \<exists>es. hist_ext w es w' \<and> posts_only url es) w"
  unfolding SendWebhook_def Let_def
proof (intro wp_if, goal_cases)
  case 3
  then show ?case unfolding wps
    by - (rule call_wp, auto simp: wps posts_only_def is_post_def split: sum.split intro!: exI [of _ "[_]"])
qed (auto simp: wps posts_only_def intro!: exI [of _ "[]"])

lemma RunAndRecord_case:
  "case (fn w, RunAndRecord sv job fn w) of ((r, w1), (r', w')) \<Rightarrow>
     (case r' of
        Inl e \<Rightarrow> is_panic e
      | Inr (job', err) \<Rightarrow> err = (case r of Inl e \<Rightarrow> Some e | Inr _ \<Rightarrow> None)
          \<and> job' = job\<lparr>j_LastBackup := Some (clock (w_env w1) (w_tick w1)),
                     j_LastBackupStatus := (case r of Inl e \<Rightarrow> ''failed: '' @ err_msg e | Inr s \<Rightarrow> s)\<rparr>)
     \<and> (\<exists>es. w_hist w' = w_hist w1 @ es \<and> posts_only (j_WebhookURL job) es)"
proof -
  obtain r w1 where fn: "fn w = (r, w1)" by force
  obtain r' w' where run: "RunAndRecord sv job fn w = (r', w')" by force
  have nil: "posts_only url []" for url by (simp add: posts_only_def)
  have "wp (RunAndRecord sv job fn) (\<lambda>r' w'. (case r' of Inl e \<Rightarrow> is_panic e
      | Inr (job', err) \<Rightarrow> err = (case r of Inl e \<Rightarrow> Some e | Inr _ \<Rightarrow> None)
          \<and> job' = record_outcome job (clock (w_env w1) (w_tick w1)) r)
     \<and> (\<exists>es. w_hist w' = w_hist w1 @ es \<and> posts_only (j_WebhookURL job) es)) w"
  proof (cases "\<exists>e. r = Inl e \<and> is_panic e")
    case True
    then show ?thesis using fn nil by (auto simp: wp_def RunAndRecord_def tryA_def intro!: exI [of _ "[]"])
  next
    case False
    let ?k = "\<lambda>now. let job' = record_outcome job now r;
           payload = \<lparr>wh_Job = j_Name job, wh_Status = (case r of Inl _ \<Rightarrow> ''failure'' | Inr _ \<Rightarrow> ''success''),
                      wh_Message = j_LastBackupStatus job', wh_Timestamp = now, wh_SizeBytes = 0, wh_Elapsed = []\<rparr>
       in bindA (if j_WebhookURL job = [] then returnA ()
                 else ignoreA (SendWebhook sv (j_WebhookURL job) payload)) (\<lambda>_.
            returnA (job', case r of Inl e \<Rightarrow> Some e | Inr _ \<Rightarrow> None))"
    have eq: "RunAndRecord sv job fn w = ?k (clock (w_env w1) (w_tick w1)) (tickA w1)"
      unfolding RunAndRecord_def try_value [of fn, OF fn False] bind_now ..
    have h: "w_hist (tickA w1) = w_hist w1" by (simp add: tickA_def)
    show ?thesis unfolding wp_def eq
      unfolding wp_def [symmetric] Let_def wps
    proof (rule wp_if, goal_cases)
      case 1
      then show ?case using nil h by (auto simp: wps intro!: exI [of _ "[]"])
    next
      case 2
      show ?case unfolding wps
        by (rule wp_mono [OF send_webhook_wp]) (auto simp: hist_ext_def h wps)
    qed
  qed
  from wpD [OF this run] show ?thesis unfolding fn run prod.case record_outcome_def .
qed

lemma RunAndRecord_spec:
  assumes "fn w = (r, w1)" and "RunAndRecord sv job fn w = (Inr (job', err), w')"
  shows "err = (case r of Inl e \<Rightarrow> Some e | Inr _ \<Rightarrow> None)
    \<and> job' = job\<lparr>j_LastBackup := Some (clock (w_env w1) (w_tick w1)),
               j_LastBackupStatus := (case r of Inl e \<Rightarrow> ''failed: '' @ err_msg e | Inr s \<Rightarrow> s)\<rparr>
    \<and> (\<exists>es. w_hist w' = w_hist w1 @ es \<and> posts_only (j_WebhookURL job) es)"
  using RunAndRecord_case [where fn = fn and w = w and sv = sv and job = job] unfolding assms prod.case sum.case by blast

text \<open>C22: The bookkeeping around a backup. \<open>RunAndRecord\<close> returns exactly the error of the backup itself,
  sets the job's last backup time and its status (the success status, or the error's text), changes
  no other field of the job, and makes at most one request, to the job's webhook URL and only if it
  has one; whatever comes of that request does not change the result. Only a panic gets through
  without being recorded.\<close>

theorem RunAndRecord_records:
  "case (fn w, RunAndRecord sv job fn w) of ((r, w1), (r', w')) \<Rightarrow>
     (case r' of
        Inl e \<Rightarrow> is_panic e
      | Inr (job', err) \<Rightarrow> err = (case r of Inl e \<Rightarrow> Some e | Inr _ \<Rightarrow> None)
          \<and> job' = job\<lparr>j_LastBackup := Some (clock (w_env w1) (w_tick w1)),
                     j_LastBackupStatus := (case r of Inl e \<Rightarrow> ''failed: '' @ err_msg e | Inr s \<Rightarrow> s)\<rparr>)
     \<and> (\<exists>es. w_hist w' = w_hist w1 @ es \<and> posts_only (j_WebhookURL job) es)"
  by (rule RunAndRecord_case)

section \<open>Sizes and directories\<close>

lemma div_1000:
  fixes m v :: int
  shows "m \<le> v div 1000 \<longleftrightarrow> m * 1000 \<le> v" and "v div 1000 < m \<longleftrightarrow> v < m * 1000"
proof -
  have "v div 1000 * 1000 + v mod 1000 = v" "0 \<le> v mod 1000" "v mod 1000 < 1000" by simp_all
  then show "m \<le> v div 1000 \<longleftrightarrow> m * 1000 \<le> v" and "v div 1000 < m \<longleftrightarrow> v < m * 1000" by linarith+
qed

lemma unit_loop_spec:
  "unit_loop v dv ex = (dv', ex') \<Longrightarrow> 1 \<le> v
    \<Longrightarrow> \<exists>k. ex' = ex + k \<and> dv' = dv * 1000 ^ k \<and> 1000 ^ k \<le> v \<and> v < 1000 ^ Suc k"
proof (induction v dv ex arbitrary: dv' ex' rule: unit_loop.induct)
  case (1 v dv ex)
  show ?case
  proof (cases "v \<ge> 1000")
    case False
    then show ?thesis using 1 by (intro exI [of _ 0]) (simp add: unit_loop.simps [of v])
  next
    case True
    then have "1 \<le> v div 1000" by (simp add: pos_imp_zdiv_pos_iff)
    then obtain k where k: "ex' = Suc ex + k" "dv' = dv * 1000 * 1000 ^ k"
      "1000 ^ k \<le> v div 1000" "v div 1000 < 1000 ^ Suc k"
      using 1 True by (auto simp: unit_loop.simps [of v])
    have "1000 ^ k * 1000 \<le> v" "v < 1000 ^ Suc k * 1000"
      using k(3,4) unfolding div_1000 .
    then show ?thesis using k(1,2) by (intro exI [of _ "Suc k"]) simp
  qed
qed

text \<open>C38: The unit of a size. \<open>FormatBytes\<close> is defined exactly up to 10 ^ 15 bytes: from there on the index
  into its unit table is out of range and it panics. Below that, the unit chosen is the largest one
  the number reaches.\<close>

theorem FormatBytes_range:
  "(FormatBytes n = None \<longleftrightarrow> 1000000000000000 \<le> n)
    \<and> (n < 1000 \<or> 1000000000000000 \<le> n \<or> (\<exists>k < 4. 1000 ^ Suc k \<le> n \<and> n < 1000 ^ Suc (Suc k)
          \<and> FormatBytes n = Some (show_quotient (float_of_int n) (1000 ^ Suc k) @ '' '' @ size_units ! k)))"
proof (cases "n < 1000")
  case True
  then show ?thesis by (simp add: FormatBytes_def)
next
  case False
  obtain dv ex where u: "unit_loop (n div 1000) 1000 0 = (dv, ex)" by force
  have "1 \<le> n div 1000" using False by (simp add: pos_imp_zdiv_pos_iff)
  from unit_loop_spec [OF u this] have k: "dv = 1000 ^ Suc ex" "1000 ^ ex \<le> n div 1000" "n div 1000 < 1000 ^ Suc ex" by auto
  have n: "1000 ^ Suc ex \<le> n" "n < 1000 ^ Suc (Suc ex)"
    using k(2,3) unfolding div_1000 by simp_all
  show ?thesis
  proof (cases "ex < 4")
    case True
    have "(1000 :: int) ^ Suc (Suc ex) \<le> 1000 ^ 5" using True by (intro power_increasing) simp_all
    then have "n < 1000000000000000" using n(2) by simp
    then show ?thesis using True n False u k(1) by (auto simp: FormatBytes_def size_units_def)
  next
    case False
    have "(1000 :: int) ^ 5 \<le> 1000 ^ Suc ex" using False by (intro power_increasing) simp_all
    then have "1000000000000000 \<le> n" using n(1) by simp
    then show ?thesis using False \<open>\<not> n < 1000\<close> u by (simp add: FormatBytes_def size_units_def)
  qed
qed

text \<open>C40: \<open>UniqueRemoteDirs\<close> lists every remote directory of the jobs once, leaving out empty ones, in the
  order of the first job that uses it.\<close>

theorem UniqueRemoteDirs_spec:
  "UniqueRemoteDirs jobs = rev (remdups (rev (filter (\<lambda>d. d \<noteq> []) (map j_GoogleDrivePath jobs))))"
proof -
  let ?f = "\<lambda>job (seen, dirs). if j_GoogleDrivePath job = [] \<or> j_GoogleDrivePath job \<in> set seen then (seen, dirs)
            else (j_GoogleDrivePath job # seen, dirs @ [j_GoogleDrivePath job])"
  let ?u = "\<lambda>jobs. remdups (rev (filter (\<lambda>d. d \<noteq> []) (map j_GoogleDrivePath jobs)))"
  have "fold ?f jobs ([], []) = (?u jobs, rev (?u jobs))"
    by (induction jobs rule: rev_induct) auto
  then show ?thesis by (simp add: UniqueRemoteDirs_def)
qed

end
