(* ===== verification/Histories.thy ===== *)
theory Histories
  imports Backup_Core
begin

text \<open>
  The order of external calls across composed actions: \<open>emits P\<close>, an action only adds calls that satisfy
  \<open>P\<close> to the history (\<open>grows\<close>, if any call will do), and \<open>uploads\<close>, an action that reports success has run \<open>UploadArchive\<close> to success on the way. Both
  are proved by rules that follow an action's text.
\<close>

section \<open>Growing histories\<close>

text \<open>Every call an action makes satisfies \<open>P\<close>.\<close>

definition emits :: "(call \<Rightarrow> bool) \<Rightarrow> ('a, 'x) act \<Rightarrow> bool" where
  "emits P m = (\<forall>w. \<exists>es. hist_ext w es (snd (m w)) \<and> list_all (\<lambda>e. P (fst e)) es)"

abbreviation grows :: "('a, 'x) act \<Rightarrow> bool" where
  "grows \<equiv> emits (\<lambda>_. True)"

named_theorems growing \<open>rules for emits\<close>

lemma emitsD: "emits P m \<Longrightarrow> m w = (r, w') \<Longrightarrow> \<exists>es. hist_ext w es w' \<and> list_all (\<lambda>e. P (fst e)) es"
  unfolding emits_def by (metis snd_conv)

lemma growsD: "emits P m \<Longrightarrow> m w = (r, w') \<Longrightarrow> \<exists>es. hist_ext w es w'"
  by (blast dest: emitsD)

lemma emitsI: "(\<And>w. wp m (\<lambda>_ w'. \<exists>es. hist_ext w es w' \<and> list_all (\<lambda>e. P (fst e)) es) w) \<Longrightarrow> emits P m"
  by (simp add: emits_def wp_def split_beta)

lemma grows_quiet: "quiet m \<Longrightarrow> emits P m"
  by (rule emitsI, rule quiet_wp) (auto intro!: exI [of _ "[]"])

lemmas grows_local [growing] = quiet_range [THEN grows_quiet] quiet_return [THEN grows_quiet] quiet_fail [THEN grows_quiet] quiet_env [THEN grows_quiet]
  quiet_put [THEN grows_quiet] quiet_now [THEN grows_quiet] quiet_cancelled [THEN grows_quiet]
  quiet_read_line [THEN grows_quiet] quiet_os [THEN grows_quiet] quiet_write_file [THEN grows_quiet]
  quiet_mkdir_temp [THEN grows_quiet] quiet_gzip [THEN grows_quiet] quiet_archive_name [THEN grows_quiet]
  quiet_prepare [THEN grows_quiet] quiet_retain_local [THEN grows_quiet]

lemma grows_call [growing]: "P c \<Longrightarrow> emits P (callA c m)"
  by (auto simp: emits_def callA_def hist_ext_def tickA_def split: prod.split)

lemma grows_client [growing]:
  "P (CRun i m c) \<Longrightarrow> emits P (Run sv i m c)" "P (CExec n c e x) \<Longrightarrow> emits P (Exec sv n c e x)"
  "P (CStop n) \<Longrightarrow> emits P (Stop sv n)" "P (CStart n) \<Longrightarrow> emits P (Start sv n)" "P (CCp a b) \<Longrightarrow> emits P (Cp sv a b)"
  "P (CUpload a b) \<Longrightarrow> emits P (Upload sv a b)" "P (CListFiles a) \<Longrightarrow> emits P (ListFiles sv a)"
  "P (CDownload a b) \<Longrightarrow> emits P (Download sv a b)" "P (CPrune a d k) \<Longrightarrow> emits P (Prune sv a d k)"
  unfolding client_calls by (erule grows_call)+

lemma grows_hashsum [growing]: "(\<And>h. P (CHashsum a h)) \<Longrightarrow> emits P (Hashsum sv a)"
  by (auto simp: emits_def Hashsum_def callA_def hist_ext_def tickA_def split: prod.split)

lemma emits_seq:
  assumes m: "emits P m" and f: "\<And>r. emits P (f r)" and g: "\<And>w. snd (g w) = (case m w of (r, w') \<Rightarrow> if stop r then w' else snd (f r w'))"
  shows "emits P g"
  unfolding emits_def
proof
  fix w
  obtain r w1 where 1: "m w = (r, w1)" by force
  obtain es where es: "hist_ext w es w1" "list_all (\<lambda>e. P (fst e)) es" using emitsD [OF m 1] by blast
  obtain r' w2 where 2: "f r w1 = (r', w2)" by force
  obtain es' where es': "hist_ext w1 es' w2" "list_all (\<lambda>e. P (fst e)) es'" using emitsD [OF f 2] by blast
  have "hist_ext w (es @ es') w2" using hist_ext_trans [OF es(1) es'(1)] .
  then show "\<exists>es. hist_ext w es (snd (g w)) \<and> list_all (\<lambda>e. P (fst e)) es"
    using es es' by (cases "stop r") (force simp: g 1 2 intro: exI [of _ "es @ es'"])+
qed

lemma grows_bind [growing]:
  assumes m: "emits P m" and f: "\<And>v. emits P (f v)"
  shows "emits P (bindA m f)"
  by (rule emits_seq [of P m "\<lambda>r. f (projr r)" _ isl])
    (use m f in \<open>auto simp: bindA_def split: prod.split sum.split\<close>)

lemma snd_wrapA [simp]: "snd (wrapA g m w) = snd (m w)"
  by (simp add: wrapA_def split: prod.split sum.split)

lemma grows_wrap [growing]: "emits P m \<Longrightarrow> emits P (wrapA g m)"
  by (simp add: emits_def)

lemma grows_try [growing]:
  assumes m: "emits P m" and f: "\<And>r. emits P (f r)"
  shows "emits P (tryA m f)"
  by (rule emits_seq [of P m f _ "\<lambda>r. \<exists>e. r = Inl e \<and> is_panic e"])
    (use m f in \<open>auto simp: tryA_def split: prod.split sum.split\<close>)

lemma grows_ignore [growing]: "emits P m \<Longrightarrow> emits P (ignoreA m)"
  unfolding ignoreA_def by (rule grows_try) (simp_all add: grows_quiet [OF quiet_return])

lemma grows_defer [growing]:
  assumes m: "emits P m" and f: "\<And>r. emits P (f r)"
  shows "emits P (deferA f m)"
  by (rule emits_seq [of P m f _ "\<lambda>_. False"])
    (use m f in \<open>auto simp: deferA_def split: prod.split sum.split\<close>)

lemma grows_cleanup [growing]: "emits P f \<Longrightarrow> emits P m \<Longrightarrow> emits P (cleanupA f m)"
  unfolding cleanupA_def by (rule grows_defer) (auto simp: emits_def split_beta)

lemma grows_if [growing]: "(b \<Longrightarrow> emits P m) \<Longrightarrow> (\<not> b \<Longrightarrow> emits P n) \<Longrightarrow> emits P (if b then m else n)"
  by simp

lemma grows_sum [growing]:
  "(\<And>e. emits P (f e)) \<Longrightarrow> (\<And>v. emits P (g v)) \<Longrightarrow> emits P (case r of Inl e \<Rightarrow> f e | Inr v \<Rightarrow> g v)"
  by (cases r) simp_all

lemma grows_option [growing]:
  "emits P m \<Longrightarrow> (\<And>v. emits P (g v)) \<Longrightarrow> emits P (case x of None \<Rightarrow> m | Some v \<Rightarrow> g v)"
  by (cases x) simp_all

lemma grows_prod [growing]: "(\<And>a b. emits P (f a b)) \<Longrightarrow> emits P (case x of (a, b) \<Rightarrow> f a b)"
  by (cases x) simp

lemma grows_for [growing]: "(\<And>x s. emits P (f x s)) \<Longrightarrow> emits P (forA xs f s)"
  by (induction xs arbitrary: s) (simp_all add: grows_bind grows_quiet [OF quiet_return])

declare TrueI [growing]

lemma grows_upload [growing]: "grows (UploadArchive sv job p)"
  unfolding UploadArchive_def finish_upload_def upload_manifest_def verifyRemoteHash_def PruneWithWarning_def
  by (intro growing)

section \<open>Success by way of an upload\<close>

definition uploads :: "'x services \<Rightarrow> Job \<Rightarrow> (string, 'x) act \<Rightarrow> bool" where
  "uploads sv job m = (\<forall>w status w'. m w = (Inr status, w') \<longrightarrow>
     (\<exists>p w1 st w2 es1 es2 x. hist_ext w es1 w1 \<and> UploadArchive sv job p w1 = (Inr st, w2) \<and> hist_ext w2 es2 w'
        \<and> status = st @ x))"

named_theorems uploading \<open>rules for uploads\<close>

lemma uploads_fail [uploading]: "uploads sv job (failA e)"
  by (simp add: uploads_def failA_def)

lemma uploads_upload [uploading]: "uploads sv job (UploadArchive sv job p)"
  unfolding uploads_def by (metis append_Nil2 hist_ext_refl)

lemma uploads_if [uploading]: "(b \<Longrightarrow> uploads sv job m) \<Longrightarrow> (\<not> b \<Longrightarrow> uploads sv job n) \<Longrightarrow> uploads sv job (if b then m else n)"
  by simp

lemma uploads_bind [uploading]:
  assumes m: "grows m" and f: "\<And>v. uploads sv job (f v)"
  shows "uploads sv job (bindA m f)"
  unfolding uploads_def
proof (intro allI impI)
  fix w status w' assume r: "bindA m f w = (Inr status, w')"
  then obtain v w0 where v: "m w = (Inr v, w0)" and fv: "f v w0 = (Inr status, w')"
    by (auto simp: bindA_def split: prod.splits sum.splits)
  obtain es0 where es0: "hist_ext w es0 w0" using growsD [OF m v] by blast
  obtain p w1 st w2 es1 es2 x where u: "hist_ext w0 es1 w1" "UploadArchive sv job p w1 = (Inr st, w2)"
    "hist_ext w2 es2 w'" "status = st @ x" using f fv unfolding uploads_def by blast
  have "hist_ext w (es0 @ es1) w1" using hist_ext_trans [OF es0 u(1)] .
  then show "\<exists>p w1 st w2 es1 es2 x. hist_ext w es1 w1 \<and> UploadArchive sv job p w1 = (Inr st, w2)
      \<and> hist_ext w2 es2 w' \<and> status = st @ x" using u(2-4) by blast
qed

lemma uploads_defer:
  assumes m: "uploads sv job m" and f: "\<And>r. grows (f r)"
    and keep: "\<And>e w v w'. f (Inl e) w \<noteq> (Inr v, w')" and app: "\<And>s. appends s (f (Inr s))"
  shows "uploads sv job (deferA f m)"
  unfolding uploads_def
proof (intro allI impI)
  fix w status w' assume r: "deferA f m w = (Inr status, w')"
  then obtain s w0 where s: "m w = (Inr s, w0)" and fs: "f (Inr s) w0 = (Inr status, w')"
    using keep by (auto simp: deferA_def split: prod.splits sum.splits if_splits)
  obtain es where es: "hist_ext w0 es w'" using growsD [OF f fs] by blast
  obtain y where y: "status = s @ y" using app fs unfolding appends_def by blast
  obtain p w1 st w2 es1 es2 x where u: "hist_ext w es1 w1" "UploadArchive sv job p w1 = (Inr st, w2)"
    "hist_ext w2 es2 w0" "s = st @ x" using m s unfolding uploads_def by blast
  have "hist_ext w2 (es2 @ es) w'" using hist_ext_trans [OF u(3) es] .
  moreover have "status = st @ (x @ y)" using y u(4) by simp
  ultimately show "\<exists>p w1 st w2 es1 es2 x. hist_ext w es1 w1 \<and> UploadArchive sv job p w1 = (Inr st, w2)
      \<and> hist_ext w2 es2 w' \<and> status = st @ x" using u(1,2) by blast
qed

lemma uploads_cleanup [uploading]: "grows f \<Longrightarrow> uploads sv job m \<Longrightarrow> uploads sv job (cleanupA f m)"
  unfolding cleanupA_def
  by (rule uploads_defer)
    (auto simp: emits_def appends_def split_beta)

lemma remark_append: "remark what x @ y = remark what (x @ y)"
  by (simp add: remark_def)

text \<open>What such a success means for the calls made. The upload starts in \<open>w1\<close>, with the archive in the file \<open>p\<close>.\<close>

definition checked_run :: "'x services \<Rightarrow> Job \<Rightarrow> 'x world \<Rightarrow> string \<Rightarrow> 'x world \<Rightarrow> bool" where
  "checked_run sv job w status w' = (\<exists>pre p wm md5 b1 b2 post w1 w2 st. hist_ext w pre w1 \<and> UploadArchive sv job p w1 = (Inr st, w2)
    \<and> w_hist w' = w_hist w @ pre @ checked_upload job p wm md5 b1 @ prune_events job b2 @ post
    \<and> (if wm then has_md5 w1 p md5
        else \<exists>sz x. status = ''success ('' @ sz @ '')'' @ remark ''manifest warning'' x))"

lemma checked_run_later:
  assumes "checked_run sv job w status w0" and "w_hist w' = w_hist w0 @ es"
  shows "checked_run sv job w status w'"
proof -
  obtain pre p wm md5 b1 b2 post w1 w2 st where c: "hist_ext w pre w1 \<and> UploadArchive sv job p w1 = (Inr st, w2)"
    "w_hist w0 = w_hist w @ pre @ checked_upload job p wm md5 b1 @ prune_events job b2 @ post"
    "if wm then has_md5 w1 p md5
        else \<exists>sz x. status = ''success ('' @ sz @ '')'' @ remark ''manifest warning'' x"
    using assms(1) unfolding checked_run_def by blast
  have "w_hist w' = w_hist w @ pre @ checked_upload job p wm md5 b1 @ prune_events job b2 @ (post @ es)"
    using c(2) assms(2) by simp
  then show ?thesis using c(1,3) unfolding checked_run_def by blast
qed

lemma uploads_checked:
  assumes "uploads sv job m" and "m w = (Inr status, w')"
  shows "checked_run sv job w status w'"
proof -
  obtain p w1 st w2 es1 es2 x where u: "hist_ext w es1 w1" "UploadArchive sv job p w1 = (Inr st, w2)"
    "hist_ext w2 es2 w'" "status = st @ x" using assms unfolding uploads_def by blast
  have "upload_result job p w1 (Inr st) w2" by (rule wpD [OF UploadArchive_wp u(2)])
  then obtain wm md5 b1 b2 where c: "hist_ext w1 (checked_upload job p wm md5 b1 @ prune_events job b2) w2"
    and k: "if wm then has_md5 w1 p md5 else \<exists>sz y. st = ''success ('' @ sz @ '')'' @ remark ''manifest warning'' y"
    unfolding upload_result_def sum.case by blast
  have "w_hist w' = w_hist w @ es1 @ checked_upload job p wm md5 b1 @ prune_events job b2 @ es2"
    using u c by (simp add: hist_ext_def)
  moreover have "if wm then has_md5 w1 p md5
      else \<exists>sz y. status = ''success ('' @ sz @ '')'' @ remark ''manifest warning'' y"
  proof (cases wm)
    case False
    then obtain sz y where "st = ''success ('' @ sz @ '')'' @ remark ''manifest warning'' y" using k by auto
    then have "status = ''success ('' @ sz @ '')'' @ remark ''manifest warning'' (y @ x)"
      by (simp only: u(4) append_assoc remark_append)
    then show ?thesis using False by (simp only: if_False) blast
  qed (use k in simp)
  ultimately show ?thesis using u(1,2) unfolding checked_run_def by blast
qed

end
