(* ===== verification/Executors.thy ===== *)
theory Executors
  imports Histories Naming
begin

text \<open>
  internal/backup/{standard,hostdir,n8n,postgres,mysql,mongodb,redis,rabbitmq}: the eight backup
  strategies, each the body that \<open>RunAndRecord\<close> wraps. What they share is the locale
  \<open>backup_executor\<close>: a body that reports success has carried out a checked upload.
\<close>

section \<open>Volumes and directories\<close>

definition AlpineImage :: string where
  "AlpineImage = ''alpine:latest''"

definition temp_dirA :: "string \<Rightarrow> (string \<Rightarrow> ('a, 'x) act) \<Rightarrow> ('a, 'x) act" where
  "temp_dirA pre body =
     bindA (wrapA (wrapf ''creating temp dir'') (MkdirTemp pre)) (\<lambda>tmpDir. cleanupA (RemoveAll tmpDir) (body tmpDir))"

definition job_prefix :: "Job \<Rightarrow> string" where
  "job_prefix job = ''dockvault-'' @ j_Name job @ ''-''"

text \<open>The block standard, n8n and hostdir share: tar a source in a throwaway container, upload the archive.\<close>

definition tar_and_upload :: "'x services \<Rightarrow> Job \<Rightarrow> string \<Rightarrow> string \<Rightarrow> (string, 'x) act" where
  "tar_and_upload sv job source what =
     temp_dirA (job_prefix job) (\<lambda>tmpDir.
     bindA (ArchiveFileName (j_Name job) (VolumeIdentifierOrFallback job) ''tar.gz'') (\<lambda>fileName.
     bindA (wrapA (wrapf what) (Run sv AlpineImage
              [\<lparr>ms_Source = source, ms_Target = ''/source'', ms_ReadOnly = True\<rparr>,
               \<lparr>ms_Source = tmpDir, ms_Target = ''/backup'', ms_ReadOnly = False\<rparr>]
              [''tar'', ''czf'', ''/backup/'' @ fileName, ''-C'', ''/source'', ''.''])) (\<lambda>_.
       UploadArchive sv job (path_join [tmpDir, fileName]))))"

definition standard_backup :: "'x services \<Rightarrow> Job \<Rightarrow> (string, 'x) act" where
  "standard_backup sv job =
     (if j_VolumeID job = [] then failA (errorf (''standard.Backup: job '' @ j_Name job @ '' has no volume ID''))
      else tar_and_upload sv job (j_VolumeID job) (''taring volume '' @ j_VolumeID job))"

definition hostdir_backup :: "'x services \<Rightarrow> Job \<Rightarrow> (string, 'x) act" where
  "hostdir_backup sv job =
     (if j_HostPath job = [] then failA (errorf (''hostdir.Backup: job '' @ j_Name job @ '' has no host path''))
      else tar_and_upload sv job (j_HostPath job) (''taring '' @ j_HostPath job))"

text \<open>The deferred restart of n8n, with the named results of the function it defers in.\<close>

definition restart_note :: "string \<Rightarrow> error \<Rightarrow> string" where
  "restart_note container e = ''restarting container '' @ container @ '' failed: '' @ err_msg e"

definition n8n_restart :: "'x services \<Rightarrow> Job \<Rightarrow> string res \<Rightarrow> (string, 'x) act" where
  "n8n_restart sv job r =
     tryA (Start sv (j_ContainerName job)) (\<lambda>s. case s of
       Inr _ \<Rightarrow> (case r of Inl err \<Rightarrow> failA err | Inr status \<Rightarrow> returnA status)
     | Inl startErr \<Rightarrow> (case r of
         Inl err \<Rightarrow> failA (Error (err_kind err)
           (err_msg err @ '' (additionally, '' @ restart_note (j_ContainerName job) startErr @ '')''))
       | Inr status \<Rightarrow> returnA (status @ '', warning: '' @ restart_note (j_ContainerName job) startErr)))"

definition n8n_backup :: "'x services \<Rightarrow> Job \<Rightarrow> (string, 'x) act" where
  "n8n_backup sv job =
     (if j_ContainerName job = [] then failA (errorf (''n8n.Backup: job '' @ j_Name job @ '' has no target container''))
      else if j_VolumeID job = [] then failA (errorf (''n8n.Backup: job '' @ j_Name job @ '' has no volume ID''))
      else bindA (wrapA (wrapf (''stopping container '' @ j_ContainerName job)) (Stop sv (j_ContainerName job))) (\<lambda>_.
           deferA (n8n_restart sv job)
             (tar_and_upload sv job (j_VolumeID job) (''taring volume '' @ j_VolumeID job))))"

section \<open>Databases\<close>

text \<open>A dump held in memory is compressed into the archive and uploaded.\<close>

definition gzip_and_upload :: "'x services \<Rightarrow> Job \<Rightarrow> string \<Rightarrow> string \<Rightarrow> (string, 'x) act" where
  "gzip_and_upload sv job ext dump =
     temp_dirA (job_prefix job) (\<lambda>tmpDir.
     bindA (ArchiveFileName (j_Name job) (VolumeIdentifierOrFallback job) ext) (\<lambda>fileName.
     bindA (wrapA (wrapf ''compressing dump'') (GzipToFile dump (path_join [tmpDir, fileName]))) (\<lambda>_.
       UploadArchive sv job (path_join [tmpDir, fileName]))))"

definition env_if :: "string \<Rightarrow> string \<Rightarrow> smap" where
  "env_if k v = (if v = [] then [] else [(k, v)])"

definition pg_dump_cmd :: "Job \<Rightarrow> string list" where
  "pg_dump_cmd job = [''pg_dump'', ''--clean'', ''--if-exists'', ''-U'', mget (j_Credentials job) ''POSTGRES_USER'',
     mget (j_Credentials job) ''POSTGRES_DB'']"

definition postgres_backup :: "'x services \<Rightarrow> Job \<Rightarrow> (string, 'x) act" where
  "postgres_backup sv job =
     (if j_ContainerName job = [] then failA (errorf (''postgres.Backup: job '' @ j_Name job @ '' has no target container''))
      else if mget (j_Credentials job) ''POSTGRES_USER'' = [] \<or> mget (j_Credentials job) ''POSTGRES_DB'' = []
      then failA (errorf (''postgres.Backup: job '' @ j_Name job @ '' is missing POSTGRES_USER/POSTGRES_DB credentials''))
      else bindA (wrapA (wrapf ''pg_dump'') (Exec sv (j_ContainerName job) (pg_dump_cmd job)
                    (env_if ''PGPASSWORD'' (mget (j_Credentials job) ''POSTGRES_PASSWORD'')) None)) (\<lambda>dump.
           gzip_and_upload sv job ''sql.gz'' dump))"

definition mysqldump_cmd :: "Job \<Rightarrow> string list" where
  "mysqldump_cmd job = [''mysqldump'', ''--single-transaction'', ''-u'', ''root'', mget (j_Credentials job) ''MYSQL_DATABASE'']"

definition mysql_backup :: "'x services \<Rightarrow> Job \<Rightarrow> (string, 'x) act" where
  "mysql_backup sv job =
     (if j_ContainerName job = [] then failA (errorf (''mysql.Backup: job '' @ j_Name job @ '' has no target container''))
      else if mget (j_Credentials job) ''MYSQL_DATABASE'' = [] \<or> mget (j_Credentials job) ''MYSQL_ROOT_PASSWORD'' = []
      then failA (errorf (''mysql.Backup: job '' @ j_Name job @ '' is missing MYSQL_DATABASE/MYSQL_ROOT_PASSWORD credentials''))
      else bindA (wrapA (wrapf ''mysqldump'') (Exec sv (j_ContainerName job) (mysqldump_cmd job)
                    [(''MYSQL_PWD'', mget (j_Credentials job) ''MYSQL_ROOT_PASSWORD'')] None)) (\<lambda>dump.
           gzip_and_upload sv job ''sql.gz'' dump))"

text \<open>The login arguments mongodump and mongorestore share.\<close>

definition mongo_auth :: "Job \<Rightarrow> string list" where
  "mongo_auth job =
     (let user = mget (j_Credentials job) ''MONGO_INITDB_ROOT_USERNAME'';
          pw = mget (j_Credentials job) ''MONGO_INITDB_ROOT_PASSWORD''
      in if user = [] then []
         else [''--username'', user]
           @ (if pw = [] then [] else [''--password'', pw, ''--authenticationDatabase'', ''admin'']))"

definition mongodb_backup :: "'x services \<Rightarrow> Job \<Rightarrow> (string, 'x) act" where
  "mongodb_backup sv job =
     (if j_ContainerName job = [] then failA (errorf (''mongodb.Backup: job '' @ j_Name job @ '' has no target container''))
      else bindA (wrapA (wrapf ''mongodump'') (Exec sv (j_ContainerName job)
                    ([''mongodump'', ''--archive'', ''--gzip''] @ mongo_auth job) [] None)) (\<lambda>archive.
           temp_dirA (job_prefix job) (\<lambda>tmpDir.
           bindA (ArchiveFileName (j_Name job) (VolumeIdentifierOrFallback job) ''archive.gz'') (\<lambda>fileName.
           bindA (wrapA (wrapf ''writing dump output'') (WriteFile (path_join [tmpDir, fileName]) archive 384)) (\<lambda>_.
             UploadArchive sv job (path_join [tmpDir, fileName]))))))"

section \<open>Redis\<close>

definition maxPollAttempts :: nat where
  "maxPollAttempts = 60"

definition lastSave :: "'x services \<Rightarrow> string \<Rightarrow> smap \<Rightarrow> (string, 'x) act" where
  "lastSave sv container env =
     bindA (Exec sv container [''redis-cli'', ''LASTSAVE''] env None) (\<lambda>out. returnA (trim_space out))"

text \<open>\<open>waitForSave\<close> with the number of attempts left; the sleep is a step of the clock.\<close>

fun wait_for_save :: "nat \<Rightarrow> 'x services \<Rightarrow> string \<Rightarrow> smap \<Rightarrow> string \<Rightarrow> (unit, 'x) act" where
  "wait_for_save 0 sv container env before =
     failA (errorf (''timed out waiting for BGSAVE to complete on container '' @ container))"
| "wait_for_save (Suc n) sv container env before =
     bindA cancelledA (\<lambda>c.
       if c then failA (errorf ''context canceled'')
       else tryA (lastSave sv container env) (\<lambda>r. case r of
              Inr after \<Rightarrow> if after \<noteq> before then returnA () else wait_for_save n sv container env before
            | Inl _ \<Rightarrow> wait_for_save n sv container env before))"

definition waitForSave :: "'x services \<Rightarrow> string \<Rightarrow> smap \<Rightarrow> string \<Rightarrow> (unit, 'x) act" where
  "waitForSave = wait_for_save maxPollAttempts"

definition redis_backup :: "'x services \<Rightarrow> Job \<Rightarrow> (string, 'x) act" where
  "redis_backup sv job =
     (if j_ContainerName job = [] then failA (errorf (''redis.Backup: job '' @ j_Name job @ '' has no target container''))
      else
        let container = j_ContainerName job; env = env_if ''REDISCLI_AUTH'' (mget (j_Credentials job) ''REDIS_PASSWORD'')
        in bindA (wrapA (wrapf ''checking LASTSAVE'') (lastSave sv container env)) (\<lambda>before.
           bindA (wrapA (wrapf ''BGSAVE'') (Exec sv container [''redis-cli'', ''BGSAVE''] env None)) (\<lambda>_.
           bindA (waitForSave sv container env before) (\<lambda>_.
           temp_dirA (job_prefix job) (\<lambda>tmpDir.
           bindA (ArchiveFileName (j_Name job) (VolumeIdentifierOrFallback job) ''rdb'') (\<lambda>fileName.
           bindA (wrapA (wrapf ''copying dump.rdb out of container'')
                    (Cp sv (container @ '':/data/dump.rdb'') (path_join [tmpDir, fileName]))) (\<lambda>_.
             UploadArchive sv job (path_join [tmpDir, fileName]))))))))"

section \<open>RabbitMQ\<close>

definition definitionsPathInContainer :: string where
  "definitionsPathInContainer = ''/tmp/dockvault-definitions.json''"

definition rabbitmq_backup :: "'x services \<Rightarrow> Job \<Rightarrow> (string, 'x) act" where
  "rabbitmq_backup sv job =
     (if j_ContainerName job = [] then failA (errorf (''rabbitmq.Backup: job '' @ j_Name job @ '' has no target container''))
      else
        cleanupA (ignoreA (Exec sv (j_ContainerName job) [''rm'', ''-f'', definitionsPathInContainer] [] None))
          (bindA (wrapA (wrapf ''rabbitmqctl export_definitions'') (Exec sv (j_ContainerName job)
                    [''rabbitmqctl'', ''export_definitions'', definitionsPathInContainer] [] None)) (\<lambda>_.
           temp_dirA (job_prefix job) (\<lambda>tmpDir.
           bindA (wrapA (wrapf ''copying definitions out of container'')
                    (Cp sv (j_ContainerName job @ '':'' @ definitionsPathInContainer) (path_join [tmpDir, ''definitions.json'']))) (\<lambda>_.
           bindA (wrapA (wrapf ''reading copied definitions'') (ReadFile (path_join [tmpDir, ''definitions.json'']))) (\<lambda>raw.
           bindA (ArchiveFileName (j_Name job) (VolumeIdentifierOrFallback job) ''json.gz'') (\<lambda>fileName.
           bindA (wrapA (wrapf ''compressing definitions'') (GzipToFile raw (path_join [tmpDir, fileName]))) (\<lambda>_.
             UploadArchive sv job (path_join [tmpDir, fileName])))))))))"

section \<open>Registry\<close>

type_synonym 'x backup_body = "'x services \<Rightarrow> Job \<Rightarrow> (string, 'x) act"

text \<open>\<open>NewRegistry\<close> over a list of named executors: a later one of the same name replaces an earlier one.\<close>

definition NewRegistry :: "(string \<times> 'a) list \<Rightarrow> (string \<times> 'a) list" where
  "NewRegistry es = fold (\<lambda>(nm, e) r. mput nm e r) es []"

definition executors :: "(string \<times> 'x backup_body) list" where
  "executors = [(''standard'', standard_backup), (''postgres'', postgres_backup), (''mysql'', mysql_backup),
     (''mongodb'', mongodb_backup), (''redis'', redis_backup), (''n8n'', n8n_backup), (''hostdir'', hostdir_backup),
     (''rabbitmq'', rabbitmq_backup)]"

definition Backup :: "'x backup_body \<Rightarrow> 'x services \<Rightarrow> Job \<Rightarrow> (Job \<times> error option, 'x) act" where
  "Backup body sv job = RunAndRecord sv job (body sv job)"

section \<open>What every executor keeps\<close>

lemma grows_temp_dir [growing]: "(\<And>d. grows (body d)) \<Longrightarrow> grows (temp_dirA pre body)"
  unfolding temp_dirA_def by (intro growing)

lemma grows_wait [growing]: "grows (wait_for_save n sv c e b)"
  by (induction n) (auto intro!: growing simp: lastSave_def)

lemma grows_last_save [growing]: "grows (lastSave sv c e)"
  unfolding lastSave_def by (intro growing)

lemma grows_n8n_restart [growing]: "grows (n8n_restart sv job r)"
  unfolding n8n_restart_def by (intro growing)

lemma grows_ignore_exec [growing]: "grows (ignoreA (Exec sv c cmd e x))"
  by (intro growing)

lemma uploads_temp_dir [uploading]: "(\<And>d. uploads sv job (body d)) \<Longrightarrow> uploads sv job (temp_dirA pre body)"
  unfolding temp_dirA_def by (intro uploading growing)

lemma uploads_tar [uploading]: "uploads sv job (tar_and_upload sv job source what)"
  unfolding tar_and_upload_def by (intro uploading growing)

lemma uploads_gzip [uploading]: "uploads sv job (gzip_and_upload sv job ext dump)"
  unfolding gzip_and_upload_def by (intro uploading growing)

lemma uploads_n8n_restart: "uploads sv job m \<Longrightarrow> uploads sv job (deferA (n8n_restart sv job) m)"
proof (rule uploads_defer)
  show "n8n_restart sv job (Inl e) w \<noteq> (Inr v, w')" for e w v w'
    by (auto simp: n8n_restart_def tryA_def failA_def split: prod.splits sum.splits if_splits)
  show "appends s (n8n_restart sv job (Inr s))" for s
    unfolding n8n_restart_def sum.case by (intro appending)
qed (auto intro: growing)

text \<open>The contract of a backup strategy.\<close>

locale backup_executor =
  fixes body :: "'x services \<Rightarrow> Job \<Rightarrow> (string, 'x) act"
  assumes reports_upload: "uploads sv job (body sv job)"
    and needs_source: "j_ContainerName job = [] \<Longrightarrow> j_VolumeID job = [] \<Longrightarrow> j_HostPath job = []
      \<Longrightarrow> \<exists>e. body sv job w = (Inl e, w)"
begin

text \<open>A recorded success is a checked upload.\<close>

lemma recorded_success:
  assumes "Backup body sv job w = (Inr (job', None), w')"
  shows "checked_run sv job w (j_LastBackupStatus job') w'"
proof -
  obtain r w0 where fn: "body sv job w = (r, w0)" by force
  have run: "RunAndRecord sv job (body sv job) w = (Inr (job', None), w')" using assms by (simp add: Backup_def)
  from RunAndRecord_spec [OF fn run] obtain status es
    where r: "r = Inr status" and st: "j_LastBackupStatus job' = status" and es: "w_hist w' = w_hist w0 @ es"
    by (auto split: sum.splits)
  from checked_run_later [OF uploads_checked [OF reports_upload fn [unfolded r]] es] show ?thesis unfolding st .
qed

lemma success_case:
  "case Backup body sv job w of
     (Inr (job', None), w') \<Rightarrow> checked_run sv job w (j_LastBackupStatus job') w'
   | _ \<Rightarrow> True"
  using recorded_success [of sv job w] by (auto split: prod.split sum.split option.split)

lemma no_source_no_call:
  assumes "j_ContainerName job = []" "j_VolumeID job = []" "j_HostPath job = []"
  shows "\<exists>e. body sv job w = (Inl e, w)"
  using needs_source assms by blast

end

interpretation standard: backup_executor standard_backup
  by unfold_locales (auto simp: standard_backup_def failA_def intro!: uploading)

interpretation hostdir: backup_executor hostdir_backup
  by unfold_locales (auto simp: hostdir_backup_def failA_def intro!: uploading)

interpretation n8n: backup_executor n8n_backup
  by unfold_locales (auto simp: n8n_backup_def failA_def intro!: uploading uploads_n8n_restart growing)

interpretation postgres: backup_executor postgres_backup
  by unfold_locales (auto simp: postgres_backup_def failA_def intro!: uploading growing)

interpretation mysql: backup_executor mysql_backup
  by unfold_locales (auto simp: mysql_backup_def failA_def intro!: uploading growing)

interpretation mongodb: backup_executor mongodb_backup
  by unfold_locales (auto simp: mongodb_backup_def failA_def intro!: uploading growing)

interpretation redis: backup_executor redis_backup
  by unfold_locales (auto simp: redis_backup_def waitForSave_def Let_def failA_def intro!: uploading growing)

interpretation rabbitmq: backup_executor rabbitmq_backup
  by unfold_locales (auto simp: rabbitmq_backup_def failA_def intro!: uploading growing)

lemmas successes = standard.success_case hostdir.success_case n8n.success_case postgres.success_case
  mysql.success_case mongodb.success_case redis.success_case rabbitmq.success_case

text \<open>C15: No backup strategy reports success without a checked upload. For every registered executor and
  every behaviour of docker, rclone and the machine: if the recorded backup returns no error, the
  calls made contain, one after the other, the upload of an archive, the upload of its manifest and a
  hash query that answered with the MD5 of the archive's bytes; or the job's recorded status says
  that no manifest could be made.\<close>

theorem Backup_success_is_checked:
  "list_all (\<lambda>(nm, body). case Backup body sv job w of
       (Inr (job', None), w') \<Rightarrow> checked_run sv job w (j_LastBackupStatus job') w'
     | _ \<Rightarrow> True) executors"
  unfolding executors_def list.pred_inject prod.case
  by (intro conjI successes list.pred_inject(1))

section \<open>The restart guarantee of n8n\<close>

lemma grows_tar [growing]: "grows (tar_and_upload sv job source what)"
  unfolding tar_and_upload_def by (intro growing)

lemma stop_wp:
  assumes "\<And>r w'. hist_ext w [(CStop c, is_ok r)] w' \<Longrightarrow> Q r w'"
  shows "wp (Stop sv c) Q w"
  unfolding Stop_def by (rule call_wp) (rule assms)

lemma grows_wp: "grows m \<Longrightarrow> (\<And>r w' es. hist_ext w es w' \<Longrightarrow> Q r w') \<Longrightarrow> wp m Q w"
  by (auto intro!: wpI dest: growsD)

definition mentions :: "string res \<Rightarrow> string \<Rightarrow> bool" where
  "mentions r what = (case r of
     Inl e \<Rightarrow> (\<exists>x. err_msg e = x @ '' (additionally, '' @ what @ '')'')
   | Inr s \<Rightarrow> (\<exists>x. s = x @ '', warning: '' @ what))"

lemma mentions_simps: "mentions (Inl (Error k (m @ '' (additionally, '' @ what @ '')''))) what"
  "mentions (Inr (m @ '', warning: '' @ what)) what"
  by (simp_all add: mentions_def)

definition reported :: "string res \<Rightarrow> string \<Rightarrow> bool \<Rightarrow> bool" where
  "reported r c b = ((\<exists>e. r = Inl e \<and> is_panic e) \<or> b \<or> (\<exists>e. mentions r (restart_note c e)))"

lemma n8n_restart_wp:
  assumes h: "hist_ext w0 es w"
    and Q: "\<And>r' w' b. hist_ext w0 (es @ [(CStart (j_ContainerName job), b)]) w' \<Longrightarrow> reported r' (j_ContainerName job) b
      \<Longrightarrow> Q r' w'"
  shows "wp (n8n_restart sv job r) Q w"
  unfolding n8n_restart_def Start_def wp_try
proof (rule call_step [OF h], goal_cases)
  case (1 s w')
  note h' = 1
  show ?case
  proof (cases s)
    case (Inl e)
    then have f: "hist_ext w0 (es @ [(CStart (j_ContainerName job), False)]) w'" using h' by simp
    have m: "reported (Inl (Error k (m @ '' (additionally, '' @ restart_note (j_ContainerName job) e @ '')''))) (j_ContainerName job) False"
      "reported (Inr (m @ '', warning: '' @ restart_note (j_ContainerName job) e)) (j_ContainerName job) False" for k m
      unfolding reported_def using mentions_simps by blast+
    show ?thesis
    proof (cases "is_panic e")
      case True
      then show ?thesis using Q [OF f, of "Inl e"] Inl by (simp add: reported_def)
    next
      case False
      then show ?thesis unfolding Inl
        by (cases r) (simp_all only: sum.case wps m Q [OF f] if_False sum.inject simp_thms ex_simps)
    qed
  next
    case (Inr u)
    then have f: "hist_ext w0 (es @ [(CStart (j_ContainerName job), True)]) w'" using h' by simp
    have "Q r'' w'" for r'' by (rule Q [OF f]) (simp add: reported_def)
    then show ?thesis unfolding Inr by (cases r) (simp_all add: wps)
  qed
qed

definition n8n_trace :: "string \<Rightarrow> string res \<Rightarrow> (call \<times> bool) list \<Rightarrow> bool" where
  "n8n_trace c r es = (es = [] \<or> es = [(CStop c, False)]
     \<or> (\<exists>mid b. es = (CStop c, True) # mid @ [(CStart c, b)] \<and> reported r c b))"

text \<open>C14: A stopped n8n container is always started again. In every run of the n8n backup, whatever docker,
  rclone and the machine do: either the container was never stopped (no call was made, or the stop
  failed, which ends the run), or the last of the calls made is its start. If that start fails, the
  error or the status returned says so, unless the run ended in a panic.\<close>

theorem n8n_restarts:
  "case n8n_backup sv job w of (r, w') \<Rightarrow> \<exists>es. w_hist w' = w_hist w @ es \<and> n8n_trace (j_ContainerName job) r es"
proof -
  let ?c = "j_ContainerName job"
  let ?Q = "\<lambda>r w'. \<exists>es. hist_ext w es w' \<and> n8n_trace ?c r es"
  have "wp (n8n_backup sv job) ?Q w"
    unfolding n8n_backup_def
  proof (intro wp_if, goal_cases)
    case 3
    show ?case unfolding wp_bind wp_wrap
    proof (rule stop_wp, goal_cases)
      case (1 r w1)
      show ?case
      proof (cases r)
        case (Inl e)
        then show ?thesis using 1 by (auto simp: n8n_trace_def)
      next
        case (Inr u)
        have h1: "hist_ext w [(CStop ?c, True)] w1" using 1 Inr by simp
        show ?thesis unfolding Inr sum.case wp_defer
        proof (rule grows_wp [OF grows_tar], goal_cases)
          case (1 s w2 es)
          have h2: "hist_ext w ([(CStop ?c, True)] @ es) w2" using hist_ext_trans [OF h1 1] .
          show ?case
          proof (rule n8n_restart_wp [OF h2], goal_cases)
            case (1 r' w3 b)
            have t: "n8n_trace ?c r'' (([(CStop ?c, True)] @ es) @ [(CStart ?c, b)])" if "reported r'' ?c b" for r''
              unfolding n8n_trace_def using that by auto
            show ?case
            proof (cases "\<exists>e. s = Inl e \<and> is_panic e")
              case True
              then have "reported (Inl (projl s)) ?c b" by (auto simp: reported_def)
              then show ?thesis unfolding if_P [OF True] using t 1(1) by blast
            next
              case False
              show ?thesis unfolding if_not_P [OF False] using t [OF 1(2)] 1(1) by blast
            qed
          qed
        qed
      qed
    qed
  qed (auto simp: wps n8n_trace_def intro!: exI [of _ "[]"])
  then show ?thesis unfolding wp_def hist_ext_def by (auto split: prod.splits)
qed

section \<open>What is uploaded\<close>

lemma GzipToFile_eq: "GzipToFile d p w = WriteFile p (gzip (w_env w) d) 384 w"
proof -
  obtain r w1 where o: "OpenTrunc p 384 w = (r, w1)" by force
  have "w_env w1 = w_env w" using quietD [OF quiet_os(4) o] by (simp add: hist_ext_def)
  then show ?thesis using o by (cases r) (simp_all add: GzipToFile_def WriteFile_def bindA_def get_env_def)
qed

text \<open>The bytes of the archive made from a dump.\<close>

definition packed :: "bool \<Rightarrow> os_env \<Rightarrow> string \<Rightarrow> string" where
  "packed z env dump = (if z then gzip env dump else dump)"

lemma save_and_upload_content:
  assumes "temp_dirA (job_prefix job) (\<lambda>d. bindA (ArchiveFileName (j_Name job) (VolumeIdentifierOrFallback job) ext) (\<lambda>f.
      bindA (wrapA g (save (path_join [d, f]))) (\<lambda>_. UploadArchive sv job (path_join [d, f])))) w = (Inr status, w')"
    and save: "\<And>p v. save p v = WriteFile p (packed z (w_env v) dump) 384 v"
  shows "\<exists>p w1 w2. hist_ext w [] w1 \<and> fs_read p (w_fs w1) = Inr (packed z (w_env w) dump)
    \<and> UploadArchive sv job p w1 = (Inr status, w2) \<and> hist_ext w2 [] w'"
proof -
  from assms(1) obtain d wa where mk: "MkdirTemp (job_prefix job) w = (Inr d, wa)"
    and body: "cleanupA (RemoveAll d) (bindA (ArchiveFileName (j_Name job) (VolumeIdentifierOrFallback job) ext) (\<lambda>f.
       bindA (wrapA g (save (path_join [d, f]))) (\<lambda>_. UploadArchive sv job (path_join [d, f])))) wa = (Inr status, w')"
    unfolding temp_dirA_def by (auto elim!: bind_Inr simp: wrap_Inr)
  from body obtain w2 u where inner: "bindA (ArchiveFileName (j_Name job) (VolumeIdentifierOrFallback job) ext) (\<lambda>f.
       bindA (wrapA g (save (path_join [d, f]))) (\<lambda>_. UploadArchive sv job (path_join [d, f]))) wa = (Inr status, w2)"
    and rm: "RemoveAll d w2 = (u, w')" by (rule cleanup_Inr)
  from inner obtain f wb where nm: "ArchiveFileName (j_Name job) (VolumeIdentifierOrFallback job) ext wa = (Inr f, wb)"
    and rest: "bindA (wrapA g (save (path_join [d, f]))) (\<lambda>_. UploadArchive sv job (path_join [d, f])) wb = (Inr status, w2)"
    by (rule bind_Inr)
  from rest obtain v w1 where wr: "WriteFile (path_join [d, f]) (packed z (w_env wb) dump) 384 wb = (Inr v, w1)"
    and up: "UploadArchive sv job (path_join [d, f]) w1 = (Inr status, w2)"
    by (rule bind_Inr) (simp add: wrap_Inr save)
  have h: "hist_ext w [] wa" "hist_ext wa [] wb" "hist_ext wb [] w1" "hist_ext w2 [] w'"
    using quietD [OF quiet_mkdir_temp mk] quietD [OF quiet_archive_name nm] quietD [OF quiet_write_file wr]
      quietD [OF quiet_os(7) rm] by simp_all
  then have "hist_ext w [] w1" "w_env wb = w_env w" by (auto simp: hist_ext_def)
  moreover have "fs_read (path_join [d, f]) (w_fs w1) = Inr (packed z (w_env wb) dump)" using wr by (rule WriteFile_run(1))
  ultimately show ?thesis using up h(4) by auto
qed

text \<open>A dump taken with \<open>cmd\<close> and uploaded: the calls made, and the hash that was compared.\<close>

definition dump_uploaded ::
  "'x services \<Rightarrow> Job \<Rightarrow> string list \<Rightarrow> smap \<Rightarrow> bool \<Rightarrow> 'x world \<Rightarrow> 'x world \<Rightarrow> bool" where
  "dump_uploaded sv job cmd env z w w' = (\<exists>dump w0 p wm md5 b1 b2.
     dk_Exec (sv_docker sv) (j_ContainerName job) cmd env None w = (Inr dump, w0) \<and>
     w_hist w' = w_hist w @ (CExec (j_ContainerName job) cmd env None, True) # checked_upload job p wm md5 b1 @ prune_events job b2 \<and>
     (if wm then md5 = md5_hex (w_env w) (packed z (w_env w) dump) else True))"

lemma exec_uploaded:
  assumes "bindA (wrapA g (Exec sv (j_ContainerName job) cmd env None)) f w = (Inr status, w')"
    and f: "\<And>dump v v'. f dump v = (Inr status, v') \<Longrightarrow> \<exists>p w1 w2. hist_ext v [] w1
      \<and> fs_read p (w_fs w1) = Inr (packed z (w_env v) dump) \<and> UploadArchive sv job p w1 = (Inr status, w2) \<and> hist_ext w2 [] v'"
  shows "dump_uploaded sv job cmd env z w w'"
proof -
  from assms(1) obtain dump w0 where ex: "Exec sv (j_ContainerName job) cmd env None w = (Inr dump, w0)"
    and up: "f dump w0 = (Inr status, w')" by (rule bind_Inr) (simp add: wrap_Inr)
  obtain wd where d: "dk_Exec (sv_docker sv) (j_ContainerName job) cmd env None w = (Inr dump, wd)"
    using ex by (auto simp: Exec_def callA_def split: prod.splits)
  have h0: "hist_ext w [(CExec (j_ContainerName job) cmd env None, True)] w0"
    using ex by (auto simp: Exec_def callA_def hist_ext_def tickA_def split: prod.splits)
  from f [OF up] obtain p w1 w2 where u: "hist_ext w0 [] w1"
    "fs_read p (w_fs w1) = Inr (packed z (w_env w0) dump)" "UploadArchive sv job p w1 = (Inr status, w2)" "hist_ext w2 [] w'" by blast
  have "upload_result job p w1 (Inr status) w2" by (rule wpD [OF UploadArchive_wp u(3)])
  then obtain wm md5 b1 b2 where c: "hist_ext w1 (checked_upload job p wm md5 b1 @ prune_events job b2) w2"
    "if wm then has_md5 w1 p md5 else \<exists>sz x. status = ''success ('' @ sz @ '')'' @ remark ''manifest warning'' x"
    unfolding upload_result_def sum.case by blast
  have "if wm then md5 = md5_hex (w_env w) (packed z (w_env w) dump) else True"
  proof (cases wm)
    case True
    have "w_env w1 = w_env w" "w_env w0 = w_env w" using u(1) h0 by (simp_all add: hist_ext_def)
    then show ?thesis using True c(2) u(2) by (simp add: has_md5_def)
  qed simp
  moreover have "w_hist w' = w_hist w @ (CExec (j_ContainerName job) cmd env None, True) # checked_upload job p wm md5 b1 @ prune_events job b2"
    using h0 u(1,4) c(1) by (simp add: hist_ext_def)
  ultimately show ?thesis unfolding dump_uploaded_def using d by blast
qed

lemma gzip_and_upload_content:
  "gzip_and_upload sv job ext dump w = (Inr status, w') \<Longrightarrow> \<exists>p w1 w2. hist_ext w [] w1
    \<and> fs_read p (w_fs w1) = Inr (packed True (w_env w) dump) \<and> UploadArchive sv job p w1 = (Inr status, w2) \<and> hist_ext w2 [] w'"
  unfolding gzip_and_upload_def by (erule save_and_upload_content) (simp add: GzipToFile_eq packed_def)

lemmas exec_gzip_uploaded = exec_uploaded [OF _ gzip_and_upload_content]

text \<open>The dumps of the three databases: command, environment, and whether the program compresses the output.\<close>

definition mongodump_cmd :: "Job \<Rightarrow> string list" where
  "mongodump_cmd job = [''mongodump'', ''--archive'', ''--gzip''] @ mongo_auth job"

lemma postgres_uploaded:
  "postgres_backup sv job w = (Inr status, w')
    \<Longrightarrow> dump_uploaded sv job (pg_dump_cmd job) (env_if ''PGPASSWORD'' (mget (j_Credentials job) ''POSTGRES_PASSWORD'')) True w w'"
  unfolding postgres_backup_def by (auto simp: failA_def split: if_splits dest!: exec_gzip_uploaded)

lemma mysql_uploaded:
  "mysql_backup sv job w = (Inr status, w')
    \<Longrightarrow> dump_uploaded sv job (mysqldump_cmd job) [(''MYSQL_PWD'', mget (j_Credentials job) ''MYSQL_ROOT_PASSWORD'')] True w w'"
  unfolding mysql_backup_def by (auto simp: failA_def split: if_splits dest!: exec_gzip_uploaded)

lemma mongodb_uploaded:
  "mongodb_backup sv job w = (Inr status, w') \<Longrightarrow> dump_uploaded sv job (mongodump_cmd job) [] False w w'"
  unfolding mongodb_backup_def mongodump_cmd_def
  by (auto simp: failA_def split: if_splits) (erule exec_uploaded, erule save_and_upload_content, simp add: packed_def)

text \<open>C18: The dump is what reaches the remote. When the postgres, the mysql or the mongodb backup succeeds, it made
  one call into the container, with the dump command and, for the first two, the password only in the environment, and
  the object the remote then reported on has the MD5 of the output of that very command, compressed by
  the program for the first two and by mongodump itself for the third (unless no manifest could be made); nothing else
  was called but the upload and the pruning.\<close>

theorem database_dump_uploaded:
  "(case postgres_backup sv job w of (Inl _, _) \<Rightarrow> True
    | (Inr _, w') \<Rightarrow> dump_uploaded sv job
        [''pg_dump'', ''--clean'', ''--if-exists'', ''-U'', mget (j_Credentials job) ''POSTGRES_USER'', mget (j_Credentials job) ''POSTGRES_DB'']
        (env_if ''PGPASSWORD'' (mget (j_Credentials job) ''POSTGRES_PASSWORD'')) True w w')
   \<and> (case mysql_backup sv job w of (Inl _, _) \<Rightarrow> True
    | (Inr _, w') \<Rightarrow> dump_uploaded sv job
        [''mysqldump'', ''--single-transaction'', ''-u'', ''root'', mget (j_Credentials job) ''MYSQL_DATABASE'']
        [(''MYSQL_PWD'', mget (j_Credentials job) ''MYSQL_ROOT_PASSWORD'')] True w w')
   \<and> (case mongodb_backup sv job w of (Inl _, _) \<Rightarrow> True
    | (Inr _, w') \<Rightarrow> dump_uploaded sv job ([''mongodump'', ''--archive'', ''--gzip''] @ mongo_auth job) [] False w w')"
  unfolding pg_dump_cmd_def [symmetric] mysqldump_cmd_def [symmetric] mongodump_cmd_def [symmetric]
  by (auto split: prod.split sum.split dest!: postgres_uploaded mysql_uploaded mongodb_uploaded)

section \<open>Polling redis\<close>

definition lastsave_call :: "string \<Rightarrow> smap \<Rightarrow> call" where
  "lastsave_call c env = CExec c [''redis-cli'', ''LASTSAVE''] env None"

definition poll_trace ::
  "'x services \<Rightarrow> string \<Rightarrow> smap \<Rightarrow> string \<Rightarrow> nat \<Rightarrow> 'x world \<Rightarrow> unit res \<Rightarrow> 'x world \<Rightarrow> bool" where
  "poll_trace sv c env before n w r w' = (\<exists>es. hist_ext w es w' \<and> length es \<le> n
     \<and> list_all (\<lambda>(cl, _). cl = lastsave_call c env) es
     \<and> (case r of Inl _ \<Rightarrow> True | Inr _ \<Rightarrow> es \<noteq> [] \<and> snd (last es) \<and> (\<exists>wa wb out. hist_ext w (butlast es) wa
           \<and> dk_Exec (sv_docker sv) c [''redis-cli'', ''LASTSAVE''] env None wa = (Inr out, wb) \<and> trim_space out \<noteq> before)))"

lemma poll_trace_fail: "hist_ext w es w' \<Longrightarrow> length es \<le> n \<Longrightarrow> list_all (\<lambda>(cl, _). cl = lastsave_call c env) es
    \<Longrightarrow> poll_trace sv c env before n w (Inl e) w'"
  by (auto simp: poll_trace_def)

lemma poll_trace_later:
  assumes h: "hist_ext w [(lastsave_call c env, b)] w2" and p: "poll_trace sv c env before n w2 r w'"
  shows "poll_trace sv c env before (Suc n) w r w'"
proof -
  obtain es where es: "hist_ext w2 es w'" "length es \<le> n" "list_all (\<lambda>(cl, _). cl = lastsave_call c env) es"
    "case r of Inl _ \<Rightarrow> True | Inr _ \<Rightarrow> es \<noteq> [] \<and> snd (last es) \<and> (\<exists>wa wb out. hist_ext w2 (butlast es) wa
           \<and> dk_Exec (sv_docker sv) c [''redis-cli'', ''LASTSAVE''] env None wa = (Inr out, wb) \<and> trim_space out \<noteq> before)"
    using p unfolding poll_trace_def by blast
  have "hist_ext w (butlast ((lastsave_call c env, b) # es)) wa" if "es \<noteq> []" "hist_ext w2 (butlast es) wa" for wa
    using hist_ext_trans [OF h that(2)] that(1) by simp
  with es show ?thesis unfolding poll_trace_def using hist_ext_trans [OF h es(1)]
    by (intro exI [of _ "(lastsave_call c env, b) # es"]) (cases r, auto)
qed

lemma lastSave_wp:
  assumes "\<And>e w'. hist_ext w [(lastsave_call c env, False)] w' \<Longrightarrow> Q (Inl e) w'"
    and "\<And>out wb w'. hist_ext w [(lastsave_call c env, True)] w'
      \<Longrightarrow> dk_Exec (sv_docker sv) c [''redis-cli'', ''LASTSAVE''] env None w = (Inr out, wb) \<Longrightarrow> Q (Inr (trim_space out)) w'"
  shows "wp (lastSave sv c env) Q w"
proof -
  obtain x wx where x: "dk_Exec (sv_docker sv) c [''redis-cli'', ''LASTSAVE''] env None w = (x, wx)" by force
  show ?thesis
    by (cases x) (use x assms in \<open>auto simp: wp_def lastSave_def Exec_def callA_def bindA_def returnA_def hist_ext_def
        tickA_def lastsave_call_def\<close>)
qed

lemma wait_for_save_wp: "wp (wait_for_save n sv c env before) (poll_trace sv c env before n w) w"
proof (induction n arbitrary: w)
  case 0
  show ?case by (simp add: wps poll_trace_fail [of w "[]"])
next
  case (Suc n)
  have again: "wp (wait_for_save n sv c env before) (poll_trace sv c env before (Suc n) w) w2"
    if h: "hist_ext w [(lastsave_call c env, b)] w2" for b w2
    by (rule wp_mono [OF Suc.IH]) (rule poll_trace_later [OF h])
  show ?case unfolding wait_for_save.simps wp_bind
  proof (rule quiet_wp [OF quiet_cancelled], goal_cases)
    case (1 r w1)
    note h1 = 1(2)
    show ?case
    proof (cases r)
      case (Inl e)
      then show ?thesis using h1 by (simp add: poll_trace_fail)
    next
      case (Inr b)
      show ?thesis unfolding Inr sum.case
      proof (rule wp_if, goal_cases)
        case 1
        then show ?case using h1 by (simp add: wps poll_trace_fail)
      next
        case 2
        show ?case unfolding wp_try
        proof (rule lastSave_wp, goal_cases)
          case (1 e w2)
          then have "hist_ext w [(lastsave_call c env, False)] w2" using hist_ext_trans [OF h1] by force
          then show ?case using again poll_trace_fail by fastforce
        next
          case (2 out wb w2)
          then have h: "hist_ext w [(lastsave_call c env, True)] w2" using hist_ext_trans [OF h1] by force
          then have "trim_space out \<noteq> before \<Longrightarrow> poll_trace sv c env before (Suc n) w (Inr ()) w2"
            unfolding poll_trace_def using 2(2) h1 by (intro exI [of _ "[(lastsave_call c env, True)]"]) auto
          then show ?case using again [OF h] by (simp add: wps)
        qed
      qed
    qed
  qed
qed

text \<open>C34: Waiting for a redis save ends: it makes at most 60 calls, each of them \<open>LASTSAVE\<close>, and it reports
  success only if the last of them answered with a time other than the one before the save.\<close>

theorem waitForSave_bounded:
  "case waitForSave sv c env before w of (r, w') \<Rightarrow> \<exists>es. w_hist w' = w_hist w @ es \<and> length es \<le> 60
     \<and> list_all (\<lambda>(cl, _). cl = CExec c [''redis-cli'', ''LASTSAVE''] env None) es
     \<and> (case r of Inl _ \<Rightarrow> True | Inr _ \<Rightarrow> es \<noteq> [] \<and> snd (last es) \<and> (\<exists>wa wb out. (w_hist wa = w_hist w @ butlast es \<and> w_env wa = w_env w)
           \<and> dk_Exec (sv_docker sv) c [''redis-cli'', ''LASTSAVE''] env None wa = (Inr out, wb) \<and> trim_space out \<noteq> before))"
  using wait_for_save_wp [of maxPollAttempts sv c env before w]
  unfolding wp_def waitForSave_def maxPollAttempts_def lastsave_call_def poll_trace_def hist_ext_def
  by (auto split: prod.splits)

section \<open>A sample run\<close>

definition sample_docker :: "unit DockerClient" where
  "sample_docker = \<lparr>dk_Run = (\<lambda>img mounts cmd w. (Inr [],
        w\<lparr>w_fs := fs_put (ms_Source (mounts ! 1) @ ''/'' @ drop 8 (cmd ! 2)) (File ''hello'' 384 0) (w_fs w)\<rparr>)),
     dk_Exec = (\<lambda>c cmd env stdin w. (Inr ''dump'', w)), dk_Stop = (\<lambda>c w. (Inr (), w)), dk_Start = (\<lambda>c w. (Inr (), w)),
     dk_Cp = (\<lambda>a b w. (Inr (), w))\<rparr>"

definition sample_rclone :: "unit RcloneClient" where
  "sample_rclone = \<lparr>rk_Upload = (\<lambda>a b w. (Inr (), w)), rk_ListFiles = (\<lambda>p w. (Inr [], w)),
     rk_Download = (\<lambda>a b w. (Inr (), w)), rk_Prune = (\<lambda>p d k w. (Inr [], w)), rk_Hashsum = (\<lambda>p w. (Inr ''5'', w))\<rparr>"

definition sample_services :: "unit services" where
  "sample_services = \<lparr>sv_docker = sample_docker, sv_rclone = sample_rclone, sv_http = (\<lambda>u b w. (Inr 200, w))\<rparr>"

definition sample_job :: Job where
  "sample_job = \<lparr>j_Name = ''etc'', j_BackupType = ''hostdir'', j_VolumeID = ''vol'', j_VolumeIdentifier = ''etc'',
     j_HostPath = ''/etc'', j_ContainerName = ''c'', j_ServiceType = ''hostdir'', j_Credentials = [],
     j_GoogleDrivePath = ''/stage/h/hostdir/etc/'', j_RetentionDays = 0, j_MinFilesToKeep = 3, j_WebhookURL = [],
     j_LocalBackupDir = [], j_LocalRetentionCount = 0, j_LastBackup = None, j_LastBackupStatus = []\<rparr>"

text \<open>A machine and services on which an upload succeeds.\<close>

definition sample_archive :: "unit world" where
  "sample_archive = snd (WriteFile ''/tmp/a'' ''hello'' 384 sample_world)"

lemma sample_upload: "fst (UploadArchive sample_services sample_job ''/tmp/a'' sample_archive) = Inr ''success (5 B)''"
  by code_simp

end
