(* ===== verification/Restore.thy ===== *)
theory Restore
  imports Executors
begin

text \<open>
  internal/restore: listing the remote backups of a job, fetching an archive and checking it against
  its integrity manifest, and the eight restore strategies. The locale \<open>restorer\<close> is their contract:
  nothing but downloads happens before the check has passed.
\<close>

section \<open>Remote backups\<close>

record BackupFile =
  bf_Name :: string
  bf_Size :: int
  bf_Modified :: instant
  bf_Path :: string

text \<open>\<open>time.Time{}\<close>: the first of January of the year 1.\<close>

definition zero_time :: instant where
  "zero_time = - 62135596800 * nanos"

definition backup_file :: "FileInfo \<Rightarrow> BackupFile" where
  "backup_file f = \<lparr>bf_Name = fi_Name f, bf_Size = fi_Size f,
     bf_Modified = (case parse_time (fi_ModTime f) of Some t \<Rightarrow> t | None \<Rightarrow> zero_time), bf_Path = fi_Path f\<rparr>"

definition ListRemoteBackups :: "'x services \<Rightarrow> Job \<Rightarrow> (BackupFile list, 'x) act" where
  "ListRemoteBackups sv job =
     bindA (wrapA (wrapf (''listing backups for '' @ j_Name job)) (ListFiles sv (j_GoogleDrivePath job))) (\<lambda>files.
       returnA (map backup_file files))"

definition stopsContainer :: "string list" where
  "stopsContainer = [''redis'', ''n8n'']"

definition StopsContainerDuringRestore :: "string \<Rightarrow> bool" where
  "StopsContainerDuringRestore backupType = (backupType \<in> set stopsContainer)"

section \<open>Checking an archive\<close>

definition manifest_fields :: "string list" where
  "manifest_fields = [''job_name'', ''backup_type'', ''file_name'', ''sha256'', ''md5'', ''size_bytes'', ''created_at'']"

text \<open>\<open>time.Time.UnmarshalJSON\<close>.\<close>

definition set_time :: "json \<Rightarrow> (instant \<Rightarrow> 'a) \<Rightarrow> 'a \<Rightarrow> 'a option" where
  "set_time v upd x =
     (case v of JStr s \<Rightarrow> map_option upd (parse_json_time s) | JNull \<Rightarrow> Some x | _ \<Rightarrow> None)"

definition set_manifest :: "string \<Rightarrow> json \<Rightarrow> ArchiveManifest \<Rightarrow> ArchiveManifest option" where
  "set_manifest k v m =
     (if k = ''job_name'' then set_string v (\<lambda>s. m\<lparr>am_JobName := s\<rparr>) m
      else if k = ''backup_type'' then set_string v (\<lambda>s. m\<lparr>am_BackupType := s\<rparr>) m
      else if k = ''file_name'' then set_string v (\<lambda>s. m\<lparr>am_FileName := s\<rparr>) m
      else if k = ''sha256'' then set_string v (\<lambda>s. m\<lparr>am_SHA256 := s\<rparr>) m
      else if k = ''md5'' then set_string v (\<lambda>s. m\<lparr>am_MD5 := s\<rparr>) m
      else if k = ''size_bytes'' then set_int v (\<lambda>n. m\<lparr>am_SizeBytes := n\<rparr>) m
      else set_time v (\<lambda>t. m\<lparr>am_CreatedAt := t\<rparr>) m)"

definition empty_manifest :: ArchiveManifest where
  "empty_manifest = \<lparr>am_JobName = [], am_BackupType = [], am_FileName = [], am_SHA256 = [], am_MD5 = [],
     am_SizeBytes = 0, am_CreatedAt = zero_time\<rparr>"

definition unmarshal_manifest :: "string \<Rightarrow> ArchiveManifest option" where
  "unmarshal_manifest s =
     Option.bind (json_parse s) (\<lambda>v. unmarshal_struct manifest_fields set_manifest v empty_manifest)"

text \<open>None: there is no usable manifest.\<close>

definition downloadManifest :: "'x services \<Rightarrow> BackupFile \<Rightarrow> string \<Rightarrow> (ArchiveManifest option, 'x) act" where
  "downloadManifest sv file destDir =
     tryA (Download sv (bf_Path file @ ManifestSuffix) destDir) (\<lambda>r. case r of
       Inl _ \<Rightarrow> returnA None
     | Inr _ \<Rightarrow> tryA (ReadFile (path_join [destDir, bf_Name file @ ManifestSuffix])) (\<lambda>r. case r of
         Inl _ \<Rightarrow> returnA None
       | Inr data \<Rightarrow> returnA (unmarshal_manifest data)))"

definition missingManifestWarning :: string where
  "missingManifestWarning = ''restored without integrity verification - no usable backup manifest found ''
     @ ''(this backup may predate integrity verification, or its manifest failed to download)''"

definition mismatch_error :: "BackupFile \<Rightarrow> string \<Rightarrow> string \<Rightarrow> error" where
  "mismatch_error file expected got = errorf (''integrity check failed for '' @ bf_Name file @ '': expected sha256 ''
     @ expected @ '', got '' @ got @ '' - refusing to restore'')"

text \<open>The comparison both forms of the check end with.\<close>

definition compare_hash :: "BackupFile \<Rightarrow> ArchiveManifest \<Rightarrow> string \<Rightarrow> (string, 'x) act" where
  "compare_hash file m data =
     bindA (get_env sha256_hex) (\<lambda>sha.
       if sha data \<noteq> am_SHA256 m then failA (mismatch_error file (am_SHA256 m) (sha data)) else returnA [])"

definition verifyManifestBytes :: "'x services \<Rightarrow> BackupFile \<Rightarrow> string \<Rightarrow> string \<Rightarrow> (string, 'x) act" where
  "verifyManifestBytes sv file destDir data =
     bindA (downloadManifest sv file destDir) (\<lambda>m. case m of
       None \<Rightarrow> returnA missingManifestWarning
     | Some m \<Rightarrow> compare_hash file m data)"

definition verifyManifestFile :: "'x services \<Rightarrow> BackupFile \<Rightarrow> string \<Rightarrow> string \<Rightarrow> (string, 'x) act" where
  "verifyManifestFile sv file destDir localPath =
     bindA (downloadManifest sv file destDir) (\<lambda>m. case m of
       None \<Rightarrow> returnA missingManifestWarning
     | Some m \<Rightarrow>
         bindA (wrapA (wrapf (''opening '' @ localPath @ '' to verify'')) (OpenRead localPath)) (\<lambda>_.
         bindA (wrapA (wrapf (''hashing '' @ localPath @ '' to verify'')) (ReadFile localPath)) (\<lambda>data.
           compare_hash file m data)))"

definition download_archive :: "'x services \<Rightarrow> BackupFile \<Rightarrow> string \<Rightarrow> (unit, 'x) act" where
  "download_archive sv file d = wrapA (wrapf (''downloading '' @ bf_Path file)) (Download sv (bf_Path file) d)"

definition unzip :: "string \<Rightarrow> (string, 'x) act" where
  "unzip data =
     bindA (get_env gzip_open) (\<lambda>op. case op data of
       Inl e \<Rightarrow> failA (wrapf ''opening gzip stream'' e)
     | Inr _ \<Rightarrow> bindA (get_env gunzip) (\<lambda>gz. case gz data of
         Inl e \<Rightarrow> failA (wrapf ''decompressing'' e)
       | Inr plain \<Rightarrow> returnA plain))"

definition downloadAndRead :: "'x services \<Rightarrow> BackupFile \<Rightarrow> bool \<Rightarrow> (string \<times> string, 'x) act" where
  "downloadAndRead sv file gunz =
     temp_dirA ''dockvault-restore-'' (\<lambda>tmpDir.
     bindA (download_archive sv file tmpDir) (\<lambda>_.
     bindA (wrapA (wrapf ''reading downloaded file'') (ReadFile (path_join [tmpDir, bf_Name file]))) (\<lambda>data.
     bindA (verifyManifestBytes sv file tmpDir data) (\<lambda>warning.
       if \<not> gunz then returnA (data, warning)
       else bindA (unzip data) (\<lambda>plain. returnA (plain, warning))))))"

section \<open>The restore strategies\<close>

text \<open>The archive mounted next to its target in a throwaway container.\<close>

definition target_mount :: "string \<Rightarrow> MountSpec" where
  "target_mount source = \<lparr>ms_Source = source, ms_Target = ''/target'', ms_ReadOnly = False\<rparr>"

definition backup_mount :: "string \<Rightarrow> MountSpec" where
  "backup_mount tmpDir = \<lparr>ms_Source = tmpDir, ms_Target = ''/backup'', ms_ReadOnly = True\<rparr>"

definition restore_prefix :: "Job \<Rightarrow> string" where
  "restore_prefix job = ''dockvault-restore-'' @ j_Name job @ ''-''"

text \<open>What the four strategies that work on the downloaded file share: fetch it, check it, apply it.\<close>

definition with_checked_file ::
  "'x services \<Rightarrow> Job \<Rightarrow> BackupFile \<Rightarrow> (string \<Rightarrow> (unit, 'x) act) \<Rightarrow> (string, 'x) act" where
  "with_checked_file sv job file apply_file =
     temp_dirA (restore_prefix job) (\<lambda>tmpDir.
     bindA (download_archive sv file tmpDir) (\<lambda>_.
     bindA (verifyManifestFile sv file tmpDir (path_join [tmpDir, bf_Name file])) (\<lambda>warning.
     bindA (apply_file tmpDir) (\<lambda>_. returnA warning))))"

definition extract_archive :: "'x services \<Rightarrow> BackupFile \<Rightarrow> string \<Rightarrow> string \<Rightarrow> string \<Rightarrow> (unit, 'x) act" where
  "extract_archive sv file what source tmpDir =
     bindA (wrapA (wrapf what) (Run sv AlpineImage [target_mount source, backup_mount tmpDir]
              [''tar'', ''xzf'', ''/backup/'' @ bf_Name file, ''-C'', ''/target''])) (\<lambda>_. returnA ())"

definition StandardRestorer_Restore :: "'x services \<Rightarrow> Job \<Rightarrow> BackupFile \<Rightarrow> (string, 'x) act" where
  "StandardRestorer_Restore sv job file =
     (if j_VolumeID job = [] then failA (errorf (''standard.Restore: job '' @ j_Name job @ '' has no volume ID''))
      else with_checked_file sv job file
             (extract_archive sv file (''extracting into volume '' @ j_VolumeID job) (j_VolumeID job)))"

definition HostdirRestorer_Restore :: "'x services \<Rightarrow> Job \<Rightarrow> BackupFile \<Rightarrow> (string, 'x) act" where
  "HostdirRestorer_Restore sv job file =
     (if j_HostPath job = [] then failA (errorf (''hostdir.Restore: job '' @ j_Name job @ '' has no host path''))
      else with_checked_file sv job file (extract_archive sv file (''extracting into '' @ j_HostPath job) (j_HostPath job)))"

definition stop_container :: "'x services \<Rightarrow> Job \<Rightarrow> (unit, 'x) act" where
  "stop_container sv job = wrapA (wrapf (''stopping container '' @ j_ContainerName job)) (Stop sv (j_ContainerName job))"

definition wipe_cmd :: "string list" where
  "wipe_cmd = [''sh'', ''-c'', ''rm -rf /target/* /target/.[!.]* 2>/dev/null || true'']"

definition N8nRestorer_Restore :: "'x services \<Rightarrow> Job \<Rightarrow> BackupFile \<Rightarrow> (string, 'x) act" where
  "N8nRestorer_Restore sv job file =
     (if j_ContainerName job = [] then failA (errorf (''n8n.Restore: job '' @ j_Name job @ '' has no target container''))
      else if j_VolumeID job = [] then failA (errorf (''n8n.Restore: job '' @ j_Name job @ '' has no volume ID''))
      else with_checked_file sv job file (\<lambda>tmpDir.
             bindA (stop_container sv job) (\<lambda>_.
             bindA (wrapA (wrapf (''wiping volume '' @ j_VolumeID job))
                      (Run sv AlpineImage [target_mount (j_VolumeID job)] wipe_cmd)) (\<lambda>_.
               extract_archive sv file (''extracting into volume '' @ j_VolumeID job) (j_VolumeID job) tmpDir))))"

definition RedisRestorer_Restore :: "'x services \<Rightarrow> Job \<Rightarrow> BackupFile \<Rightarrow> (string, 'x) act" where
  "RedisRestorer_Restore sv job file =
     (if j_ContainerName job = [] then failA (errorf (''redis.Restore: job '' @ j_Name job @ '' has no target container''))
      else with_checked_file sv job file (\<lambda>tmpDir.
             bindA (stop_container sv job) (\<lambda>_.
               wrapA (wrapf ''copying dump.rdb into container'')
                 (Cp sv (path_join [tmpDir, bf_Name file]) (j_ContainerName job @ '':/data/dump.rdb'')))))"

text \<open>A dump fed to a client's standard input.\<close>

definition feed ::
  "'x services \<Rightarrow> Job \<Rightarrow> BackupFile \<Rightarrow> bool \<Rightarrow> string \<Rightarrow> string list \<Rightarrow> smap \<Rightarrow> (string, 'x) act" where
  "feed sv job file gunz what cmd env =
     bindA (downloadAndRead sv file gunz) (\<lambda>(data, warning).
     bindA (wrapA (wrapf what) (Exec sv (j_ContainerName job) cmd env (Some data))) (\<lambda>_. returnA warning))"

definition PostgresRestorer_Restore :: "'x services \<Rightarrow> Job \<Rightarrow> BackupFile \<Rightarrow> (string, 'x) act" where
  "PostgresRestorer_Restore sv job file =
     (if j_ContainerName job = [] then failA (errorf (''postgres.Restore: job '' @ j_Name job @ '' has no target container''))
      else if mget (j_Credentials job) ''POSTGRES_USER'' = [] \<or> mget (j_Credentials job) ''POSTGRES_DB'' = []
      then failA (errorf (''postgres.Restore: job '' @ j_Name job @ '' is missing POSTGRES_USER/POSTGRES_DB credentials''))
      else feed sv job file True ''psql''
             [''psql'', ''-U'', mget (j_Credentials job) ''POSTGRES_USER'', mget (j_Credentials job) ''POSTGRES_DB'']
             (env_if ''PGPASSWORD'' (mget (j_Credentials job) ''POSTGRES_PASSWORD'')))"

definition MysqlRestorer_Restore :: "'x services \<Rightarrow> Job \<Rightarrow> BackupFile \<Rightarrow> (string, 'x) act" where
  "MysqlRestorer_Restore sv job file =
     (if j_ContainerName job = [] then failA (errorf (''mysql.Restore: job '' @ j_Name job @ '' has no target container''))
      else if mget (j_Credentials job) ''MYSQL_DATABASE'' = [] \<or> mget (j_Credentials job) ''MYSQL_ROOT_PASSWORD'' = []
      then failA (errorf (''mysql.Restore: job '' @ j_Name job @ '' is missing MYSQL_DATABASE/MYSQL_ROOT_PASSWORD credentials''))
      else feed sv job file True ''mysql'' [''mysql'', ''-u'', ''root'', mget (j_Credentials job) ''MYSQL_DATABASE'']
             [(''MYSQL_PWD'', mget (j_Credentials job) ''MYSQL_ROOT_PASSWORD'')])"

definition MongodbRestorer_Restore :: "'x services \<Rightarrow> Job \<Rightarrow> BackupFile \<Rightarrow> (string, 'x) act" where
  "MongodbRestorer_Restore sv job file =
     (if j_ContainerName job = [] then failA (errorf (''mongodb.Restore: job '' @ j_Name job @ '' has no target container''))
      else feed sv job file False ''mongorestore''
             ([''mongorestore'', ''--archive'', ''--gzip'', ''--drop''] @ mongo_auth job) [])"

definition rabbitmqRestorePathInContainer :: string where
  "rabbitmqRestorePathInContainer = ''/tmp/dockvault-restore-definitions.json''"

definition RabbitmqRestorer_Restore :: "'x services \<Rightarrow> Job \<Rightarrow> BackupFile \<Rightarrow> (string, 'x) act" where
  "RabbitmqRestorer_Restore sv job file =
     (if j_ContainerName job = [] then failA (errorf (''rabbitmq.Restore: job '' @ j_Name job @ '' has no target container''))
      else bindA (downloadAndRead sv file True) (\<lambda>(data, warning).
           temp_dirA ''dockvault-restore-rabbitmq-'' (\<lambda>tmpDir.
           bindA (wrapA (wrapf ''writing definitions for copy'')
                    (WriteFile (path_join [tmpDir, ''definitions.json'']) data 384)) (\<lambda>_.
           bindA (wrapA (wrapf ''copying definitions into container'') (Cp sv (path_join [tmpDir, ''definitions.json''])
                    (j_ContainerName job @ '':'' @ rabbitmqRestorePathInContainer))) (\<lambda>_.
           cleanupA (ignoreA (Exec sv (j_ContainerName job) [''rm'', ''-f'', rabbitmqRestorePathInContainer] [] None))
             (bindA (wrapA (wrapf ''rabbitmqctl import_definitions'') (Exec sv (j_ContainerName job)
                       [''rabbitmqctl'', ''import_definitions'', rabbitmqRestorePathInContainer] [] None)) (\<lambda>_.
                returnA warning)))))))"

type_synonym 'x restore_body = "'x services \<Rightarrow> Job \<Rightarrow> BackupFile \<Rightarrow> (string, 'x) act"

definition restorers :: "(string \<times> 'x restore_body) list" where
  "restorers = [(''standard'', StandardRestorer_Restore), (''postgres'', PostgresRestorer_Restore),
     (''mysql'', MysqlRestorer_Restore), (''mongodb'', MongodbRestorer_Restore), (''redis'', RedisRestorer_Restore),
     (''n8n'', N8nRestorer_Restore), (''hostdir'', HostdirRestorer_Restore), (''rabbitmq'', RabbitmqRestorer_Restore)]"

section \<open>Nothing is touched before the check has passed\<close>

definition is_download :: "call \<Rightarrow> bool" where
  "is_download c = (case c of CDownload _ _ \<Rightarrow> True | _ \<Rightarrow> False)"

lemma is_download_simps [growing]: "is_download (CDownload a b)"
  by (simp add: is_download_def)

text \<open>The manifest that was read right after its download into \<open>d\<close> names the hash of \<open>data\<close>.\<close>

definition hash_agrees :: "'x services \<Rightarrow> os_env \<Rightarrow> BackupFile \<Rightarrow> string \<Rightarrow> string \<Rightarrow> bool" where
  "hash_agrees sv env file d data = (\<exists>wx wy u text m.
     rk_Download (sv_rclone sv) (bf_Path file @ ManifestSuffix) d wx = (Inr u, wy)
     \<and> fs_read (path_join [d, bf_Name file @ ManifestSuffix]) (w_fs wy) = Inr text
     \<and> unmarshal_manifest text = Some m \<and> sha256_hex env data = am_SHA256 m)"

text \<open>A check that passed: the data are those of the archive's local file, right after one of the downloads.\<close>

definition archive_data :: "'x services \<Rightarrow> BackupFile \<Rightarrow> string \<Rightarrow> string \<Rightarrow> bool" where
  "archive_data sv file d data = (\<exists>p wx wy u. p \<in> {bf_Path file, bf_Path file @ ManifestSuffix}
     \<and> rk_Download (sv_rclone sv) p d wx = (Inr u, wy) \<and> fs_read (path_join [d, bf_Name file]) (w_fs wy) = Inr data)"

definition verified :: "'x services \<Rightarrow> os_env \<Rightarrow> BackupFile \<Rightarrow> string \<Rightarrow> string \<Rightarrow> bool" where
  "verified sv env file d warning = (warning = missingManifestWarning \<or>
     warning = [] \<and> (\<exists>data. archive_data sv file d data \<and> hash_agrees sv env file d data))"

definition only_downloads :: "(call \<times> bool) list \<Rightarrow> bool" where
  "only_downloads es = list_all (\<lambda>e. is_download (fst e)) es"

definition restore_guarded :: "'x services \<Rightarrow> BackupFile \<Rightarrow> 'x world \<Rightarrow> string res \<Rightarrow> 'x world \<Rightarrow> bool" where
  "restore_guarded sv file w r w' =
     ((\<exists>es. hist_ext w es w' \<and> only_downloads es \<and> \<not> is_ok r)
      \<or> (\<exists>es1 es2 d warning. hist_ext w (es1 @ es2) w' \<and> only_downloads es1 \<and> verified sv (w_env w) file d warning
           \<and> r \<in> {Inr warning} \<union> range Inl))"

lemma guarded_fails:
  "hist_ext w es w' \<Longrightarrow> only_downloads es \<Longrightarrow> restore_guarded sv file w (Inl e) w'"
  by (auto simp: restore_guarded_def)

text \<open>The steps before the check: downloads and local work.\<close>

lemma only_downloads_append: "only_downloads es \<Longrightarrow> only_downloads es' \<Longrightarrow> only_downloads (es @ es')"
  by (simp add: only_downloads_def)

lemma guarded_later:
  assumes h: "hist_ext w es w1" "only_downloads es" and g: "restore_guarded sv file w1 r w'"
  shows "restore_guarded sv file w r w'"
proof -
  have env: "w_env w1 = w_env w" using h(1) by (simp add: hist_ext_def)
  from g consider (bad) es1 where "hist_ext w1 es1 w'" "only_downloads es1" "\<not> is_ok r"
    | (good) es1 es2 d warning where "hist_ext w1 (es1 @ es2) w'" "only_downloads es1"
        "verified sv (w_env w) file d warning" "r \<in> {Inr warning} \<union> range Inl"
    unfolding restore_guarded_def env by blast
  then show ?thesis
  proof cases
    case bad
    then show ?thesis unfolding restore_guarded_def using hist_ext_trans [OF h(1)] only_downloads_append [OF h(2)] by blast
  next
    case good
    have "hist_ext w ((es @ es1) @ es2) w'" using hist_ext_trans [OF h(1) good(1)] by simp
    then show ?thesis unfolding restore_guarded_def using only_downloads_append [OF h(2) good(2)] good(3,4) by blast
  qed
qed

lemma guarded_bind:
  assumes m: "emits is_download m"
    and f: "\<And>v w1 w2 r. m w = (Inr v, w1) \<Longrightarrow> f v w1 = (r, w2) \<Longrightarrow> restore_guarded sv file w1 r w2"
    and r: "bindA m f w = (r, w')"
  shows "restore_guarded sv file w r w'"
proof -
  obtain s w1 where 1: "m w = (s, w1)" by force
  obtain es where es: "hist_ext w es w1" "only_downloads es" using emitsD [OF m 1] unfolding only_downloads_def by blast
  show ?thesis
  proof (cases s)
    case (Inl e)
    then show ?thesis using r 1 guarded_fails [OF es] by (auto simp: bindA_def)
  next
    case (Inr v)
    then have 2: "f v w1 = (r, w')" using r 1 by (simp add: bindA_def)
    show ?thesis by (rule guarded_later [OF es f [OF 1 [unfolded Inr] 2]])
  qed
qed

lemma guarded_cleanup:
  assumes c: "quiet c" and m: "\<And>r w1. m w = (r, w1) \<Longrightarrow> restore_guarded sv file w r w1"
    and r: "cleanupA c m w = (r, w')"
  shows "restore_guarded sv file w r w'"
proof -
  obtain s w1 u w2 where 1: "m w = (s, w1)" "c w1 = (u, w2)" by (meson surj_pair)
  have rw: "r = s" "w' = w2" using r 1 by (auto simp: cleanupA_def deferA_def split: sum.splits if_splits)
  have q: "hist_ext w1 [] w2" using quietD [OF c 1(2)] by simp
  show ?thesis using m [OF 1(1)] unfolding restore_guarded_def rw
    using hist_ext_trans [OF _ q] by (metis append_Nil2)
qed

lemma guarded_temp_dir:
  assumes m: "\<And>d w1 w2 r. body d w1 = (r, w2) \<Longrightarrow> restore_guarded sv file w1 r w2" and r: "temp_dirA pre body w = (r, w')"
  shows "restore_guarded sv file w r w'"
  using r unfolding temp_dirA_def
proof (rule guarded_bind [rotated -1])
  show "emits is_download (wrapA (wrapf ''creating temp dir'') (MkdirTemp pre))" by (intro grows_quiet quiets)
  show "restore_guarded sv file w1 r w2" if "cleanupA (RemoveAll v) (body v) w1 = (r, w2)" for v w1 w2 r
    using that m by (rule guarded_cleanup [OF quiet_os(7), rotated])
qed

text \<open>A result that can only be the warning of the check.\<close>

definition yields :: "'a \<Rightarrow> ('a, 'x) act \<Rightarrow> bool" where
  "yields v m = (\<forall>w x w'. m w = (Inr x, w') \<longrightarrow> x = v)"

named_theorems yielding \<open>rules for yields\<close>

lemma yields_return [yielding]: "yields v (returnA v)"
  by (simp add: yields_def returnA_def)

lemma yields_bind [yielding]: "(\<And>x. yields v (f x)) \<Longrightarrow> yields v (bindA m f)"
  by (fastforce simp: yields_def elim: bind_Inr)

lemma yields_cleanup [yielding]: "yields v m \<Longrightarrow> yields v (cleanupA c m)"
  by (fastforce simp: yields_def elim: cleanup_Inr)

lemma yields_temp_dir [yielding]: "(\<And>d. yields v (body d)) \<Longrightarrow> yields v (temp_dirA pre body)"
  unfolding temp_dirA_def by (intro yielding)

lemma yields_result: "yields v m \<Longrightarrow> m w = (r, w') \<Longrightarrow> r \<in> {Inr v} \<union> range Inl"
  by (cases r) (auto simp: yields_def)

text \<open>From the check on: the two forms of the check and the code after them.\<close>

lemma download_fs:
  assumes "Download sv p d w = (Inr u, w')"
  shows "\<exists>wy. rk_Download (sv_rclone sv) p d w = (Inr u, wy) \<and> w_fs w' = w_fs wy"
  using assms by (auto simp: Download_def callA_def tickA_def split: prod.splits)

lemma read_fs: "ReadFile p w = (Inr b, w') \<Longrightarrow> fs_read p (w_fs w) = Inr b \<and> w_fs w' = w_fs w"
  by (auto simp: ReadFile_def sysA_def tickA_def split: option.splits prod.splits)

lemma try_cases:
  assumes "tryA m f w = (Inr x, w')"
  obtains r w1 where "m w = (r, w1)" "f r w1 = (Inr x, w')"
  using assms by (auto simp: tryA_def split: prod.splits sum.splits if_splits)

lemma downloadManifest_Some:
  assumes "downloadManifest sv file d w = (Inr (Some m), w')"
  shows "\<exists>u wy text. rk_Download (sv_rclone sv) (bf_Path file @ ManifestSuffix) d w = (Inr u, wy)
    \<and> fs_read (path_join [d, bf_Name file @ ManifestSuffix]) (w_fs wy) = Inr text \<and> unmarshal_manifest text = Some m
    \<and> w_fs w' = w_fs wy"
proof -
  from assms obtain r w1 where 1: "Download sv (bf_Path file @ ManifestSuffix) d w = (r, w1)"
    and 2: "(case r of Inl _ \<Rightarrow> returnA None
       | Inr _ \<Rightarrow> tryA (ReadFile (path_join [d, bf_Name file @ ManifestSuffix])) (\<lambda>r. case r of
           Inl _ \<Rightarrow> returnA None | Inr data \<Rightarrow> returnA (unmarshal_manifest data))) w1 = (Inr (Some m), w')"
    unfolding downloadManifest_def by (rule try_cases)
  from 2 obtain u where r: "r = Inr u" by (cases r) (auto simp: returnA_def)
  from 2 [unfolded r sum.case] obtain s w2 where 3: "ReadFile (path_join [d, bf_Name file @ ManifestSuffix]) w1 = (s, w2)"
    and 4: "(case s of Inl _ \<Rightarrow> returnA None | Inr data \<Rightarrow> returnA (unmarshal_manifest data)) w2 = (Inr (Some m), w')"
    by (rule try_cases)
  from 4 obtain md where s: "s = Inr md" "unmarshal_manifest md = Some m" "w' = w2"
    by (cases s) (auto simp: returnA_def)
  show ?thesis using download_fs [OF 1 [unfolded r]] read_fs [OF 3 [unfolded s(1)]] s(2,3) by force
qed

lemma emits_downloadManifest [growing]: "emits is_download (downloadManifest sv file d)"
  unfolding downloadManifest_def by (intro growing)

lemma env_emits: "emits P m \<Longrightarrow> m w = (r, w') \<Longrightarrow> w_env w' = w_env w"
  using growsD by (fastforce simp: hist_ext_def)

lemma compare_hash_Inr:
  assumes "compare_hash file m data w = (Inr warning, w')"
  shows "warning = [] \<and> sha256_hex (w_env w) data = am_SHA256 m \<and> w' = w"
  using assms by (auto simp: compare_hash_def bindA_def get_env_def failA_def returnA_def split: if_splits)

lemma verify_bytes_Inr:
  assumes "verifyManifestBytes sv file d data w = (Inr warning, w')"
  shows "warning = missingManifestWarning \<or> warning = [] \<and> hash_agrees sv (w_env w) file d data"
proof -
  from assms obtain om w1 where 1: "downloadManifest sv file d w = (Inr om, w1)"
    and 2: "(case om of None \<Rightarrow> returnA missingManifestWarning | Some m \<Rightarrow> compare_hash file m data) w1 = (Inr warning, w')"
    unfolding verifyManifestBytes_def by (rule bind_Inr)
  show ?thesis
  proof (cases om)
    case None
    then show ?thesis using 2 by (simp add: returnA_def)
  next
    case (Some m)
    have env: "w_env w1 = w_env w" by (rule env_emits [OF emits_downloadManifest 1])
    have c: "warning = []" "sha256_hex (w_env w) data = am_SHA256 m"
      using compare_hash_Inr 2 Some env by fastforce+
    then show ?thesis using downloadManifest_Some [OF 1 [unfolded Some]] unfolding hash_agrees_def by blast
  qed
qed

lemma verify_file_Inr:
  assumes "verifyManifestFile sv file d (path_join [d, bf_Name file]) w = (Inr warning, w')"
  shows "verified sv (w_env w) file d warning"
proof -
  let ?p = "path_join [d, bf_Name file]"
  from assms obtain om w1 where 1: "downloadManifest sv file d w = (Inr om, w1)"
    and 2: "(case om of None \<Rightarrow> returnA missingManifestWarning | Some m \<Rightarrow>
       bindA (wrapA (wrapf (''opening '' @ ?p @ '' to verify'')) (OpenRead ?p)) (\<lambda>_.
       bindA (wrapA (wrapf (''hashing '' @ ?p @ '' to verify'')) (ReadFile ?p)) (compare_hash file m))) w1 = (Inr warning, w')"
    unfolding verifyManifestFile_def by (rule bind_Inr)
  show ?thesis
  proof (cases om)
    case None
    then show ?thesis using 2 by (simp add: returnA_def verified_def)
  next
    case (Some m)
    from 2 [unfolded Some option.case] obtain u data w2 w3 where o: "OpenRead ?p w1 = (Inr u, w2)"
      and rd: "ReadFile ?p w2 = (Inr data, w3)" and c: "compare_hash file m data w3 = (Inr warning, w')"
      by (auto elim!: bind_Inr simp: wrap_Inr)
    have "hist_ext w1 [] w2" "hist_ext w2 [] w3" using quietD [OF quiet_os(2) o] quietD [OF quiet_os(3) rd] by simp_all
    then have env: "w_env w3 = w_env w" using env_emits [OF emits_downloadManifest 1] by (simp add: hist_ext_def)
    have f: "w_fs w2 = w_fs w1" using o by (auto simp: OpenRead_def sysA_def tickA_def split: option.splits prod.splits)
    have r: "fs_read ?p (w_fs w1) = Inr data" using read_fs [OF rd] f by simp
    have w: "warning = []" "sha256_hex (w_env w) data = am_SHA256 m" using compare_hash_Inr [OF c] env by auto
    obtain v wy md where dm: "rk_Download (sv_rclone sv) (bf_Path file @ ManifestSuffix) d w = (Inr v, wy)"
      "fs_read (path_join [d, bf_Name file @ ManifestSuffix]) (w_fs wy) = Inr md" "unmarshal_manifest md = Some m"
      "w_fs w1 = w_fs wy" using downloadManifest_Some [OF 1 [unfolded Some]] by blast
    have "archive_data sv file d data" unfolding archive_data_def using dm(1,4) r by (metis insertCI)
    moreover have "hash_agrees sv (w_env w) file d data" unfolding hash_agrees_def using dm(1-3) w(2) by blast
    ultimately show ?thesis using w(1) unfolding verified_def by blast
  qed
qed

lemma emits_compare [growing]: "emits P (compare_hash file m data)"
  unfolding compare_hash_def by (intro growing)

lemma emits_verify [growing]:
  "emits is_download (verifyManifestFile sv file d p)" "emits is_download (verifyManifestBytes sv file d data)"
  "emits is_download (download_archive sv file d)"
  unfolding verifyManifestFile_def verifyManifestBytes_def download_archive_def by (intro growing)+

lemma emits_unzip [growing]: "emits P (unzip data)"
  unfolding unzip_def by (intro growing)

lemma emits_temp_dir [growing]: "(\<And>d. emits P (body d)) \<Longrightarrow> emits P (temp_dirA pre body)"
  unfolding temp_dirA_def by (intro growing)

lemma emits_read [growing]: "emits is_download (downloadAndRead sv file gunz)"
  unfolding downloadAndRead_def by (intro growing)

lemma guarded_after:
  assumes m: "m w = (r1, w1)" "emits is_download m" and v: "verified sv (w_env w) file d warning"
    and k: "grows k" "yields warning k" "k w1 = (r, w')"
  shows "restore_guarded sv file w r w'"
proof -
  obtain es1 where 1: "hist_ext w es1 w1" "only_downloads es1" using emitsD [OF m(2,1)] unfolding only_downloads_def by blast
  obtain es2 where 2: "hist_ext w1 es2 w'" using growsD [OF k(1,3)] by blast
  show ?thesis unfolding restore_guarded_def
    using hist_ext_trans [OF 1(1) 2] 1(2) v yields_result [OF k(2,3)] by blast
qed

text \<open>What \<open>downloadAndRead\<close> hands to the caller: the archive's bytes, decompressed, and checked or a warning.\<close>

text \<open>The bytes as the download of the archive itself left them.\<close>

definition delivered_data :: "'x services \<Rightarrow> BackupFile \<Rightarrow> string \<Rightarrow> string \<Rightarrow> bool" where
  "delivered_data sv file d data = (\<exists>wx wy u. rk_Download (sv_rclone sv) (bf_Path file) d wx = (Inr u, wy)
     \<and> fs_read (path_join [d, bf_Name file]) (w_fs wy) = Inr data)"

lemma delivered_archive: "delivered_data sv file d data \<Longrightarrow> archive_data sv file d data"
  unfolding delivered_data_def archive_data_def by blast

definition checked_data :: "'x services \<Rightarrow> os_env \<Rightarrow> BackupFile \<Rightarrow> bool \<Rightarrow> string \<Rightarrow> string \<Rightarrow> bool" where
  "checked_data sv env file gunz x warning = (\<exists>d data. delivered_data sv file d data
     \<and> (if gunz then gunzip env data = Inr x else x = data)
     \<and> (warning = missingManifestWarning \<or> warning = [] \<and> hash_agrees sv env file d data))"

lemma checked_data_verified: "checked_data sv env file gunz x warning \<Longrightarrow> \<exists>d. verified sv env file d warning"
  unfolding checked_data_def verified_def using delivered_archive by blast

lemma temp_dir_Inr:
  assumes "temp_dirA pre body w = (Inr v, w')"
  obtains d w1 w2 where "hist_ext w [] w1" "body d w1 = (Inr v, w2)" "hist_ext w2 [] w'"
proof -
  from assms obtain d w1 where 1: "MkdirTemp pre w = (Inr d, w1)" and 2: "cleanupA (RemoveAll d) (body d) w1 = (Inr v, w')"
    unfolding temp_dirA_def by (rule bind_Inr) (simp add: wrap_Inr)
  from 2 obtain w2 u where 3: "body d w1 = (Inr v, w2)" "RemoveAll d w2 = (u, w')" by (rule cleanup_Inr)
  show thesis using that [OF _ 3(1)] quietD [OF quiet_mkdir_temp 1] quietD [OF quiet_os(7) 3(2)] by simp
qed

lemma downloadAndRead_Inr:
  assumes "downloadAndRead sv file gunz w = (Inr (x, warning), w')"
  shows "checked_data sv (w_env w) file gunz x warning"
proof -
  let ?p = "\<lambda>d. path_join [d, bf_Name file]"
  from assms obtain d w1 w2 where h: "hist_ext w [] w1"
    and b: "bindA (download_archive sv file d) (\<lambda>_. bindA (wrapA (wrapf ''reading downloaded file'') (ReadFile (?p d))) (\<lambda>data.
      bindA (verifyManifestBytes sv file d data) (\<lambda>warning. if \<not> gunz then returnA (data, warning)
        else bindA (unzip data) (\<lambda>plain. returnA (plain, warning))))) w1 = (Inr (x, warning), w2)"
    unfolding downloadAndRead_def by (rule temp_dir_Inr)
  from b obtain u w3 data w4 warn w5 where dl: "Download sv (bf_Path file) d w1 = (Inr u, w3)"
    and rd: "ReadFile (?p d) w3 = (Inr data, w4)" and vf: "verifyManifestBytes sv file d data w4 = (Inr warn, w5)"
    and gz: "(if \<not> gunz then returnA (data, warn) else bindA (unzip data) (\<lambda>plain. returnA (plain, warn))) w5 = (Inr (x, warning), w2)"
    unfolding download_archive_def by (elim bind_Inr) (auto simp: wrap_Inr)
  have "emits is_download (download_archive sv file d)" by (rule emits_verify)
  then have e3: "w_env w3 = w_env w"
    using h env_emits [of is_download "download_archive sv file d" w1 "Inr u" w3] dl
    by (simp add: download_archive_def wrap_Inr hist_ext_def)
  have e4: "w_env w4 = w_env w" using quietD [OF quiet_os(3) rd] e3 by (simp add: hist_ext_def)
  have e5: "w_env w5 = w_env w" using env_emits [OF emits_verify(2) vf] e4 by simp
  obtain wy where "rk_Download (sv_rclone sv) (bf_Path file) d w1 = (Inr u, wy)" "w_fs w3 = w_fs wy"
    using download_fs [OF dl] by blast
  then have "delivered_data sv file d data" using read_fs [OF rd] unfolding delivered_data_def by auto
  moreover have "warn = missingManifestWarning \<or> warn = [] \<and> hash_agrees sv (w_env w) file d data"
    using verify_bytes_Inr [OF vf] e4 by simp
  moreover have "warning = warn \<and> (if gunz then gunzip (w_env w) data = Inr x else x = data)"
    using gz e5 by (auto simp: returnA_def unzip_def failA_def get_env_def elim!: bind_Inr split: if_splits sum.splits)
  ultimately show ?thesis unfolding checked_data_def by blast
qed

lemma checked_file_guarded:
  assumes a: "\<And>d. grows (apply_file d)" and r: "with_checked_file sv job file apply_file w = (r, w')"
  shows "restore_guarded sv file w r w'"
  using _ r [unfolded with_checked_file_def]
proof (rule guarded_temp_dir)
  fix d w1 w2 r
  assume "bindA (download_archive sv file d) (\<lambda>_. bindA (verifyManifestFile sv file d (path_join [d, bf_Name file]))
    (\<lambda>warning. bindA (apply_file d) (\<lambda>_. returnA warning))) w1 = (r, w2)"
  then show "restore_guarded sv file w1 r w2"
  proof (rule guarded_bind [OF emits_verify(3), rotated])
    fix v w1 w2 r
    let ?v = "verifyManifestFile sv file d (path_join [d, bf_Name file])"
    let ?k = "\<lambda>warning. bindA (apply_file d) (\<lambda>_. returnA warning)"
    assume b: "bindA ?v ?k w1 = (r, w2)"
    obtain s w3 where 1: "?v w1 = (s, w3)" by force
    show "restore_guarded sv file w1 r w2"
    proof (cases s)
      case (Inl e)
      then have r: "r = Inl e" "w3 = w2" using b 1 by (simp_all add: bindA_def)
      then show ?thesis using emitsD [OF emits_verify(1) 1] guarded_fails unfolding only_downloads_def by blast
    next
      case (Inr warning)
      have k: "?k warning w3 = (r, w2)" using b 1 Inr by (simp add: bindA_def)
      have "grows (?k warning)" by (intro growing a)
      moreover have "yields warning (?k warning)" by (intro yielding)
      ultimately show ?thesis using guarded_after [OF 1 emits_verify(1) verify_file_Inr [OF 1 [unfolded Inr]]] k by blast
    qed
  qed
qed

lemma read_guarded:
  assumes g: "\<And>x warning. grows (k x warning)" and y: "\<And>x warning. yields warning (k x warning)"
    and r: "bindA (downloadAndRead sv file gunz) (\<lambda>(x, warning). k x warning) w = (r, w')"
  shows "restore_guarded sv file w r w'"
proof -
  obtain s w1 where 1: "downloadAndRead sv file gunz w = (s, w1)" by force
  show ?thesis
  proof (cases s)
    case (Inl e)
    then have "r = Inl e" "w1 = w'" using r 1 by (simp_all add: bindA_def)
    then show ?thesis using emitsD [OF emits_read 1] guarded_fails unfolding only_downloads_def by blast
  next
    case (Inr xw)
    obtain x warning where xw: "xw = (x, warning)" by force
    have k: "k x warning w1 = (r, w')" using r 1 Inr xw by (simp add: bindA_def)
    obtain d where "verified sv (w_env w) file d warning"
      using checked_data_verified downloadAndRead_Inr 1 Inr xw by blast
    then show ?thesis using guarded_after [OF 1 emits_read] g y k by blast
  qed
qed

lemma fail_guarded: "failA e w = (r, w') \<Longrightarrow> restore_guarded sv file w r w'"
  using guarded_fails [OF hist_ext_refl] by (auto simp: failA_def only_downloads_def)

definition is_stop :: "call \<Rightarrow> bool" where
  "is_stop c = (case c of CStop _ \<Rightarrow> True | _ \<Rightarrow> False)"

definition is_start :: "call \<Rightarrow> bool" where
  "is_start c = (case c of CStart _ \<Rightarrow> True | _ \<Rightarrow> False)"

definition allowed :: "bool \<Rightarrow> call \<Rightarrow> bool" where
  "allowed stops c = ((is_stop c \<longrightarrow> stops) \<and> \<not> is_start c)"

lemma allowed_call [growing]:
  "allowed b (CRun i m cmd)" "allowed b (CExec n cmd e x)" "allowed True (CStop n)" "allowed b (CCp p q)" "allowed b (CDownload p q)"
  by (simp_all add: allowed_def is_stop_def is_start_def)

text \<open>The contract of a restore strategy: nothing but downloads before the check, and what it does to containers.\<close>

locale restorer =
  fixes body :: "'x services \<Rightarrow> Job \<Rightarrow> BackupFile \<Rightarrow> (string, 'x) act" and stops :: bool
  assumes guarded: "body sv job file w = (r, w') \<Longrightarrow> restore_guarded sv file w r w'"
    and calls: "emits (allowed stops) (body sv job file)"
begin

lemma guarded_case: "case body sv job file w of (r, w') \<Rightarrow> restore_guarded sv file w r w'"
  using guarded by (simp split: prod.split)

lemma calls_case: "\<exists>es. w_hist (snd (body sv job file w)) = w_hist w @ es \<and> list_all (\<lambda>e. allowed stops (fst e)) es"
  using calls unfolding emits_def hist_ext_def by blast

text \<open>If every usable manifest names another hash than the archive's, the restore is refused.\<close>

lemma mismatch_refused:
  assumes "body sv job file w = (r, w')" and "\<And>d data. archive_data sv file d data \<Longrightarrow> \<not> hash_agrees sv (w_env w) file d data"
    and "r \<noteq> Inr missingManifestWarning"
  shows "\<exists>e. r = Inl e"
  using guarded [OF assms(1)] assms(2,3) unfolding restore_guarded_def verified_def by (cases r) auto

end

lemma emits_checked_file [growing]:
  "(\<And>d. emits (allowed b) (f d)) \<Longrightarrow> emits (allowed b) (with_checked_file sv job file f)"
  "emits (allowed b) (downloadAndRead sv file gunz)"
  unfolding with_checked_file_def download_archive_def verifyManifestFile_def verifyManifestBytes_def
    downloadManifest_def downloadAndRead_def
  by (intro growing; assumption)+

lemma emits_extract [growing]: "(\<And>i m c. P (CRun i m c)) \<Longrightarrow> emits P (extract_archive sv file what src d)"
  unfolding extract_archive_def by (intro growing; assumption)

lemma emits_stop [growing]: "P (CStop (j_ContainerName job)) \<Longrightarrow> emits P (stop_container sv job)"
  unfolding stop_container_def by (intro growing)

lemma emits_feed [growing]: "emits (allowed b) (feed sv job file gunz what cmd env)"
  unfolding feed_def by (intro growing)

lemma feed_guarded: "feed sv job file gunz what cmd env w = (r, w') \<Longrightarrow> restore_guarded sv file w r w'"
  unfolding feed_def by (erule read_guarded [rotated -1]) (intro growing yielding)+

interpretation standard_restorer: restorer StandardRestorer_Restore False
proof
  show "restore_guarded sv bf w r w'" if "StandardRestorer_Restore sv job bf w = (r, w')" for sv job bf w r w'
    using that unfolding StandardRestorer_Restore_def
    by (auto split: if_splits dest: fail_guarded elim!: checked_file_guarded [rotated] intro!: growing)
qed (auto simp: StandardRestorer_Restore_def intro!: growing)

interpretation hostdir_restorer: restorer HostdirRestorer_Restore False
proof
  show "restore_guarded sv bf w r w'" if "HostdirRestorer_Restore sv job bf w = (r, w')" for sv job bf w r w'
    using that unfolding HostdirRestorer_Restore_def
    by (auto split: if_splits dest: fail_guarded elim!: checked_file_guarded [rotated] intro!: growing)
qed (auto simp: HostdirRestorer_Restore_def intro!: growing)

interpretation n8n_restorer: restorer N8nRestorer_Restore True
proof
  show "restore_guarded sv bf w r w'" if "N8nRestorer_Restore sv job bf w = (r, w')" for sv job bf w r w'
    using that unfolding N8nRestorer_Restore_def
    by (auto split: if_splits dest: fail_guarded elim!: checked_file_guarded [rotated] intro!: growing)
qed (auto simp: N8nRestorer_Restore_def intro!: growing)

interpretation redis_restorer: restorer RedisRestorer_Restore True
proof
  show "restore_guarded sv bf w r w'" if "RedisRestorer_Restore sv job bf w = (r, w')" for sv job bf w r w'
    using that unfolding RedisRestorer_Restore_def
    by (auto split: if_splits dest: fail_guarded elim!: checked_file_guarded [rotated] intro!: growing)
qed (auto simp: RedisRestorer_Restore_def intro!: growing)

interpretation postgres_restorer: restorer PostgresRestorer_Restore False
  by unfold_locales
    (auto simp: PostgresRestorer_Restore_def split: if_splits dest: fail_guarded feed_guarded intro!: growing)

interpretation mysql_restorer: restorer MysqlRestorer_Restore False
  by unfold_locales
    (auto simp: MysqlRestorer_Restore_def split: if_splits dest: fail_guarded feed_guarded intro!: growing)

interpretation mongodb_restorer: restorer MongodbRestorer_Restore False
  by unfold_locales
    (auto simp: MongodbRestorer_Restore_def split: if_splits dest: fail_guarded feed_guarded intro!: growing)

interpretation rabbitmq_restorer: restorer RabbitmqRestorer_Restore False
proof
  show "restore_guarded sv bf w r w'" if "RabbitmqRestorer_Restore sv job bf w = (r, w')" for sv job bf w r w'
    using that unfolding RabbitmqRestorer_Restore_def
    by (auto split: if_splits dest: fail_guarded elim!: read_guarded [rotated -1] intro!: growing yielding)
qed (auto simp: RabbitmqRestorer_Restore_def intro!: growing)

lemmas guards = standard_restorer.guarded_case postgres_restorer.guarded_case mysql_restorer.guarded_case
  mongodb_restorer.guarded_case redis_restorer.guarded_case n8n_restorer.guarded_case hostdir_restorer.guarded_case
  rabbitmq_restorer.guarded_case


lemmas container_calls = standard_restorer.calls_case postgres_restorer.calls_case mysql_restorer.calls_case
  mongodb_restorer.calls_case redis_restorer.calls_case n8n_restorer.calls_case hostdir_restorer.calls_case
  rabbitmq_restorer.calls_case

text \<open>C25: Only the strategies that \<open>StopsContainerDuringRestore\<close> names stop a container, and none starts one;
  so the caller's question whether to start the container again is asked for the right ones.\<close>

theorem Restore_container_state:
  "list_all (\<lambda>(nm, body). \<exists>es. w_hist (snd (body sv job file w)) = w_hist w @ es
     \<and> list_all (\<lambda>(c, ok). if is_stop c then StopsContainerDuringRestore nm else \<not> is_start c) es) restorers"
proof -
  have "allowed s c \<Longrightarrow> if is_stop c then s else \<not> is_start c" for s c by (auto simp: allowed_def)
  then have weaken: "\<exists>es. h = h0 @ es \<and> list_all (\<lambda>(c, ok). if is_stop c then StopsContainerDuringRestore nm else \<not> is_start c) es"
    if "\<exists>es. h = h0 @ es \<and> list_all (\<lambda>e. allowed s (fst e)) es" "StopsContainerDuringRestore nm = s"
    for h h0 s nm using that by (fastforce elim: list.pred_mono_strong)
  show ?thesis unfolding restorers_def list.pred_inject prod.case
    by (intro conjI list.pred_inject(1) TrueI; rule weaken, rule container_calls)
      (simp_all add: StopsContainerDuringRestore_def stopsContainer_def)
qed

section \<open>What is fed to a database\<close>

definition fed ::
  "'x services \<Rightarrow> Job \<Rightarrow> BackupFile \<Rightarrow> bool \<Rightarrow> string list \<Rightarrow> smap \<Rightarrow> 'x world \<Rightarrow> string \<Rightarrow> 'x world \<Rightarrow> bool" where
  "fed sv job file gunz cmd env w warning w' = (\<exists>es x. w_hist w' = w_hist w @ es @ [(CExec (j_ContainerName job) cmd env (Some x), True)]
     \<and> only_downloads es \<and> checked_data sv (w_env w) file gunz x warning)"

lemma feed_Inr:
  assumes "feed sv job file gunz what cmd env w = (Inr warning, w')"
  shows "fed sv job file gunz cmd env w warning w'"
proof -
  from assms obtain x warn w1 where 1: "downloadAndRead sv file gunz w = (Inr (x, warn), w1)"
    and 2: "bindA (wrapA (wrapf what) (Exec sv (j_ContainerName job) cmd env (Some x))) (\<lambda>_. returnA warn) w1 = (Inr warning, w')"
    unfolding feed_def by (elim bind_Inr) auto
  obtain es where es: "hist_ext w es w1" "only_downloads es" using emitsD [OF emits_read 1] unfolding only_downloads_def by blast
  from 2 obtain out w2 where 3: "Exec sv (j_ContainerName job) cmd env (Some x) w1 = (Inr out, w2)" and "w2 = w'" "warn = warning"
    by (auto elim!: bind_Inr simp: wrap_Inr return_Inr)
  then have "w_hist w' = w_hist w1 @ [(CExec (j_ContainerName job) cmd env (Some x), True)]"
    by (auto simp: Exec_def callA_def tickA_def split: prod.splits)
  then show ?thesis unfolding fed_def using es downloadAndRead_Inr [OF 1] \<open>warn = warning\<close>
    by (auto simp: hist_ext_def)
qed

text \<open>C13: A database receives the checked archive and nothing else. When the postgres, the mysql or the mongodb
  restore succeeds, its calls are downloads followed by one call into the container, whose input is
  the archive's bytes (decompressed for the first two), and these bytes have the SHA-256 of the
  downloaded manifest unless the restore reports the missing-manifest warning.\<close>

theorem database_restore_input:
  "(case PostgresRestorer_Restore sv job file w of (Inl _, _) \<Rightarrow> True
    | (Inr warning, w') \<Rightarrow> fed sv job file True
        [''psql'', ''-U'', mget (j_Credentials job) ''POSTGRES_USER'', mget (j_Credentials job) ''POSTGRES_DB'']
        (env_if ''PGPASSWORD'' (mget (j_Credentials job) ''POSTGRES_PASSWORD'')) w warning w')
   \<and> (case MysqlRestorer_Restore sv job file w of (Inl _, _) \<Rightarrow> True
    | (Inr warning, w') \<Rightarrow> fed sv job file True [''mysql'', ''-u'', ''root'', mget (j_Credentials job) ''MYSQL_DATABASE'']
        [(''MYSQL_PWD'', mget (j_Credentials job) ''MYSQL_ROOT_PASSWORD'')] w warning w')
   \<and> (case MongodbRestorer_Restore sv job file w of (Inl _, _) \<Rightarrow> True
    | (Inr warning, w') \<Rightarrow> fed sv job file False
        ([''mongorestore'', ''--archive'', ''--gzip'', ''--drop''] @ mongo_auth job) [] w warning w')"
  unfolding PostgresRestorer_Restore_def MysqlRestorer_Restore_def MongodbRestorer_Restore_def
  by (auto simp: failA_def split: prod.split sum.split dest!: feed_Inr)

section \<open>The manifest of a backup serves its restore\<close>

lemma set_time_json: "four_digit_year t \<Longrightarrow> set_time (JStr (format_rfc3339nano t)) upd x = Some (upd t)"
  using parse_format_rfc3339nano [of t] by (simp add: set_time_def)

lemma manifest_roundtrip:
  assumes "int64 (am_SizeBytes m)" and "four_digit_year (am_CreatedAt m)"
  shows "unmarshal_manifest (MarshalIndent (manifest_json m)) = Some m"
proof -
  have "int_json (manifest_json m)" by (simp add: manifest_json_def)
  then have "json_parse (MarshalIndent (manifest_json m)) = Some (manifest_json m)" by (simp add: json_roundtrip)
  moreover have "unmarshal_struct manifest_fields set_manifest (manifest_json m) empty_manifest = Some m"
    using assms by (simp add: unmarshal_struct_def manifest_fields_def manifest_json_def set_manifest_def set_time_json empty_manifest_def)
  ultimately show ?thesis by (simp add: unmarshal_manifest_def)
qed

lemma prepare_manifest_file:
  assumes "prepare_manifest job p w = (Inr (md5, mp, st), w')" and "mp \<noteq> []"
  shows "\<exists>m data. fs_read p (w_fs w) = Inr data \<and> am_SHA256 m = sha256_hex (w_env w) data \<and> am_SizeBytes m = int (length data)
    \<and> four_digit_year (am_CreatedAt m) \<and> mp = ManifestPathFor p \<and> fs_read mp (w_fs w') = Inr (MarshalIndent (manifest_json m))"
proof -
  from assms(1) obtain mr w1 where 1: "ComputeManifest job p w = (mr, w1)" and 2: "(case mr of
       Inl e \<Rightarrow> returnA ([], [], remark ''manifest warning'' (err_msg e))
     | Inr m \<Rightarrow> tryA (WriteManifest m (ManifestPathFor p)) (\<lambda>r. case r of
           Inl e \<Rightarrow> returnA (am_MD5 m, [], remark ''manifest warning'' (err_msg e))
         | Inr _ \<Rightarrow> returnA (am_MD5 m, ManifestPathFor p, []))) w1 = (Inr (md5, mp, st), w')"
    unfolding prepare_manifest_def by (rule try_cases)
  from 2 assms(2) obtain m where m: "mr = Inr m" by (cases mr) (auto simp: returnA_def)
  from 2 [unfolded m sum.case] obtain s w2 where 3: "WriteManifest m (ManifestPathFor p) w1 = (s, w2)"
    and 4: "(case s of Inl e \<Rightarrow> returnA (am_MD5 m, [], remark ''manifest warning'' (err_msg e))
         | Inr _ \<Rightarrow> returnA (am_MD5 m, ManifestPathFor p, [])) w2 = (Inr (md5, mp, st), w')" by (rule try_cases)
  from 4 assms(2) obtain u where s: "s = Inr u" "mp = ManifestPathFor p" "w' = w2" by (cases s) (auto simp: returnA_def)
  have y: "four_digit_year (am_CreatedAt m)"
    and wf: "WriteFile (ManifestPathFor p) (MarshalIndent (manifest_json m)) 384 w1 = (Inr u, w2)"
    using 3 s(1) by (auto simp: WriteManifest_def failA_def wrap_Inr split: if_splits)
  obtain data where "fs_read p (w_fs w) = Inr data" "am_SHA256 m = sha256_hex (w_env w) data" "am_SizeBytes m = int (length data)"
    using 1 m
    by (auto simp: ComputeManifest_def OpenRead_def ReadFile_def sysA_def wrap_Inr get_env_def nowA_def returnA_def tickA_def
        elim!: bind_Inr split: option.splits prod.splits)
  then show ?thesis using y WriteFile_run(1) [OF wf] s(2,3) by blast
qed

lemma ReadFile_ok: "fault (w_env w) (w_tick w) = None \<Longrightarrow> fs_read p (w_fs w) = Inr b \<Longrightarrow> ReadFile p w = (Inr b, tickA w)"
  by (simp add: ReadFile_def sysA_def)

lemma OpenRead_ok: "fault (w_env w) (w_tick w) = None \<Longrightarrow> fs_read p (w_fs w) = Inr b \<Longrightarrow> OpenRead p w = (Inr (), tickA w)"
  by (auto simp: OpenRead_def sysA_def fs_stat_def fs_read_def split: if_splits option.splits node.splits)

text \<open>C6: A restore accepts what a backup stored, and nothing else. Let \<open>md\<close> be the manifest a backup wrote for an
  archive with bytes \<open>data\<close>. On a machine where no system call fails, if the manifest is
  delivered unchanged next to a file with bytes \<open>data'\<close>, the check passes without a warning if the
  two have the same SHA-256, and refuses the restore otherwise.\<close>

theorem backup_manifest_checks_restore:
  assumes backup: "prepare_manifest job p w = (Inr (md5, ManifestPathFor p, st), w')"
    and "fs_read p (w_fs w) = Inr data" and "fs_read (ManifestPathFor p) (w_fs w') = Inr md" and "int64 (int (length data))"
    and delivered: "rk_Download (sv_rclone sv) (bf_Path file @ ManifestSuffix) d v = (Inr u, v')"
    and "fs_read (path_join [d, bf_Name file @ ManifestSuffix]) (w_fs v') = Inr md"
    and "fs_read (path_join [d, bf_Name file]) (w_fs v') = Inr data'"
    and "\<forall>n. fault (w_env v) n = None" and "sha256_hex (w_env v) = sha256_hex (w_env w)"
  shows "fst (verifyManifestFile sv file d (path_join [d, bf_Name file]) v) =
    (if sha256_hex (w_env w) data' = sha256_hex (w_env w) data then Inr []
     else Inl (mismatch_error file (sha256_hex (w_env w) data) (sha256_hex (w_env w) data')))"
proof -
  have "ManifestPathFor p \<noteq> []" by (simp add: ManifestPathFor_def ManifestSuffix_def)
  from prepare_manifest_file [OF backup this] obtain m where m: "am_SHA256 m = sha256_hex (w_env w) data"
    "unmarshal_manifest md = Some m" using assms(2-4) manifest_roundtrip by fastforce
  let ?v = "tickA (v\<lparr>w_fs := w_fs v', w_ext := w_ext v', w_tick := w_tick v',
                    w_hist := w_hist v @ [(CDownload (bf_Path file @ ManifestSuffix) d, True)]\<rparr>)"
  have "Download sv (bf_Path file @ ManifestSuffix) d v = (Inr u, ?v)"
    using delivered by (simp add: Download_def callA_def)
  then have dm: "downloadManifest sv file d v = (Inr (Some m), tickA ?v)"
    unfolding downloadManifest_def tryA_def using assms(6,8) m(2) by (simp add: ReadFile_ok tickA_def returnA_def)
  show ?thesis unfolding verifyManifestFile_def bindA_def dm
    using assms(7-9) m(1)
    by (simp add: OpenRead_ok [of _ _ data'] ReadFile_ok wrapA_def tickA_def compare_hash_def bindA_def get_env_def failA_def returnA_def)
qed

definition sample_backup_file :: BackupFile where
  "sample_backup_file = \<lparr>bf_Name = ''a'', bf_Size = 5, bf_Modified = 0, bf_Path = ''r/a''\<rparr>"

definition sample_stored :: "unit world" where
  "sample_stored = snd (prepare_manifest sample_job ''/tmp/a'' sample_archive)"

lemma sample_prepared: "fst (prepare_manifest sample_job ''/tmp/a'' sample_archive) = Inr (''5'', ManifestPathFor ''/tmp/a'', [])"
  by code_simp

lemma sample_stored_files: "is_ok (fs_read (ManifestPathFor ''/tmp/a'') (w_fs sample_stored))"
  "fs_read ''/tmp/a'' (w_fs sample_stored) = Inr ''hello''" "fs_read ''/tmp/a'' (w_fs sample_archive) = Inr ''hello''"
  "path_join [''/tmp'', bf_Name sample_backup_file @ ManifestSuffix] = ManifestPathFor ''/tmp/a''"
  "path_join [''/tmp'', bf_Name sample_backup_file] = ''/tmp/a''" "int64 (int (length ''hello''))"
  by code_simp+

theorem backup_manifest_checks_restore_witness:
  "fst (verifyManifestFile sample_services sample_backup_file ''/tmp'' ''/tmp/a'' sample_stored) = Inr []"
proof -
  obtain md where md: "fs_read (ManifestPathFor ''/tmp/a'') (w_fs sample_stored) = Inr md"
    using sample_stored_files(1) by (auto simp: is_ok_iff)
  have p: "prepare_manifest sample_job ''/tmp/a'' sample_archive = (Inr (''5'', ManifestPathFor ''/tmp/a'', []), sample_stored)"
    using sample_prepared by (simp add: sample_stored_def prod_eq_iff)
  have a: "w_env sample_archive = sample_env"
    using quietD [OF quiet_write_file [of "''/tmp/a''" "''hello''" 384], of sample_world "fst (WriteFile ''/tmp/a'' ''hello'' 384 sample_world)" sample_archive]
    by (simp add: sample_archive_def hist_ext_def sample_world_def)
  then have e: "w_env sample_stored = sample_env" using quietD [OF quiet_prepare p] by (simp add: hist_ext_def)
  have d: "rk_Download (sv_rclone sample_services) (bf_Path sample_backup_file @ ManifestSuffix) ''/tmp'' sample_stored = (Inr (), sample_stored)"
    by (simp add: sample_services_def sample_rclone_def)
  have f: "\<forall>n. fault (w_env sample_stored) n = None" "sha256_hex (w_env sample_stored) = sha256_hex (w_env sample_archive)"
    by (simp_all add: e a sample_env_def)
  show ?thesis
    using backup_manifest_checks_restore [OF p sample_stored_files(3) md sample_stored_files(6) d _ _ f, of "''hello''"]
    by (simp add: sample_stored_files(2,4,5) md)
qed

end
