(* ===== verification/Workspace.thy ===== *)
theory Workspace
  imports Restore
begin

text \<open>
  internal/workspace: where the workspace is, its layout, config.json, the per-job files job.json and
  .env, and manifest.json. A \<open>*Workspace\<close> is its root directory. Where credentials are kept depends
  on the platform: the operations on jobs take the store as an argument, whose contract is the locale
  \<open>env_store\<close>; \<open>Env_Files\<close> and \<open>Credential_Manager\<close> provide it.
\<close>

section \<open>Layout\<close>

definition DefaultDirName :: string where
  "DefaultDirName = ''dockvault_scripts''"

definition EnvVar :: string where
  "EnvVar = ''DOCKVAULT_HOME''"

definition Home :: "string \<Rightarrow> (string, 'x) act" where
  "Home override =
     (if override \<noteq> [] then returnA override
      else bindA (get_env (\<lambda>e. getenv e EnvVar)) (\<lambda>env.
        if env \<noteq> [] then returnA env
        else bindA (get_env user_home) (\<lambda>h. case h of
          Inl e \<Rightarrow> failA e
        | Inr home \<Rightarrow> returnA (path_join [home, DefaultDirName]))))"

definition Open :: "string \<Rightarrow> (string, 'x) act" where
  "Open override = Home override"

definition LogsDir :: "string \<Rightarrow> string" where
  "LogsDir root = path_join [root, ''logs'']"

definition ConfigPath :: "string \<Rightarrow> string" where
  "ConfigPath root = path_join [root, ''config.json'']"

definition ManifestPath :: "string \<Rightarrow> string" where
  "ManifestPath root = path_join [root, ''manifest.json'']"

definition JobDir :: "string \<Rightarrow> string \<Rightarrow> string" where
  "JobDir root jobName = path_join [root, jobName]"

definition EnsureLayout :: "string \<Rightarrow> (unit, 'x) act" where
  "EnsureLayout root =
     bindA (MkdirAll root 448) (\<lambda>_.
     bindA (ignoreA (Chmod root 448)) (\<lambda>_.
     bindA (MkdirAll (LogsDir root) 448) (\<lambda>_.
     bindA (ignoreA (Chmod (LogsDir root) 448)) (\<lambda>_. returnA ()))))"

definition Exists :: "string \<Rightarrow> (bool, 'x) act" where
  "Exists root = tryA (Stat root) (\<lambda>r. case r of Inl _ \<Rightarrow> returnA False | Inr info \<Rightarrow> returnA (node_is_dir info))"

section \<open>Global configuration\<close>

record Config =
  c_RcloneRemote :: string
  c_Environment :: string
  c_RetentionDays :: int
  c_MinFilesToKeep :: int
  c_WebhookURL :: string
  c_ParallelJobs :: int
  c_LocalBackupDir :: string
  c_LocalRetentionCount :: int

definition DefaultConfig :: Config where
  "DefaultConfig = \<lparr>c_RcloneRemote = ''dockvault_backup'', c_Environment = ''stage'', c_RetentionDays = 30,
     c_MinFilesToKeep = 30, c_WebhookURL = [], c_ParallelJobs = 3, c_LocalBackupDir = [], c_LocalRetentionCount = 14\<rparr>"

definition config_json :: "Config \<Rightarrow> json" where
  "config_json c = JObj
     ([(''rclone_remote'', JStr (c_RcloneRemote c)), (''environment'', JStr (c_Environment c)),
       (''retention_days'', json_int (c_RetentionDays c)), (''min_files_to_keep'', json_int (c_MinFilesToKeep c))]
      @ omit_str ''webhook_url'' (c_WebhookURL c) @ [(''parallel_jobs'', json_int (c_ParallelJobs c))]
      @ omit_str ''local_backup_dir'' (c_LocalBackupDir c)
      @ [(''local_retention_count'', json_int (c_LocalRetentionCount c))])"

definition config_fields :: "string list" where
  "config_fields = [''rclone_remote'', ''environment'', ''retention_days'', ''min_files_to_keep'', ''webhook_url'',
     ''parallel_jobs'', ''local_backup_dir'', ''local_retention_count'']"

definition set_config :: "string \<Rightarrow> json \<Rightarrow> Config \<Rightarrow> Config option" where
  "set_config k v c =
     (if k = ''rclone_remote'' then set_string v (\<lambda>s. c\<lparr>c_RcloneRemote := s\<rparr>) c
      else if k = ''environment'' then set_string v (\<lambda>s. c\<lparr>c_Environment := s\<rparr>) c
      else if k = ''retention_days'' then set_int v (\<lambda>n. c\<lparr>c_RetentionDays := n\<rparr>) c
      else if k = ''min_files_to_keep'' then set_int v (\<lambda>n. c\<lparr>c_MinFilesToKeep := n\<rparr>) c
      else if k = ''webhook_url'' then set_string v (\<lambda>s. c\<lparr>c_WebhookURL := s\<rparr>) c
      else if k = ''parallel_jobs'' then set_int v (\<lambda>n. c\<lparr>c_ParallelJobs := n\<rparr>) c
      else if k = ''local_backup_dir'' then set_string v (\<lambda>s. c\<lparr>c_LocalBackupDir := s\<rparr>) c
      else set_int v (\<lambda>n. c\<lparr>c_LocalRetentionCount := n\<rparr>) c)"

definition unmarshal_config :: "string \<Rightarrow> Config option" where
  "unmarshal_config s = Option.bind (json_parse s) (\<lambda>v. unmarshal_struct config_fields set_config v DefaultConfig)"

definition default_local :: "string \<Rightarrow> Config \<Rightarrow> Config" where
  "default_local root cfg =
     (if c_LocalBackupDir cfg = [] then cfg\<lparr>c_LocalBackupDir := path_join [root, ''local_backups'']\<rparr> else cfg)"

definition LoadConfig :: "string \<Rightarrow> (Config, 'x) act" where
  "LoadConfig root =
     tryA (ReadFile (ConfigPath root)) (\<lambda>r. case r of
       Inl e \<Rightarrow> if err_kind e = KNotExist
               then returnA (DefaultConfig\<lparr>c_LocalBackupDir := path_join [root, ''local_backups'']\<rparr>)
               else failA e
     | Inr data \<Rightarrow> (case unmarshal_config data of
         None \<Rightarrow> failA unmarshal_error
       | Some cfg \<Rightarrow> returnA (default_local root cfg)))"

definition SaveConfig :: "string \<Rightarrow> Config \<Rightarrow> (unit, 'x) act" where
  "SaveConfig root cfg =
     bindA (EnsureLayout root) (\<lambda>_. WriteFile (ConfigPath root) (MarshalIndent (config_json cfg)) 384)"

section \<open>Jobs\<close>

definition envWebhookKey :: string where
  "envWebhookKey = ''DOCKVAULT_WEBHOOK_URL''"

record JobConfig =
  jc_Name :: string
  jc_BackupType :: string
  jc_ServiceType :: string
  jc_VolumeID :: string
  jc_VolumeIdentifier :: string
  jc_HostPath :: string
  jc_ContainerName :: string
  jc_GoogleDrivePath :: string
  jc_RetentionDays :: int
  jc_MinFilesToKeep :: int
  jc_LocalBackupDir :: string
  jc_LocalRetentionCount :: int

definition JobConfigPath :: "string \<Rightarrow> string \<Rightarrow> string" where
  "JobConfigPath root jobName = path_join [JobDir root jobName, ''job.json'']"

definition EnvPath :: "string \<Rightarrow> string \<Rightarrow> string" where
  "EnvPath root jobName = path_join [JobDir root jobName, ''.env'']"

text \<open>\<open>saveEnv\<close> and \<open>loadEnv\<close> of the platform the program is built for.\<close>

record 'x EnvStore =
  es_save :: "string \<Rightarrow> string \<Rightarrow> smap \<Rightarrow> (unit, 'x) act"
  es_load :: "string \<Rightarrow> string \<Rightarrow> (smap, 'x) act"

definition job_config :: "Job \<Rightarrow> JobConfig" where
  "job_config job = \<lparr>jc_Name = j_Name job, jc_BackupType = j_BackupType job, jc_ServiceType = j_ServiceType job,
     jc_VolumeID = j_VolumeID job, jc_VolumeIdentifier = j_VolumeIdentifier job, jc_HostPath = j_HostPath job,
     jc_ContainerName = j_ContainerName job, jc_GoogleDrivePath = j_GoogleDrivePath job,
     jc_RetentionDays = j_RetentionDays job, jc_MinFilesToKeep = j_MinFilesToKeep job,
     jc_LocalBackupDir = j_LocalBackupDir job, jc_LocalRetentionCount = j_LocalRetentionCount job\<rparr>"

definition job_json :: "JobConfig \<Rightarrow> json" where
  "job_json c = JObj
     ([(''name'', JStr (jc_Name c)), (''backup_type'', JStr (jc_BackupType c)), (''service_type'', JStr (jc_ServiceType c))]
      @ omit_str ''volume_id'' (jc_VolumeID c) @ omit_str ''volume_identifier'' (jc_VolumeIdentifier c)
      @ omit_str ''host_path'' (jc_HostPath c) @ omit_str ''container_name'' (jc_ContainerName c)
      @ [(''google_drive_path'', JStr (jc_GoogleDrivePath c)), (''retention_days'', json_int (jc_RetentionDays c)),
         (''min_files_to_keep'', json_int (jc_MinFilesToKeep c))]
      @ omit_str ''local_backup_dir'' (jc_LocalBackupDir c)
      @ [(''local_retention_count'', json_int (jc_LocalRetentionCount c))])"

definition job_fields :: "string list" where
  "job_fields = [''name'', ''backup_type'', ''service_type'', ''volume_id'', ''volume_identifier'', ''host_path'',
     ''container_name'', ''google_drive_path'', ''retention_days'', ''min_files_to_keep'', ''local_backup_dir'',
     ''local_retention_count'']"

definition set_job :: "string \<Rightarrow> json \<Rightarrow> JobConfig \<Rightarrow> JobConfig option" where
  "set_job k v c =
     (if k = ''name'' then set_string v (\<lambda>s. c\<lparr>jc_Name := s\<rparr>) c
      else if k = ''backup_type'' then set_string v (\<lambda>s. c\<lparr>jc_BackupType := s\<rparr>) c
      else if k = ''service_type'' then set_string v (\<lambda>s. c\<lparr>jc_ServiceType := s\<rparr>) c
      else if k = ''volume_id'' then set_string v (\<lambda>s. c\<lparr>jc_VolumeID := s\<rparr>) c
      else if k = ''volume_identifier'' then set_string v (\<lambda>s. c\<lparr>jc_VolumeIdentifier := s\<rparr>) c
      else if k = ''host_path'' then set_string v (\<lambda>s. c\<lparr>jc_HostPath := s\<rparr>) c
      else if k = ''container_name'' then set_string v (\<lambda>s. c\<lparr>jc_ContainerName := s\<rparr>) c
      else if k = ''google_drive_path'' then set_string v (\<lambda>s. c\<lparr>jc_GoogleDrivePath := s\<rparr>) c
      else if k = ''retention_days'' then set_int v (\<lambda>n. c\<lparr>jc_RetentionDays := n\<rparr>) c
      else if k = ''min_files_to_keep'' then set_int v (\<lambda>n. c\<lparr>jc_MinFilesToKeep := n\<rparr>) c
      else if k = ''local_backup_dir'' then set_string v (\<lambda>s. c\<lparr>jc_LocalBackupDir := s\<rparr>) c
      else set_int v (\<lambda>n. c\<lparr>jc_LocalRetentionCount := n\<rparr>) c)"

definition empty_job_config :: JobConfig where
  "empty_job_config = \<lparr>jc_Name = [], jc_BackupType = [], jc_ServiceType = [], jc_VolumeID = [], jc_VolumeIdentifier = [],
     jc_HostPath = [], jc_ContainerName = [], jc_GoogleDrivePath = [], jc_RetentionDays = 0, jc_MinFilesToKeep = 0,
     jc_LocalBackupDir = [], jc_LocalRetentionCount = 0\<rparr>"

definition unmarshal_job :: "string \<Rightarrow> JobConfig option" where
  "unmarshal_job s = Option.bind (json_parse s) (\<lambda>v. unmarshal_struct job_fields set_job v empty_job_config)"

definition job_env :: "Job \<Rightarrow> smap" where
  "job_env job = (let env = foldr (\<lambda>(k, v). mput k v) (j_Credentials job) []
     in if j_WebhookURL job \<noteq> [] then mput envWebhookKey (j_WebhookURL job) env else env)"

definition SaveJob :: "'x EnvStore \<Rightarrow> string \<Rightarrow> Job \<Rightarrow> (unit, 'x) act" where
  "SaveJob es root job =
     bindA (wrapA (wrapf (''creating job directory for '' @ quote (j_Name job))) (MkdirAll (JobDir root (j_Name job)) 448)) (\<lambda>_.
     bindA (ignoreA (Chmod (JobDir root (j_Name job)) 448)) (\<lambda>_.
     bindA (wrapA (wrapf (''writing job.json for '' @ quote (j_Name job)))
              (WriteFile (JobConfigPath root (j_Name job)) (MarshalIndent (job_json (job_config job))) 384)) (\<lambda>_.
       if job_env job = [] then returnA () else es_save es root (j_Name job) (job_env job))))"

definition job_of :: "JobConfig \<Rightarrow> smap \<Rightarrow> Job" where
  "job_of cfg env = \<lparr>j_Name = jc_Name cfg, j_BackupType = jc_BackupType cfg, j_VolumeID = jc_VolumeID cfg,
     j_VolumeIdentifier = jc_VolumeIdentifier cfg, j_HostPath = jc_HostPath cfg, j_ContainerName = jc_ContainerName cfg,
     j_ServiceType = jc_ServiceType cfg, j_Credentials = filter (\<lambda>(k, v). k \<noteq> envWebhookKey) env,
     j_GoogleDrivePath = jc_GoogleDrivePath cfg, j_RetentionDays = jc_RetentionDays cfg,
     j_MinFilesToKeep = jc_MinFilesToKeep cfg, j_WebhookURL = mget env envWebhookKey,
     j_LocalBackupDir = jc_LocalBackupDir cfg, j_LocalRetentionCount = jc_LocalRetentionCount cfg,
     j_LastBackup = None, j_LastBackupStatus = []\<rparr>"

definition LoadJob :: "'x EnvStore \<Rightarrow> string \<Rightarrow> string \<Rightarrow> (Job, 'x) act" where
  "LoadJob es root jobName =
     bindA (wrapA (wrapf (''loading job '' @ quote jobName)) (ReadFile (JobConfigPath root jobName))) (\<lambda>data.
       case unmarshal_job data of
         None \<Rightarrow> failA (wrapf (''parsing job '' @ quote jobName) unmarshal_error)
       | Some cfg \<Rightarrow> bindA (es_load es root jobName) (\<lambda>env. returnA (job_of cfg env)))"

text \<open>The directories among the entries that have a job.json.\<close>

definition ListJobNames :: "string \<Rightarrow> (string list, 'x) act" where
  "ListJobNames root =
     tryA (ReadDir root) (\<lambda>r. case r of
       Inl e \<Rightarrow> if err_kind e = KNotExist then returnA [] else failA (wrapf (''reading workspace '' @ quote root) e)
     | Inr entries \<Rightarrow>
         bindA (forA entries (\<lambda>e names.
                  if \<not> node_is_dir (snd e) then returnA names
                  else tryA (Stat (path_join [root, fst e, ''job.json''])) (\<lambda>r. case r of
                         Inl _ \<Rightarrow> returnA names
                       | Inr _ \<Rightarrow> returnA (names @ [fst e]))) []) (\<lambda>names. returnA (sort names)))"

definition LoadAllJobs :: "'x EnvStore \<Rightarrow> string \<Rightarrow> (Job list \<times> error list, 'x) act" where
  "LoadAllJobs es root =
     tryA (ListJobNames root) (\<lambda>r. case r of
       Inl e \<Rightarrow> returnA ([], [e])
     | Inr names \<Rightarrow> forA names (\<lambda>nm (jobs, errs). tryA (LoadJob es root nm) (\<lambda>r. case r of
         Inl e \<Rightarrow> returnA (jobs, errs @ [e])
       | Inr job \<Rightarrow> returnA (jobs @ [job], errs))) ([], []))"

section \<open>The history of the jobs\<close>

record ManifestEntry =
  me_JobName :: string
  me_ServiceType :: string
  me_LastBackup :: "instant option"
  me_LastBackupStatus :: string
  me_LastSizeBytes :: int

text \<open>A \<open>Manifest\<close> is its list of entries.\<close>

type_synonym Manifest = "ManifestEntry list"

fun Upsert :: "ManifestEntry \<Rightarrow> Manifest \<Rightarrow> Manifest" where
  "Upsert x [] = [x]"
| "Upsert x (e # es) = (if me_JobName e = me_JobName x then x # es else e # Upsert x es)"

definition entry_json :: "ManifestEntry \<Rightarrow> json" where
  "entry_json e = JObj
     ([(''job_name'', JStr (me_JobName e)), (''service_type'', JStr (me_ServiceType e))]
      @ (case me_LastBackup e of None \<Rightarrow> [] | Some t \<Rightarrow> [(''last_backup'', JStr (format_rfc3339nano t))])
      @ omit_str ''last_backup_status'' (me_LastBackupStatus e)
      @ (if me_LastSizeBytes e = 0 then [] else [(''last_size_bytes'', json_int (me_LastSizeBytes e))]))"

text \<open>A nil slice is \<open>null\<close>.\<close>

definition history_json :: "Manifest \<Rightarrow> json" where
  "history_json m = JObj [(''jobs'', if m = [] then JNull else JArr (map entry_json m))]"

definition entry_fields :: "string list" where
  "entry_fields = [''job_name'', ''service_type'', ''last_backup'', ''last_backup_status'', ''last_size_bytes'']"

definition set_entry :: "string \<Rightarrow> json \<Rightarrow> ManifestEntry \<Rightarrow> ManifestEntry option" where
  "set_entry k v e =
     (if k = ''job_name'' then set_string v (\<lambda>s. e\<lparr>me_JobName := s\<rparr>) e
      else if k = ''service_type'' then set_string v (\<lambda>s. e\<lparr>me_ServiceType := s\<rparr>) e
      else if k = ''last_backup'' then
        (case v of JNull \<Rightarrow> Some (e\<lparr>me_LastBackup := None\<rparr>) | _ \<Rightarrow> set_time v (\<lambda>t. e\<lparr>me_LastBackup := Some t\<rparr>) e)
      else if k = ''last_backup_status'' then set_string v (\<lambda>s. e\<lparr>me_LastBackupStatus := s\<rparr>) e
      else set_int v (\<lambda>n. e\<lparr>me_LastSizeBytes := n\<rparr>) e)"

definition empty_entry :: ManifestEntry where
  "empty_entry = \<lparr>me_JobName = [], me_ServiceType = [], me_LastBackup = None, me_LastBackupStatus = [], me_LastSizeBytes = 0\<rparr>"

definition set_jobs :: "string \<Rightarrow> json \<Rightarrow> Manifest \<Rightarrow> Manifest option" where
  "set_jobs k v m =
     (case v of
        JArr xs \<Rightarrow> those (map (\<lambda>x. unmarshal_struct entry_fields set_entry x empty_entry) xs)
      | JNull \<Rightarrow> Some []
      | _ \<Rightarrow> None)"

definition unmarshal_history :: "string \<Rightarrow> Manifest option" where
  "unmarshal_history s = Option.bind (json_parse s) (\<lambda>v. unmarshal_struct [''jobs''] set_jobs v [])"

definition LoadManifest :: "string \<Rightarrow> (Manifest, 'x) act" where
  "LoadManifest root =
     tryA (ReadFile (ManifestPath root)) (\<lambda>r. case r of
       Inl e \<Rightarrow> if err_kind e = KNotExist then returnA [] else failA e
     | Inr data \<Rightarrow> (case unmarshal_history data of None \<Rightarrow> failA unmarshal_error | Some m \<Rightarrow> returnA m))"

definition SaveManifest :: "string \<Rightarrow> Manifest \<Rightarrow> (unit, 'x) act" where
  "SaveManifest root m =
     bindA (EnsureLayout root) (\<lambda>_.
       if \<not> list_all (\<lambda>e. case me_LastBackup e of None \<Rightarrow> True | Some t \<Rightarrow> four_digit_year t) m then failA year_error
       else WriteFile (ManifestPath root) (MarshalIndent (history_json m)) 384)"

section \<open>Round trips\<close>

lemma unmarshal_struct_JObj: "unmarshal_struct fl f (JObj ms) x = fill fl f ms x"
  by (simp add: unmarshal_struct_def)

lemma fill_omit [simp]:
  "k \<in> set fl \<Longrightarrow> fill fl f (omit_str k s) x = (if s = [] then Some x else f k (JStr s) x)"
  by (cases "f k (JStr s) x") (simp_all add: omit_str_def)

lemma config_roundtrip:
  assumes "int64 (c_RetentionDays c)" "int64 (c_MinFilesToKeep c)" "int64 (c_ParallelJobs c)" "int64 (c_LocalRetentionCount c)"
  shows "unmarshal_config (MarshalIndent (config_json c)) = Some c"
proof -
  have "int_json (config_json c)" by (auto simp: config_json_def)
  then have "json_parse (MarshalIndent (config_json c)) = Some (config_json c)" by (simp add: json_roundtrip)
  moreover have "unmarshal_struct config_fields set_config (config_json c) DefaultConfig = Some c"
    unfolding config_json_def unmarshal_struct_JObj fill_append
    using assms by (simp add: config_fields_def set_config_def DefaultConfig_def)
  ultimately show ?thesis by (simp add: unmarshal_config_def)
qed

lemma job_config_roundtrip:
  assumes "int64 (jc_RetentionDays c)" "int64 (jc_MinFilesToKeep c)" "int64 (jc_LocalRetentionCount c)"
  shows "unmarshal_job (MarshalIndent (job_json c)) = Some c"
proof -
  have "int_json (job_json c)" by (auto simp: job_json_def)
  then have "json_parse (MarshalIndent (job_json c)) = Some (job_json c)" by (simp add: json_roundtrip)
  moreover have "unmarshal_struct job_fields set_job (job_json c) empty_job_config = Some c"
    unfolding job_json_def unmarshal_struct_JObj fill_append
    using assms by (simp add: job_fields_def set_job_def empty_job_config_def)
  ultimately show ?thesis by (simp add: unmarshal_job_def)
qed

text \<open>The range of Go's integers and of the times that have a JSON form.\<close>

definition entry_ok :: "ManifestEntry \<Rightarrow> bool" where
  "entry_ok e = (int64 (me_LastSizeBytes e) \<and> (case me_LastBackup e of None \<Rightarrow> True | Some t \<Rightarrow> four_digit_year t))"

lemma unmarshal_entry: "entry_ok e \<Longrightarrow> unmarshal_struct entry_fields set_entry (entry_json e) empty_entry = Some e"
  unfolding entry_json_def unmarshal_struct_JObj fill_append
  by (simp add: entry_fields_def set_entry_def empty_entry_def entry_ok_def set_time_json split: option.splits)

lemma history_roundtrip:
  assumes "list_all entry_ok m"
  shows "unmarshal_history (MarshalIndent (history_json m)) = Some m"
proof -
  have "int_json (entry_json e)" for e by (auto simp: entry_json_def split: option.splits)
  then have "int_json (history_json m)" by (auto simp: history_json_def)
  then have "json_parse (MarshalIndent (history_json m)) = Some (history_json m)" by (simp add: json_roundtrip)
  moreover have "those (map (\<lambda>x. unmarshal_struct entry_fields set_entry x empty_entry) (map entry_json m)) = Some m"
    using assms by (intro those_map_Some) (simp add: list_all_iff unmarshal_entry)
  ultimately show ?thesis
    by (simp add: unmarshal_history_def history_json_def unmarshal_struct_JObj set_jobs_def)
qed

section \<open>Files written are read back\<close>

definition reliable :: "'x world \<Rightarrow> bool" where
  "reliable w = (\<forall>n. fault (w_env w) n = None)"

lemma reliable_env: "w_env w' = w_env w \<Longrightarrow> reliable w' = reliable w"
  by (simp add: reliable_def)

lemma read_back:
  assumes "WriteFile p d m w = (Inr u, w')" and "w_fs v = w_fs w'" and "reliable v"
  shows "ReadFile p v = (Inr d, tickA v)"
  using WriteFile_run(1) [OF assms(1)] assms(2,3) by (simp add: ReadFile_ok reliable_def)

lemma try_run: "m w = (Inr v, w') \<Longrightarrow> tryA m f w = f (Inr v) w'"
  by (simp add: tryA_def)

lemma quiet_layout [quiets]: "quiet (EnsureLayout root)"
  unfolding EnsureLayout_def by (intro quiets)

lemma quiet_save_config [quiets]: "quiet (SaveConfig root cfg)" and quiet_save_manifest [quiets]: "quiet (SaveManifest root m)"
  unfolding SaveConfig_def SaveManifest_def by (intro quiets)+

lemma quiet_load_config [quiets]: "quiet (LoadConfig root)" and quiet_load_manifest [quiets]: "quiet (LoadManifest root)"
  unfolding LoadConfig_def LoadManifest_def by (intro quiets)+

lemma quiet_list_jobs [quiets]: "quiet (ListJobNames root)"
  unfolding ListJobNames_def by (intro quiets)

lemma quiet_home [quiets]: "quiet (Home override)" and quiet_open [quiets]: "quiet (Open override)"
  and quiet_exists [quiets]: "quiet (Exists root)"
  unfolding Open_def Home_def Exists_def by (intro quiets)+

text \<open>C28: What is saved as global configuration is loaded again. If \<open>SaveConfig\<close> succeeds, \<open>LoadConfig\<close> on a machine
  where no system call fails returns the same configuration, with the default local backup directory in place
  of an empty one; the loaded configuration always has one.\<close>

theorem SaveConfig_LoadConfig:
  assumes "SaveConfig root cfg w = (Inr u, w')" and "reliable w"
    and "int64 (c_RetentionDays cfg)" "int64 (c_MinFilesToKeep cfg)" "int64 (c_ParallelJobs cfg)" "int64 (c_LocalRetentionCount cfg)"
  shows "fst (LoadConfig root w') = Inr (if c_LocalBackupDir cfg = []
      then cfg\<lparr>c_LocalBackupDir := path_join [root, ''local_backups'']\<rparr> else cfg)"
proof -
  have r: "reliable w'" using quietD [OF quiet_save_config assms(1)] assms(2) by (simp add: hist_ext_def reliable_def)
  from assms(1) obtain w1 where "WriteFile (ConfigPath root) (MarshalIndent (config_json cfg)) 384 w1 = (Inr u, w')"
    unfolding SaveConfig_def by (rule bind_Inr)
  from read_back [OF this refl r] show ?thesis
    by (simp add: LoadConfig_def try_run config_roundtrip assms(3-6) default_local_def returnA_def)
qed

text \<open>C29: The job history is kept like its configuration: if \<open>SaveManifest\<close> succeeds, \<open>LoadManifest\<close> returns the entries
  saved, on a machine where no system call fails.\<close>

theorem manifest_store:
  assumes "SaveManifest root m w = (Inr u, w')" and "reliable w" and "\<forall>e \<in> set m. int64 (me_LastSizeBytes e)"
  shows "fst (LoadManifest root w') = Inr m"
proof -
  have r: "reliable w'" using quietD [OF quiet_save_manifest assms(1)] assms(2) by (simp add: hist_ext_def reliable_def)
  from assms(1) obtain w1 where y: "list_all (\<lambda>e. case me_LastBackup e of None \<Rightarrow> True | Some t \<Rightarrow> four_digit_year t) m"
    and wf: "WriteFile (ManifestPath root) (MarshalIndent (history_json m)) 384 w1 = (Inr u, w')"
    unfolding SaveManifest_def by (auto elim!: bind_Inr simp: failA_def split: if_splits)
  have "list_all entry_ok m" using y assms(3) by (simp add: list_all_iff entry_ok_def)
  with read_back [OF wf refl r] show ?thesis
    by (simp add: LoadManifest_def try_run history_roundtrip returnA_def)
qed

definition history_map :: "Manifest \<Rightarrow> string \<Rightarrow> ManifestEntry option" where
  "history_map m = map_of (map (\<lambda>e. (me_JobName e, e)) m)"

text \<open>\<open>Upsert\<close> implements the update of a map from job names to entries: the entry of its job is the new one, the
  others are untouched, the order of the names is kept and no name appears twice if none did before.\<close>

theorem Upsert_refines_update:
  "history_map (Upsert x m) = (history_map m)(me_JobName x \<mapsto> x)
   \<and> map me_JobName (Upsert x m) = map me_JobName m @ (if me_JobName x \<in> set (map me_JobName m) then [] else [me_JobName x])"
  by (induction m) (auto simp: history_map_def fun_eq_iff)

section \<open>A sample workspace\<close>

definition sample_config :: Config where
  "sample_config = DefaultConfig\<lparr>c_Environment := ''prod''\<rparr>"

definition sample_entries :: Manifest where
  "sample_entries = [\<lparr>me_JobName = ''a'', me_ServiceType = ''redis'', me_LastBackup = Some 5, me_LastBackupStatus = ''success (5 B)'',
     me_LastSizeBytes = 0\<rparr>]"

lemma sample_reliable: "reliable sample_world"
  by (simp add: reliable_def sample_world_def sample_env_def)

lemma sample_saves:
  "is_ok (fst (SaveConfig ''/tmp/ws'' sample_config sample_world))"
  "is_ok (fst (SaveManifest ''/tmp/ws'' sample_entries sample_world))"
  by code_simp+

lemma is_ok_run: "is_ok (fst p) \<Longrightarrow> \<exists>v. p = (Inr v, snd p)"
  by (cases p) (auto simp: is_ok_iff)

theorem SaveConfig_LoadConfig_witness:
  "fst (LoadConfig ''/tmp/ws'' (snd (SaveConfig ''/tmp/ws'' sample_config sample_world)))
    = Inr (sample_config\<lparr>c_LocalBackupDir := path_join [''/tmp/ws'', ''local_backups'']\<rparr>)"
proof -
  have i: "int64 (c_RetentionDays sample_config)" "int64 (c_MinFilesToKeep sample_config)"
    "int64 (c_ParallelJobs sample_config)" "int64 (c_LocalRetentionCount sample_config)" "c_LocalBackupDir sample_config = []"
    by code_simp+
  obtain u where s: "SaveConfig ''/tmp/ws'' sample_config sample_world
      = (Inr u, snd (SaveConfig ''/tmp/ws'' sample_config sample_world))" using is_ok_run [OF sample_saves(1)] by blast
  from SaveConfig_LoadConfig [OF s sample_reliable i(1-4)] show ?thesis by (simp only: i(5) if_True refl)
qed

theorem manifest_store_witness:
  "fst (LoadManifest ''/tmp/ws'' (snd (SaveManifest ''/tmp/ws'' sample_entries sample_world))) = Inr sample_entries"
proof -
  have i: "\<forall>e \<in> set sample_entries. int64 (me_LastSizeBytes e)" by (simp add: sample_entries_def int64_def int64_max_def)
  obtain u where s: "SaveManifest ''/tmp/ws'' sample_entries sample_world
      = (Inr u, snd (SaveManifest ''/tmp/ws'' sample_entries sample_world))" using is_ok_run [OF sample_saves(2)] by blast
  from manifest_store [OF s sample_reliable i] show ?thesis .
qed

end
