(* ===== verification/Env_Store.thy ===== *)
theory Env_Store
  imports Workspace
begin

text \<open>
  Where a job's credentials and webhook URL are kept: the .env file (internal/workspace/env_unix.go)
  and the Windows Credential Manager (internal/workspace/env_windows.go and internal/secrets). Both
  satisfy the contract of the locale \<open>env_store\<close>, in which a saved job is loaded again; for the
  Credential Manager, whose calls are a parameter, under its documented behaviour.
\<close>

section \<open>The .env file\<close>

definition env_keys :: "smap \<Rightarrow> string list" where
  "env_keys env = sort (remdups (map fst env))"

definition saveEnv :: "string \<Rightarrow> string \<Rightarrow> smap \<Rightarrow> (unit, 'x) act" where
  "saveEnv root jobName env =
     WriteFile (EnvPath root jobName) (concat (map (\<lambda>k. k @ ''='' @ mget env k @ [newline]) (env_keys env))) 384"

definition env_line :: "string \<Rightarrow> smap \<Rightarrow> smap" where
  "env_line l env =
     (let line = trim_space l
      in if line = [] \<or> has_prefix line ''#'' then env
         else case cut (CHR ''='') line of Some (k, v) \<Rightarrow> mput k v env | None \<Rightarrow> env)"

definition parse_env :: "string \<Rightarrow> smap" where
  "parse_env data = fold env_line (split_on newline data) []"

definition loadEnv :: "string \<Rightarrow> string \<Rightarrow> (smap, 'x) act" where
  "loadEnv root jobName =
     tryA (ReadFile (EnvPath root jobName)) (\<lambda>r. case r of
       Inl e \<Rightarrow> if err_kind e = KNotExist then returnA [] else failA (wrapf (''reading .env for '' @ quote jobName) e)
     | Inr data \<Rightarrow> returnA (parse_env data))"

definition unix_store :: "'x EnvStore" where
  "unix_store = \<lparr>es_save = saveEnv, es_load = loadEnv\<rparr>"

section \<open>The Credential Manager\<close>

definition credTypeGeneric :: int where
  "credTypeGeneric = 1"

definition credPersistLocalMachine :: int where
  "credPersistLocalMachine = 2"

definition credMaxBlobSize :: int where
  "credMaxBlobSize = 5 * 512"

definition errorNotFound :: int where
  "errorNotFound = 1168"

text \<open>The fields of CREDENTIALW that are not always zero; a nil blob is the empty string.\<close>

record credentialW =
  cr_Type :: int
  cr_TargetName :: string
  cr_Comment :: string
  cr_CredentialBlob :: string
  cr_Persist :: int
  cr_UserName :: string

text \<open>CredWriteW and CredReadW: an error number and its text, or success.\<close>

record 'x CredApi =
  CredWriteW :: "credentialW \<Rightarrow> 'x world \<Rightarrow> (int \<times> string) option \<times> 'x world"
  CredReadW :: "string \<Rightarrow> int \<Rightarrow> 'x world \<Rightarrow> ((int \<times> string) + string) \<times> 'x world"

definition targetName :: "string \<Rightarrow> string" where
  "targetName jobName = ''DockVault/'' @ jobName"

text \<open>\<open>syscall.UTF16PtrFromString\<close> fails on a string with a zero byte.\<close>

definition utf16_ptr :: "string \<Rightarrow> string res" where
  "utf16_ptr s = (if chr_n 0 \<in> set s then Inl (errorf ''invalid argument'') else Inr s)"

definition smap_json :: "smap \<Rightarrow> json" where
  "smap_json values = JObj (map (\<lambda>k. (k, JStr (mget values k))) (env_keys values))"

definition set_value :: "smap \<Rightarrow> string \<times> json \<Rightarrow> smap option" where
  "set_value m kv = (case snd kv of JStr s \<Rightarrow> Some (mput (fst kv) s m) | JNull \<Rightarrow> Some (mput (fst kv) [] m) | _ \<Rightarrow> None)"

definition unmarshal_smap :: "string \<Rightarrow> smap option" where
  "unmarshal_smap s =
     Option.bind (json_parse s) (\<lambda>v. case v of
         JObj ms \<Rightarrow> fold (\<lambda>kv r. Option.bind r (\<lambda>m. set_value m kv)) ms (Some [])
       | JNull \<Rightarrow> Some []
       | _ \<Rightarrow> None)"

definition cred_Save :: "'x CredApi \<Rightarrow> string \<Rightarrow> smap \<Rightarrow> (unit, 'x) act" where
  "cred_Save api jobName values =
     (let blob = Marshal (smap_json values)
      in if int (length blob) > credMaxBlobSize
         then failA (errorf (''credentials for '' @ quote jobName @ '' are too large for Windows Credential Manager (''
                @ show_int (int (length blob)) @ '' bytes, limit '' @ show_int credMaxBlobSize
                @ '') - this shouldn't happen for ordinary DB credentials''))
         else case utf16_ptr (targetName jobName) of
             Inl e \<Rightarrow> failA (wrapf (''encoding credential target name for '' @ quote jobName) e)
           | Inr target \<Rightarrow>
               (\<lambda>w. case CredWriteW api \<lparr>cr_Type = credTypeGeneric, cr_TargetName = target,
                            cr_Comment = ''DockVault job credentials'', cr_CredentialBlob = blob,
                            cr_Persist = credPersistLocalMachine, cr_UserName = ''dockvault''\<rparr> w of
                   (Some (_, msg), w') \<Rightarrow> (Inl (wrapf (''writing '' @ quote jobName @ '' to Windows Credential Manager'') (errorf msg)), w')
                 | (None, w') \<Rightarrow> (Inr (), w')))"

text \<open>None: there is no entry.\<close>

definition cred_Load :: "'x CredApi \<Rightarrow> string \<Rightarrow> (smap option, 'x) act" where
  "cred_Load api jobName =
     (case utf16_ptr (targetName jobName) of
        Inl e \<Rightarrow> failA (wrapf (''encoding credential target name for '' @ quote jobName) e)
      | Inr target \<Rightarrow>
          (\<lambda>w. case CredReadW api target credTypeGeneric w of
              (Inl (n, msg), w') \<Rightarrow>
                if n = errorNotFound then (Inr None, w')
                else (Inl (errorf (''reading credentials for '' @ quote jobName @ '' from Windows Credential Manager: '' @ msg @ [newline]
                  @ ''  hint: Credential Manager is a per-user store - if dockvault is running as a scheduled task, ''
                  @ ''confirm Task Scheduler is configured to run with access to this user's credential vault ''
                  @ ''(e.g. '' @ [dquote] @ ''Run only when user is logged on'' @ [dquote] @ ''), or test the task interactively first'')), w')
            | (Inr data, w') \<Rightarrow>
                if data = [] then (Inr (Some []), w')
                else (case unmarshal_smap data of
                    None \<Rightarrow> (Inl (wrapf (''decoding credentials for '' @ quote jobName @ '' from Windows Credential Manager'') unmarshal_error), w')
                  | Some values \<Rightarrow> (Inr (Some values), w'))))"

definition windows_saveEnv :: "'x CredApi \<Rightarrow> string \<Rightarrow> string \<Rightarrow> smap \<Rightarrow> (unit, 'x) act" where
  "windows_saveEnv api root jobName env = cred_Save api jobName env"

definition windows_loadEnv :: "'x CredApi \<Rightarrow> string \<Rightarrow> string \<Rightarrow> (smap, 'x) act" where
  "windows_loadEnv api root jobName =
     bindA (cred_Load api jobName) (\<lambda>found. case found of None \<Rightarrow> returnA [] | Some values \<Rightarrow> returnA values)"

definition windows_store :: "'x CredApi \<Rightarrow> 'x EnvStore" where
  "windows_store api = \<lparr>es_save = windows_saveEnv api, es_load = windows_loadEnv api\<rparr>"

section \<open>The contract of a store\<close>

definition same_job :: "Job \<Rightarrow> Job \<Rightarrow> bool" where
  "same_job job job' = (job_config job' = job_config job \<and> j_WebhookURL job' = j_WebhookURL job
     \<and> map_of (j_Credentials job') = map_of (j_Credentials job))"

definition job_ints :: "Job \<Rightarrow> bool" where
  "job_ints job = (int64 (j_RetentionDays job) \<and> int64 (j_MinFilesToKeep job) \<and> int64 (j_LocalRetentionCount job))"

lemma map_of_foldr_mput: "map_of (foldr (\<lambda>(k, v). mput k v) m acc) = map_of acc ++ map_of m"
  by (induction m) (auto simp: fun_eq_iff map_add_def split: option.split)

lemma map_of_job_env:
  "map_of (job_env job) = (if j_WebhookURL job = [] then map_of (j_Credentials job)
     else (map_of (j_Credentials job))(envWebhookKey \<mapsto> j_WebhookURL job))"
  by (simp add: job_env_def Let_def map_of_foldr_mput)

lemma map_of_filter_key: "map_of (filter (\<lambda>(k, v). k \<noteq> j) m) = (map_of m)(j := None)"
  by (induction m) (auto simp: fun_eq_iff)

lemma same_job_of:
  assumes env: "map_of env = map_of (job_env job)" and k: "map_of (j_Credentials job) envWebhookKey = None"
  shows "same_job job (job_of (job_config job) env)"
proof -
  have "mget env envWebhookKey = j_WebhookURL job" using k by (simp add: mget_def env map_of_job_env)
  moreover have "(map_of env)(envWebhookKey := None) = map_of (j_Credentials job)"
    using k by (auto simp: env map_of_job_env fun_eq_iff)
  ultimately show ?thesis
    by (simp add: same_job_def job_of_def job_config_def map_of_filter_key)
qed

lemma path_clean_not_Nil: "path_clean p \<noteq> []"
proof -
  let ?ys = "clean_segs (rooted p) [] (split_on slash p)"
  have "clean_list (rooted p) ?ys" by (rule clean_list_segs) (auto simp: clean_list_def)
  then have "?ys \<noteq> [] \<Longrightarrow> last ?ys \<noteq> []" using clean_list_ne last_in_set by blast
  then show ?thesis using last_join [of ?ys "[slash]"] by (auto simp: path_clean_def render_segs_def)
qed

lemma job_files_differ: "root \<noteq> [] \<Longrightarrow> path_clean (JobConfigPath root nm) \<noteq> path_clean (EnvPath root nm)"
  using path_join_inject [of "JobDir root nm" "''job.json''" "''.env''"] path_clean_not_Nil [of "root @ slash # nm"]
  by (simp add: JobConfigPath_def EnvPath_def JobDir_def path_join2 plain_name_def slash_def)

locale env_store =
  fixes es :: "'x EnvStore" and storable :: "smap \<Rightarrow> bool"
  assumes save_env: "es_save es root nm env w = (Inr u, w1) \<Longrightarrow> w_env w1 = w_env w"
    and save_keeps: "es_save es root nm env w = (Inr u, w1) \<Longrightarrow> root \<noteq> []
      \<Longrightarrow> fs_read (JobConfigPath root nm) (w_fs w1) = fs_read (JobConfigPath root nm) (w_fs w)"
    and load_saved: "es_save es root nm env w = (Inr u, w1) \<Longrightarrow> storable env \<Longrightarrow> w_fs v = w_fs w1 \<Longrightarrow> w_ext v = w_ext w1
      \<Longrightarrow> reliable v \<Longrightarrow> \<exists>env' v'. es_load es root nm v = (Inr env', v') \<and> map_of env' = map_of env"
begin

lemma save_job_env:
  assumes "SaveJob es root job w = (Inr u, w')"
  shows "w_env w' = w_env w"
proof -
  from assms obtain u1 w1 u2 w2 u3 w3 where 1: "MkdirAll (JobDir root (j_Name job)) 448 w = (Inr u1, w1)"
    and 2: "ignoreA (Chmod (JobDir root (j_Name job)) 448) w1 = (Inr u2, w2)"
    and 3: "WriteFile (JobConfigPath root (j_Name job)) (MarshalIndent (job_json (job_config job))) 384 w2 = (Inr u3, w3)"
    and 4: "(if job_env job = [] then returnA () else es_save es root (j_Name job) (job_env job)) w3 = (Inr u, w')"
    unfolding SaveJob_def by (elim bind_Inr) (auto simp: wrap_Inr)
  have "w_env w' = w_env w3" using 4 save_env by (auto simp: return_Inr split: if_splits)
  then show ?thesis
    using quietD [OF quiet_os(8) 1] quietD [OF quiet_ignore [OF quiet_os(9)] 2] quietD [OF quiet_write_file 3]
    by (simp add: hist_ext_def)
qed

text \<open>A saved job is loaded again.\<close>

lemma saved_job_loads:
  assumes sv: "SaveJob es root job w = (Inr u, w')" and env: "storable (job_env job)" "job_env job \<noteq> []"
    and root: "root \<noteq> []" and ints: "job_ints job" and k: "map_of (j_Credentials job) envWebhookKey = None"
    and v: "w_fs v = w_fs w'" "w_ext v = w_ext w'" "reliable v"
  shows "\<exists>job' v'. LoadJob es root (j_Name job) v = (Inr job', v') \<and> same_job job job'"
proof -
  let ?p = "JobConfigPath root (j_Name job)"
  from sv env(2) obtain u1 w1 w2 where wf: "WriteFile ?p (MarshalIndent (job_json (job_config job))) 384 w1 = (Inr u1, w2)"
    and es: "es_save es root (j_Name job) (job_env job) w2 = (Inr u, w')"
    unfolding SaveJob_def by (auto elim!: bind_Inr simp: wrap_Inr)
  have "fs_read ?p (w_fs v) = Inr (MarshalIndent (job_json (job_config job)))"
    using WriteFile_run(1) [OF wf] save_keeps [OF es root] v(1) by simp
  then have rd: "ReadFile ?p v = (Inr (MarshalIndent (job_json (job_config job))), tickA v)"
    using v(3) by (simp add: ReadFile_ok reliable_def)
  have t: "w_fs (tickA v) = w_fs w'" "w_ext (tickA v) = w_ext w'" "reliable (tickA v)"
    using v by (simp_all add: tickA_def reliable_def)
  obtain env' v' where ld: "es_load es root (j_Name job) (tickA v) = (Inr env', v')" and m: "map_of env' = map_of (job_env job)"
    using load_saved [OF es env(1) t] by blast
  have "unmarshal_job (MarshalIndent (job_json (job_config job))) = Some (job_config job)"
    using ints by (intro job_config_roundtrip) (simp_all add: job_ints_def job_config_def)
  then have "LoadJob es root (j_Name job) v = (Inr (job_of (job_config job) env'), v')"
    by (simp add: LoadJob_def bindA_def wrapA_def rd ld returnA_def)
  then show ?thesis using same_job_of [OF m k] by blast
qed

end

section \<open>The .env file as a store\<close>

text \<open>A variable whose line survives: no line break, no equals sign in the name, nothing that trimming would
  remove and no leading comment sign.\<close>

definition env_pair_ok :: "string \<times> string \<Rightarrow> bool" where
  "env_pair_ok kv = (case kv of (k, v) \<Rightarrow> newline \<notin> set (k @ v) \<and> CHR ''='' \<notin> set k
     \<and> \<not> is_space (hd (k @ ''='')) \<and> \<not> is_space (last (''='' @ v)) \<and> \<not> has_prefix k ''#'')"

definition env_storable :: "smap \<Rightarrow> bool" where
  "env_storable env = list_all env_pair_ok env"

definition env_text :: "smap \<Rightarrow> string" where
  "env_text env = concat (map (\<lambda>k. k @ ''='' @ mget env k @ [newline]) (env_keys env))"

lemma env_line_pair:
  assumes "env_pair_ok (k, v)"
  shows "env_line (k @ CHR ''='' # v) env = mput k v env"
proof -
  have c: "CHR ''='' \<notin> set k" "\<not> has_prefix k ''#''" using assms by (simp_all add: env_pair_ok_def)
  have h: "\<not> is_space (hd (k @ CHR ''='' # v))" "\<not> is_space (last (k @ CHR ''='' # v))"
    using assms by (cases k; simp add: env_pair_ok_def)+
  have t: "trim_space (k @ CHR ''='' # v) = k @ CHR ''='' # v" unfolding trim_space_def by (rule trim_both_id) (use h in blast)
  have "\<not> has_prefix (k @ CHR ''='' # v) ''#''" using c(2) by (cases k) (auto simp: has_prefix_def)
  then show ?thesis using cut_append [OF c(1), of v] by (simp add: env_line_def Let_def t)
qed

lemma map_of_puts: "map_of (fold (\<lambda>k. mput k (f k)) ks acc) j = (if j \<in> set ks then Some (f j) else map_of acc j)"
  by (induction ks arbitrary: acc) auto

lemma map_of_env_keys: "map_of (fold (\<lambda>k. mput k (mget env k)) (env_keys env) []) = map_of env"
proof
  fix j
  have ks: "set (env_keys env) = dom (map_of env)" by (simp add: env_keys_def dom_map_of_conv_image_fst)
  show "map_of (fold (\<lambda>k. mput k (mget env k)) (env_keys env) []) j = map_of env j"
    by (cases "map_of env j") (simp_all add: map_of_puts ks mget_def domIff)
qed

lemma parse_env_text:
  assumes "env_storable env"
  shows "map_of (parse_env (env_text env)) = map_of env"
proof -
  have ks: "set (env_keys env) = fst ` set env" by (simp add: env_keys_def)
  have ok: "env_pair_ok (k, mget env k)" if "k \<in> set (env_keys env)" for k
  proof -
    have "map_of env k \<noteq> None" using that ks by (simp add: map_of_eq_None_iff)
    then have "(k, mget env k) \<in> set env" by (auto simp: mget_def dest: map_of_SomeD)
    then show ?thesis using assms by (auto simp: env_storable_def list_all_iff)
  qed
  let ?line = "\<lambda>k. k @ ''='' @ mget env k"
  have t: "env_text env = concat (map (\<lambda>l. l @ [newline]) (map ?line (env_keys env)))"
    by (simp add: env_text_def comp_def)
  have nl: "newline \<notin> set (?line k)" if "k \<in> set (env_keys env)" for k
    using ok [OF that] by (simp add: env_pair_ok_def newline_def)
  have "split_on newline (env_text env) = map ?line (env_keys env) @ [[]]"
    unfolding t by (rule split_on_lines) (use nl in auto)
  moreover have "fold env_line (map ?line ks) acc = fold (\<lambda>k. mput k (mget env k)) ks acc" if "set ks \<subseteq> set (env_keys env)" for ks acc
    using that by (induction ks arbitrary: acc) (simp_all add: env_line_pair ok)
  moreover have "env_line [] e = e" for e by (simp add: env_line_def trim_space_def trim_both_def trim_left_def trim_right_def)
  ultimately have "parse_env (env_text env) = fold (\<lambda>k. mput k (mget env k)) (env_keys env) []"
    by (simp add: parse_env_def)
  then show ?thesis by (simp add: map_of_env_keys)
qed

interpretation unix: env_store unix_store env_storable
proof
  fix root nm env u and w w1 v :: "'x world"
  assume "es_save unix_store root nm env w = (Inr u, w1)"
  then have wf: "WriteFile (EnvPath root nm) (env_text env) 384 w = (Inr u, w1)"
    by (simp add: unix_store_def saveEnv_def env_text_def)
  show "w_env w1 = w_env w" using quietD [OF quiet_write_file wf] by (simp add: hist_ext_def)
  show "fs_read (JobConfigPath root nm) (w_fs w1) = fs_read (JobConfigPath root nm) (w_fs w)" if "root \<noteq> []"
    using WriteFile_run(2) [OF wf job_files_differ [OF that]] by (simp add: fs_read_def fs_is_dir_def)
  show "\<exists>env' v'. es_load unix_store root nm v = (Inr env', v') \<and> map_of env' = map_of env"
    if "env_storable env" "w_fs v = w_fs w1" "reliable v"
    using read_back [OF wf that(2,3)] parse_env_text [OF that(1)]
    by (simp add: unix_store_def loadEnv_def try_run returnA_def)
qed

section \<open>The Credential Manager as a store\<close>

text \<open>The documented behaviour of the Win32 calls: a credential that was written is what is read under its name
  and type as long as the Credential Manager's state stays the same, and the calls do not touch the workspace's files.\<close>

definition keeps_credentials :: "'x CredApi \<Rightarrow> bool" where
  "keeps_credentials api = (\<forall>c w w'. CredWriteW api c w = (None, w') \<longrightarrow> w_fs w' = w_fs w \<and> w_env w' = w_env w
     \<and> (\<forall>v. w_ext v = w_ext w' \<longrightarrow> fst (CredReadW api (cr_TargetName c) (cr_Type c) v) = Inr (cr_CredentialBlob c)))"

lemma unmarshal_smap_json: "\<exists>env'. unmarshal_smap (Marshal (smap_json env)) = Some env' \<and> map_of env' = map_of env"
proof -
  have "int_json (smap_json env)" by (auto simp: smap_json_def)
  then have p: "json_parse (Marshal (smap_json env)) = Some (smap_json env)" by (simp add: json_roundtrip)
  have f: "fold (\<lambda>kv r. Option.bind r (\<lambda>m. set_value m kv)) (map (\<lambda>k. (k, JStr (mget env k))) ks) (Some acc)
    = Some (fold (\<lambda>k. mput k (mget env k)) ks acc)" for ks acc
    by (induction ks arbitrary: acc) (simp_all add: set_value_def)
  show ?thesis unfolding unmarshal_smap_def p by (simp add: smap_json_def f map_of_env_keys)
qed

lemma windows_env_store:
  assumes "keeps_credentials api"
  shows "env_store (windows_store api) (\<lambda>_. True)"
proof
  fix root nm env u and w w1 v :: "'a world"
  assume es: "es_save (windows_store api) root nm env w = (Inr u, w1)"
  let ?c = "\<lparr>cr_Type = credTypeGeneric, cr_TargetName = targetName nm, cr_Comment = ''DockVault job credentials'',
    cr_CredentialBlob = Marshal (smap_json env), cr_Persist = credPersistLocalMachine, cr_UserName = ''dockvault''\<rparr>"
  have n: "utf16_ptr (targetName nm) = Inr (targetName nm)" and wr: "CredWriteW api ?c w = (None, w1)"
    using es
    by (auto simp: windows_store_def windows_saveEnv_def cred_Save_def Let_def failA_def utf16_ptr_def
        split: if_splits sum.splits option.splits prod.splits)
  from wr assms have k: "w_fs w1 = w_fs w" "w_env w1 = w_env w"
    "\<And>v. w_ext v = w_ext w1 \<Longrightarrow> fst (CredReadW api (targetName nm) credTypeGeneric v) = Inr (Marshal (smap_json env))"
    unfolding keeps_credentials_def by fastforce+
  show "w_env w1 = w_env w" by (rule k)
  show "fs_read (JobConfigPath root nm) (w_fs w1) = fs_read (JobConfigPath root nm) (w_fs w)" by (simp add: k)
  show "\<exists>env' v'. es_load (windows_store api) root nm v = (Inr env', v') \<and> map_of env' = map_of env" if e: "w_ext v = w_ext w1"
  proof -
    obtain v' where rd: "CredReadW api (targetName nm) credTypeGeneric v = (Inr (Marshal (smap_json env)), v')"
      using k(3) [OF e] by (metis prod.collapse)
    obtain env' where env': "unmarshal_smap (Marshal (smap_json env)) = Some env'" "map_of env' = map_of env"
      using unmarshal_smap_json by blast
    have "unmarshal_smap [] = None" by code_simp
    then have "Marshal (smap_json env) \<noteq> []" using env'(1) by auto
    then have "cred_Load api nm v = (Inr (Some env'), v')" using rd env'(1) n by (simp add: cred_Load_def)
    then show ?thesis using env'(2) by (simp add: windows_store_def windows_loadEnv_def bindA_def returnA_def)
  qed
qed

section \<open>Saved jobs\<close>

lemma quiet_unix [quiets]: "quiet (es_save unix_store root nm env)" "quiet (es_load unix_store root nm)"
  unfolding unix_store_def EnvStore.simps saveEnv_def loadEnv_def by (intro quiets)+

lemma quiet_save_job [quiets]: "quiet (SaveJob unix_store root job)" and quiet_load_job [quiets]: "quiet (LoadJob unix_store root nm)"
  unfolding SaveJob_def LoadJob_def by (intro quiets)+



definition stale_job :: "smap \<Rightarrow> Job" where
  "stale_job creds = sample_job\<lparr>j_Credentials := creds\<rparr>"

definition saved_twice :: "unit world" where
  "saved_twice = snd (SaveJob unix_store ''/tmp'' (stale_job [])
     (snd (SaveJob unix_store ''/tmp'' (stale_job [(''REDIS_PASSWORD'', ''old'')]) sample_world)))"

text \<open>Two ways in which a .env file does not keep what was saved: a value loses the blanks at its end, and a job
  saved again without credentials is loaded with the old ones.\<close>

theorem env_file_losses:
  "parse_env (env_text [(''REDIS_PASSWORD'', ''secret '')]) = [(''REDIS_PASSWORD'', ''secret'')]
   \<and> map_sum id j_Credentials (fst (LoadJob unix_store ''/tmp'' ''etc'' saved_twice)) = Inr [(''REDIS_PASSWORD'', ''old'')]"
  by (rule conjI; code_simp)

section \<open>Sample stores\<close>

definition sample_creds :: Job where
  "sample_creds = stale_job [(''REDIS_PASSWORD'', ''pw'')]"

lemma sample_job_facts: "env_storable (job_env sample_creds)" "job_env sample_creds \<noteq> []" "job_ints sample_creds"
  "map_of (j_Credentials sample_creds) envWebhookKey = None" "is_ok (fst (SaveJob unix_store ''/tmp'' sample_creds sample_world))"
  by code_simp+


text \<open>A Credential Manager whose state is the list of its entries.\<close>

definition sample_api :: "((string \<times> int) \<times> string) list CredApi" where
  "sample_api = \<lparr>CredWriteW = (\<lambda>c w. (None, w\<lparr>w_ext := AList.update (cr_TargetName c, cr_Type c) (cr_CredentialBlob c) (w_ext w)\<rparr>)),
     CredReadW = (\<lambda>t k w. (case map_of (w_ext w) (t, k) of None \<Rightarrow> Inl (errorNotFound, ''Element not found.'') | Some b \<Rightarrow> Inr b, w))\<rparr>"

lemma sample_keeps: "keeps_credentials sample_api"
  by (auto simp: keeps_credentials_def sample_api_def update_conv')

definition windows_world :: "((string \<times> int) \<times> string) list world" where
  "windows_world = \<lparr>w_env = sample_env, w_fs = [(''/tmp'', Dir 511)], w_tick = 0, w_hist = [], w_in = [], w_out = [], w_err = [], w_ext = []\<rparr>"

lemma windows_saves: "is_ok (fst (SaveJob (windows_store sample_api) ''/tmp'' sample_creds windows_world))"
  by code_simp

lemma windows_reliable: "reliable windows_world"
  by (simp add: reliable_def windows_world_def sample_env_def)


end
