(* ===== verification/GoDuration.thy ===== *)
theory GoDuration
  imports World
begin

text \<open>
  \<open>time.Duration\<close>: a number of nanoseconds, its rounding and its text form.
\<close>

type_synonym duration = int

definition micro_sign :: string where
  "micro_sign = map chr_n [194, 181]"

text \<open>A number of nanoseconds in a unit of \<open>10 ^ k\<close> of them: the integer part and the fraction without its trailing zeros.\<close>

definition show_frac :: "nat \<Rightarrow> int \<Rightarrow> string" where
  "show_frac k n =
     (let fr = trim_right (\<lambda>c. c = CHR ''0'') (pad_dec k (n mod 10 ^ k))
      in show_dec (n div 10 ^ k) @ (if k = 0 \<or> fr = [] then [] else CHR ''.'' # fr))"

definition show_duration_abs :: "int \<Rightarrow> string" where
  "show_duration_abs u =
     (if u = 0 then ''0s''
      else if u < 1000 then show_dec u @ ''ns''
      else if u < 1000000 then show_frac 3 u @ micro_sign @ ''s''
      else if u < nanos then show_frac 6 u @ ''ms''
      else let s = u div nanos; m = s div 60; h = m div 60
           in (if h > 0 then show_dec h @ ''h'' else []) @ (if m > 0 then show_dec (m mod 60) @ ''m'' else [])
              @ show_frac 9 (u mod (60 * nanos)) @ ''s'')"

definition show_duration :: "duration \<Rightarrow> string" where
  "show_duration d = (if d < 0 then ''-'' @ show_duration_abs (- d) else show_duration_abs d)"

text \<open>\<open>Round\<close>: to the nearest multiple, halves away from zero.\<close>

definition round_duration :: "duration \<Rightarrow> int \<Rightarrow> duration" where
  "round_duration d m =
     (if 2 * (abs d mod m) < m then sgn d * (abs d div m * m) else sgn d * (abs d div m * m + m))"

lemma show_duration_examples:
  "show_duration (24 * 3600 * nanos) = ''24h0m0s''" "show_duration (1500 * 1000000) = ''1.5s''"
  "show_duration (round_duration (- 1499999999) nanos) = ''-1s''" "show_duration 0 = ''0s''"
  "show_duration 1100000 = ''1.1ms''" "show_duration (61 * nanos) = ''1m1s''"
  by code_simp+

end
