(* ===== verification/Lock.thy ===== *)
theory Lock
  imports Workspace GoDuration
begin

text \<open>
  internal/workspace/lock.go: the lock file that keeps two invocations from working on one workspace
  at the same time. First the operation as one process carries it out; then, because what matters is
  several processes at once, the same steps as a relation over the shared lock file, with one phase
  per system call, and what holds of its reachable states.
\<close>

section \<open>Taking the lock\<close>

definition lockFileName :: string where
  "lockFileName = ''.dockvault.lock''"

definition staleLockAge :: duration where
  "staleLockAge = 24 * 3600 * nanos"

definition lockPath :: "string \<Rightarrow> string" where
  "lockPath root = path_join [root, lockFileName]"

text \<open>None: no process id can be read.\<close>

definition parse_pid :: "string \<Rightarrow> int option" where
  "parse_pid data = (case atoi (trim_space data) of Inl _ \<Rightarrow> None | Inr n \<Rightarrow> Some n)"

definition readLockPID :: "string \<Rightarrow> (int option, 'x) act" where
  "readLockPID path = tryA (ReadFile path) (\<lambda>r. case r of Inl _ \<Rightarrow> returnA None | Inr data \<Rightarrow> returnA (parse_pid data))"

definition processAlive :: "int \<Rightarrow> (bool, 'x) act" where
  "processAlive p w = (Inr (alive (w_env w) (w_tick w) p), tickA w)"

definition holder_alive :: "int option \<Rightarrow> (bool, 'x) act" where
  "holder_alive po = (case po of None \<Rightarrow> returnA False | Some p \<Rightarrow> processAlive p)"

definition in_use_error :: "string \<Rightarrow> int \<Rightarrow> error" where
  "in_use_error path p = errorf (''another dockvault process (pid '' @ show_int p @ '') is already using this workspace (''
     @ path @ '') - wait for it to finish, or remove the lock file yourself if you're certain it's gone'')"

definition young_error :: "string \<Rightarrow> duration \<Rightarrow> error" where
  "young_error path age = errorf (''lock file '' @ path @ '' exists from a process that doesn't appear to be running, but is only ''
     @ show_duration (round_duration age nanos) @ '' old (younger than the '' @ show_duration staleLockAge
     @ '' staleness threshold) - remove it manually if you're sure no other dockvault process is using this workspace'')"

definition node_time :: "node \<Rightarrow> instant" where
  "node_time n = (case n of File _ _ t \<Rightarrow> t | Dir _ \<Rightarrow> 0)"

definition stealStaleLock :: "string \<Rightarrow> (unit, 'x) act" where
  "stealStaleLock path =
     tryA (Stat path) (\<lambda>r. case r of
       Inl e \<Rightarrow> if err_kind e = KNotExist then returnA () else failA (wrapf (''checking lock file '' @ path) e)
     | Inr info \<Rightarrow>
         bindA (readLockPID path) (\<lambda>po.
         bindA (holder_alive po) (\<lambda>a.
           if a then failA (in_use_error path (the po))
           else bindA nowA (\<lambda>now.
             if now - node_time info < staleLockAge then failA (young_error path (now - node_time info))
             else Remove path))))"

definition Lock :: "string \<Rightarrow> (unit, 'x) act" where
  "Lock root =
     (let path = lockPath root in
      bindA (tryA (OpenExcl path 384) (\<lambda>r. case r of
          Inr _ \<Rightarrow> returnA ()
        | Inl e \<Rightarrow>
            if err_kind e \<noteq> KExist then failA (wrapf (''creating lock file '' @ path) e)
            else bindA (stealStaleLock path) (\<lambda>_. wrapA (wrapf (''acquiring lock '' @ path)) (OpenExcl path 384)))) (\<lambda>_.
      bindA (get_env pid) (\<lambda>p. ignoreA (WriteBytes path (show_int p @ [newline])))))"

text \<open>The function that \<open>Lock\<close> returns, for the caller to defer.\<close>

definition unlock :: "string \<Rightarrow> (unit, 'x) act" where
  "unlock root = ignoreA (Remove (lockPath root))"

definition with_lock :: "string \<Rightarrow> ('a, 'x) act \<Rightarrow> ('a, 'x) act" where
  "with_lock root body = bindA (Lock root) (\<lambda>_. cleanupA (unlock root) body)"

lemma quiet_lock [quiets]: "quiet (Lock root)" and quiet_unlock [quiets]: "quiet (unlock root)"
proof -
  have "quiet (processAlive p)" for p by (simp add: quiet_def processAlive_def)
  then have "quiet (stealStaleLock path)" for path
    unfolding stealStaleLock_def readLockPID_def holder_alive_def by (intro quiets)
  then show "quiet (Lock root)" unfolding Lock_def Let_def by (intro quiets)
  show "quiet (unlock root)" unfolding unlock_def by (intro quiets)
qed

lemma quiet_write_bytes_rule: "quiet (ignoreA (WriteBytes p d))"
  by (intro quiets)

text \<open>A lock that is held.\<close>

lemma excl_exists:
  assumes "reliable w" and "fs_node (w_fs w) p = Some n"
  shows "OpenExcl p m w = (Inl (path_error KExist ''open'' p ''file exists''), tickA w)"
  using assms by (simp add: OpenExcl_def sysA_def reliable_def fs_open_excl_def tickA_def)

lemma stat_file:
  assumes "reliable w" and "fs_node (w_fs w) p = Some (File b m t)"
  shows "Stat p w = (Inr (File b m t), tickA w)"
  using assms by (simp add: Stat_def sysA_def reliable_def fs_stat_def tickA_def)

lemma tick_simps: "reliable (tickA w) = reliable w" "w_fs (tickA w) = w_fs w" "w_env (tickA w) = w_env w"
  by (simp_all add: reliable_def tickA_def)

text \<open>C31: \<open>Lock\<close> respects a lock that is held: on a machine where no system call fails, if the lock file names a
  running process, or is younger than 24 hours, \<open>Lock\<close> returns an error and leaves every file as it was.\<close>

theorem Lock_refuses:
  assumes "reliable w" and lf: "fs_node (w_fs w) (lockPath root) = Some (File b m t)"
    and "path_clean (lockPath root) \<noteq> [slash]" and "path_clean (lockPath root) \<noteq> ''.''"
    and held: "(\<exists>q. parse_pid b = Some q \<and> (\<forall>n. alive (w_env w) n q)) \<or> (\<forall>n. clock (w_env w) n - t < staleLockAge)"
  shows "\<exists>e w'. Lock root w = (Inl e, w') \<and> w_fs w' = w_fs w \<and> \<not> is_panic e"
proof -
  let ?p = "lockPath root"
  have rd: "ReadFile ?p v = (Inr b, tickA v)" if "reliable v" "w_fs v = w_fs w" for v
    using that fs_read_file [OF lf assms(3,4)] by (intro ReadFile_ok) (simp_all add: reliable_def)
  have st: "\<exists>e w'. stealStaleLock ?p v = (Inl e, w') \<and> w_fs w' = w_fs w \<and> \<not> is_panic e"
    if v: "reliable v" "w_fs v = w_fs w" "w_env v = w_env w" for v
  proof -
    have s: "Stat ?p v = (Inr (File b m t), tickA v)" using v lf by (intro stat_file) simp_all
    have r: "ReadFile ?p (tickA v) = (Inr b, tickA (tickA v))" by (rule rd) (use v in \<open>simp_all add: tick_simps\<close>)
    show ?thesis
    proof (cases "parse_pid b")
      case None
      then have "\<forall>n. clock (w_env w) n - t < staleLockAge" using held by simp
      then show ?thesis unfolding stealStaleLock_def
        by (simp add: s readLockPID_def tryA_def r None bindA_def returnA_def holder_alive_def nowA_def failA_def tick_simps v
            node_time_def young_error_def)
    next
      case (Some q)
      show ?thesis
      proof (cases "alive (w_env w) (w_tick (tickA (tickA v))) q")
        case True
        then show ?thesis unfolding stealStaleLock_def
          by (simp add: s readLockPID_def tryA_def r Some bindA_def returnA_def holder_alive_def processAlive_def failA_def tick_simps v
              in_use_error_def)
      next
        case False
        then have "\<forall>n. clock (w_env w) n - t < staleLockAge" using held Some by auto
        then show ?thesis using False unfolding stealStaleLock_def
          by (simp add: s readLockPID_def tryA_def r Some bindA_def returnA_def holder_alive_def processAlive_def nowA_def failA_def
              tick_simps v node_time_def young_error_def)
      qed
    qed
  qed
  obtain e w' where "stealStaleLock ?p (tickA w) = (Inl e, w')" "w_fs w' = w_fs w" "\<not> is_panic e"
    using st [of "tickA w"] assms(1) by (auto simp: tick_simps)
  then show ?thesis
    by (simp add: Lock_def Let_def bindA_def tryA_def excl_exists [OF assms(1) lf] path_error_def is_panic_def)
qed

section \<open>Several processes\<close>

text \<open>The shared state: the lock file (who created it, its contents, None before the process id is written, and its
  modification time), the time, and where each process is. \<open>alive_now\<close> says which processes run.\<close>

datatype phase =
    Idle | Opening | Found | Stated instant | PidRead instant "int option" | Removing | Retrying | Created | Holding | Failed | Crashed

record shared =
  sh_file :: "(int \<times> int option \<times> instant) option"
  sh_now :: instant
  sh_phase :: "int \<Rightarrow> phase"

definition set_phase :: "int \<Rightarrow> phase \<Rightarrow> shared \<Rightarrow> shared" where
  "set_phase p ph s = s\<lparr>sh_phase := (sh_phase s)(p := ph)\<rparr>"

definition alive_now :: "shared \<Rightarrow> int \<Rightarrow> bool" where
  "alive_now s p = (sh_phase s p \<notin> {Idle, Crashed})"

text \<open>One system call of process \<open>p\<close> inside \<open>Lock\<close> or the unlock function, the passing of time, and a crash.\<close>

inductive lock_step :: "shared \<Rightarrow> shared \<Rightarrow> bool" where
  start: "sh_phase s p = Idle \<Longrightarrow> lock_step s (set_phase p Opening s)"
| create: "sh_phase s p \<in> {Opening, Retrying} \<Longrightarrow> sh_file s = None
    \<Longrightarrow> lock_step s (set_phase p Created (s\<lparr>sh_file := Some (p, None, sh_now s)\<rparr>))"
| exists: "sh_phase s p = Opening \<Longrightarrow> sh_file s \<noteq> None \<Longrightarrow> lock_step s (set_phase p Found s)"
| lost: "sh_phase s p = Retrying \<Longrightarrow> sh_file s \<noteq> None \<Longrightarrow> lock_step s (set_phase p Failed s)"
| gone: "sh_phase s p = Found \<Longrightarrow> sh_file s = None \<Longrightarrow> lock_step s (set_phase p Retrying s)"
| stat: "sh_phase s p = Found \<Longrightarrow> sh_file s = Some (q, c, t) \<Longrightarrow> lock_step s (set_phase p (Stated t) s)"
| read_pid: "sh_phase s p = Stated t \<Longrightarrow> sh_file s = Some (q, c, t') \<Longrightarrow> lock_step s (set_phase p (PidRead t c) s)"
| read_gone: "sh_phase s p = Stated t \<Longrightarrow> sh_file s = None \<Longrightarrow> lock_step s (set_phase p (PidRead t None) s)"
| in_use: "sh_phase s p = PidRead t (Some q) \<Longrightarrow> alive_now s q \<Longrightarrow> lock_step s (set_phase p Failed s)"
| young: "sh_phase s p = PidRead t c \<Longrightarrow> \<not> (\<exists>q. c = Some q \<and> alive_now s q) \<Longrightarrow> sh_now s - t < staleLockAge
    \<Longrightarrow> lock_step s (set_phase p Failed s)"
| old: "sh_phase s p = PidRead t c \<Longrightarrow> \<not> (\<exists>q. c = Some q \<and> alive_now s q) \<Longrightarrow> \<not> sh_now s - t < staleLockAge
    \<Longrightarrow> lock_step s (set_phase p Removing s)"
| remove: "sh_phase s p = Removing \<Longrightarrow> sh_file s \<noteq> None \<Longrightarrow> lock_step s (set_phase p Retrying (s\<lparr>sh_file := None\<rparr>))"
| remove_gone: "sh_phase s p = Removing \<Longrightarrow> sh_file s = None \<Longrightarrow> lock_step s (set_phase p Failed s)"
| write_pid: "sh_phase s p = Created \<Longrightarrow> sh_file s = Some (p, c, t)
    \<Longrightarrow> lock_step s (set_phase p Holding (s\<lparr>sh_file := Some (p, Some p, sh_now s)\<rparr>))"
| write_lost: "sh_phase s p = Created \<Longrightarrow> \<not> (\<exists>c t. sh_file s = Some (p, c, t)) \<Longrightarrow> lock_step s (set_phase p Holding s)"
| release: "sh_phase s p = Holding \<Longrightarrow> lock_step s (set_phase p Idle (s\<lparr>sh_file := None\<rparr>))"
| give_up: "sh_phase s p = Failed \<Longrightarrow> lock_step s (set_phase p Idle s)"
| crash: "sh_phase s p \<noteq> Idle \<Longrightarrow> lock_step s (set_phase p Crashed s)"
| wait: "0 \<le> d \<Longrightarrow> lock_step s (s\<lparr>sh_now := sh_now s + d\<rparr>)"


inductive_cases lock_stepE: "lock_step s s'"

definition owns :: "shared \<Rightarrow> int \<Rightarrow> bool" where
  "owns s p = (sh_phase s p \<in> {Created, Holding})"

definition no_lock :: "shared \<Rightarrow> bool" where
  "no_lock s = (sh_file s = None \<and> (\<forall>p. sh_phase s p = Idle))"

text \<open>Within 24 hours: nobody is about to remove a lock, times seen are those of this run, and the file is that of whoever owns it.\<close>

definition phase_ok :: "instant \<Rightarrow> (int \<times> int option \<times> instant) option \<Rightarrow> int \<Rightarrow> phase \<Rightarrow> bool" where
  "phase_ok t0 f p ph = (case ph of
       Removing \<Rightarrow> False
     | Stated t \<Rightarrow> t0 \<le> t
     | PidRead t c \<Rightarrow> t0 \<le> t
     | Created \<Rightarrow> (\<exists>c t. f = Some (p, c, t))
     | Holding \<Rightarrow> (\<exists>c t. f = Some (p, c, t))
     | _ \<Rightarrow> True)"

definition lock_inv :: "instant \<Rightarrow> shared \<Rightarrow> bool" where
  "lock_inv t0 s = (t0 \<le> sh_now s \<and> (sh_now s - t0 < staleLockAge \<longrightarrow>
     (\<forall>p. phase_ok t0 (sh_file s) p (sh_phase s p)) \<and> (\<forall>p c t. sh_file s = Some (p, c, t) \<longrightarrow> t0 \<le> t)))"

lemma inv_phase:
  assumes "lock_inv t0 s" and "sh_now s - t0 < staleLockAge \<Longrightarrow> phase_ok t0 (sh_file s) p (sh_phase s p) \<Longrightarrow> phase_ok t0 (sh_file s) p ph"
  shows "lock_inv t0 (set_phase p ph s)"
  using assms by (auto simp: lock_inv_def set_phase_def)

lemma inv_file:
  assumes "lock_inv t0 s" and "\<And>q c t. f = Some (q, c, t) \<Longrightarrow> t = sh_now s"
    and "sh_now s - t0 < staleLockAge \<Longrightarrow> phase_ok t0 (sh_file s) p (sh_phase s p) \<Longrightarrow> phase_ok t0 f p ph"
    and "\<And>q. sh_now s - t0 < staleLockAge \<Longrightarrow> phase_ok t0 (sh_file s) p (sh_phase s p)
      \<Longrightarrow> phase_ok t0 (sh_file s) q (sh_phase s q) \<Longrightarrow> q \<noteq> p \<Longrightarrow> phase_ok t0 f q (sh_phase s q)"
  shows "lock_inv t0 (set_phase p ph (s\<lparr>sh_file := f\<rparr>))"
  using assms by (auto simp: lock_inv_def set_phase_def)

lemma lock_inv_old: "lock_inv t0 s \<Longrightarrow> sh_phase s p = PidRead t c \<Longrightarrow> sh_now s - t0 < staleLockAge \<Longrightarrow> sh_now s - t < staleLockAge"
  by (auto simp: lock_inv_def phase_ok_def split: phase.splits) (metis (no_types, lifting) diff_left_mono order.strict_trans1 phase.simps)

lemma lock_inv_step: "lock_step s s' \<Longrightarrow> lock_inv t0 s \<Longrightarrow> lock_inv t0 s'"
proof (induction rule: lock_step.induct)
  case (stat s p q c t)
  then have "sh_now s - t0 < staleLockAge \<Longrightarrow> t0 \<le> t" by (simp add: lock_inv_def)
  then show ?case using stat by (intro inv_phase) (simp_all add: phase_ok_def)
next
  case (old s p t c)
  then show ?case using lock_inv_old by (intro inv_phase) auto
next
  case (wait d s)
  then show ?case by (auto simp: lock_inv_def)
next
  case (create s p)
  then show ?case by (intro inv_file) (auto simp: phase_ok_def split: phase.splits)
next
  case (remove s p)
  then show ?case by (intro inv_file) (auto simp: phase_ok_def split: phase.splits)
next
  case (write_pid s p c t)
  then show ?case by (intro inv_file) (auto simp: phase_ok_def split: phase.splits)
next
  case (release s p)
  then show ?case by (intro inv_file) (auto simp: phase_ok_def split: phase.splits)
qed (auto intro!: inv_phase simp: phase_ok_def split: phase.splits)

lemma lock_inv_reachable:
  assumes "lock_step\<^sup>*\<^sup>* s0 s" and "no_lock s0"
  shows "lock_inv (sh_now s0) s"
  using assms(1)
proof (induction rule: rtranclp_induct)
  case base
  show ?case using assms(2) by (simp add: lock_inv_def no_lock_def phase_ok_def)
qed (rule lock_inv_step)

text \<open>C8: Mutual exclusion. Starting from a workspace without a lock file, however the steps of any number of processes
  are interleaved, and whichever of them crash, for 24 hours no two processes own the lock.\<close>

theorem lock_mutual_exclusion:
  assumes "lock_step\<^sup>*\<^sup>* s0 s" and "no_lock s0" and "sh_now s - sh_now s0 < staleLockAge" and "owns s p" and "owns s q"
  shows "p = q"
proof -
  from lock_inv_reachable [OF assms(1,2)] assms(3)
  have "phase_ok (sh_now s0) (sh_file s) r (sh_phase s r)" for r unfolding lock_inv_def by blast
  from this [of p] this [of q] show ?thesis using assms(4,5) by (auto simp: owns_def phase_ok_def)
qed

text \<open>Runs, one step after the other.\<close>

lemma then_step: "lock_step s s' \<Longrightarrow> lock_step\<^sup>*\<^sup>* s' t \<Longrightarrow> lock_step\<^sup>*\<^sup>* s t"
  by (rule converse_rtranclp_into_rtranclp)

lemma set_phase_simps [simp]: "sh_phase (set_phase p ph s) = (sh_phase s)(p := ph)" "sh_file (set_phase p ph s) = sh_file s"
  "sh_now (set_phase p ph s) = sh_now s" "set_phase p ph (set_phase p ph' s) = set_phase p ph s"
  by (simp_all add: set_phase_def)

text \<open>The steps of \<open>p\<close> from its start to the decision to remove a lock it takes for stale, and from there to holding it.\<close>

lemma run_to_removing:
  assumes "sh_phase s p = Idle" and "sh_file s = Some (q, c, t)" and "staleLockAge \<le> sh_now s - t"
    and "\<And>r. c = Some r \<Longrightarrow> r \<noteq> p \<and> \<not> alive_now s r"
  shows "lock_step\<^sup>*\<^sup>* s (set_phase p Removing s)"
proof -
  have "lock_step s (set_phase p Opening s)" by (rule start) (rule assms)
  moreover have "lock_step (set_phase p Opening s) (set_phase p Found s)"
    using exists [of "set_phase p Opening s" p] assms(2) by simp
  moreover have "lock_step (set_phase p Found s) (set_phase p (Stated t) s)"
    using stat [of "set_phase p Found s" p q c t] assms(2) by simp
  moreover have "lock_step (set_phase p (Stated t) s) (set_phase p (PidRead t c) s)"
    using read_pid [of "set_phase p (Stated t) s" p t q c t] assms(2) by simp
  moreover have "lock_step (set_phase p (PidRead t c) s) (set_phase p Removing s)"
    using old [of "set_phase p (PidRead t c) s" p t c] assms(3,4) by (auto simp: alive_now_def)
  ultimately show ?thesis by (meson then_step rtranclp.rtrancl_refl)
qed

lemma run_to_holding:
  assumes "sh_phase s p = Removing" and "sh_file s \<noteq> None"
  shows "lock_step\<^sup>*\<^sup>* s (set_phase p Holding (s\<lparr>sh_file := Some (p, Some p, sh_now s)\<rparr>))"
proof -
  let ?f = "\<lambda>f ph. set_phase p ph (s\<lparr>sh_file := f\<rparr>)"
  have eq: "(set_phase p ph' (s\<lparr>sh_file := f\<rparr>))\<lparr>sh_file := g\<rparr> = set_phase p ph' (s\<lparr>sh_file := g\<rparr>)" for ph' f g
    by (simp add: set_phase_def)
  have "lock_step s (?f None Retrying)" by (rule remove) (use assms in auto)
  moreover have "lock_step (?f None Retrying) (?f (Some (p, None, sh_now s)) Created)"
    using create [of "?f None Retrying" p] by (simp add: eq)
  moreover have "lock_step (?f (Some (p, None, sh_now s)) Created) (?f (Some (p, Some p, sh_now s)) Holding)"
    using write_pid [of "?f (Some (p, None, sh_now s)) Created" p None "sh_now s"] by (simp add: eq)
  ultimately show ?thesis by (meson then_step rtranclp.rtrancl_refl)
qed

text \<open>A stale lock does not block the workspace for ever: if the process named in a lock file is not running and the
  file is 24 hours old, a process that is alone in asking for the lock gets to hold it.\<close>

theorem stale_lock_reclaimed:
  assumes "sh_phase s p = Idle" and "sh_file s = Some (q, c, t)" and "staleLockAge \<le> sh_now s - t"
    and "\<forall>r. c = Some r \<longrightarrow> r \<noteq> p \<and> \<not> alive_now s r"
  shows "\<exists>s'. lock_step\<^sup>*\<^sup>* s s' \<and> sh_phase s' p = Holding \<and> sh_file s' = Some (p, Some p, sh_now s)"
proof -
  have 1: "lock_step\<^sup>*\<^sup>* s (set_phase p Removing s)" by (rule run_to_removing) (use assms in auto)
  have 2: "lock_step\<^sup>*\<^sup>* (set_phase p Removing s) (set_phase p Holding ((set_phase p Removing s)\<lparr>sh_file := Some (p, Some p, sh_now s)\<rparr>))"
    using run_to_holding [of "set_phase p Removing s" p] assms(2) by simp
  show ?thesis using rtranclp_trans [OF 1 2] by (intro exI conjI, assumption) simp_all
qed

definition crashed_lock :: shared where
  "crashed_lock = \<lparr>sh_file = Some (1, Some 1, 0), sh_now = staleLockAge, sh_phase = (\<lambda>p. if p = 1 then Crashed else Idle)\<rparr>"

text \<open>C32: Stealing a stale lock is not exclusive. After a crash that left a lock file 24 hours old, two processes can both come
  to hold the lock: each decides to remove the stale file, and the later removal takes away the lock the
  other one has just created.\<close>

theorem lock_steal_race:
  "\<exists>s. lock_step\<^sup>*\<^sup>* crashed_lock s \<and> sh_phase s 2 = Holding \<and> sh_phase s 3 = Holding"
proof -
  let ?s1 = "set_phase 2 Removing crashed_lock" let ?s2 = "set_phase 3 Removing ?s1"
  let ?h = "\<lambda>p s. set_phase p Holding (s\<lparr>sh_file := Some (p, Some p, sh_now s)\<rparr>)"
  have 1: "lock_step\<^sup>*\<^sup>* crashed_lock ?s1"
    by (rule run_to_removing [of _ _ 1 "Some 1" 0]) (auto simp: crashed_lock_def alive_now_def)
  have 2: "lock_step\<^sup>*\<^sup>* ?s1 ?s2"
    by (rule run_to_removing [of _ _ 1 "Some 1" 0]) (auto simp: crashed_lock_def alive_now_def)
  have 3: "lock_step\<^sup>*\<^sup>* ?s2 (?h 2 ?s2)" by (rule run_to_holding) (auto simp: crashed_lock_def)
  have 4: "lock_step\<^sup>*\<^sup>* (?h 2 ?s2) (?h 3 (?h 2 ?s2))" by (rule run_to_holding) (auto simp: crashed_lock_def set_phase_def)
  have "lock_step\<^sup>*\<^sup>* crashed_lock (?h 3 (?h 2 ?s2))"
    using rtranclp_trans [OF rtranclp_trans [OF rtranclp_trans [OF 1 2] 3] 4] .
  then show ?thesis by (intro exI conjI, assumption) (simp_all add: set_phase_def)
qed

section \<open>Samples\<close>

definition empty_lock :: shared where
  "empty_lock = \<lparr>sh_file = None, sh_now = 0, sh_phase = (\<lambda>_. Idle)\<rparr>"

definition sample_held :: shared where
  "sample_held = set_phase 5 Created (set_phase 5 Opening empty_lock\<lparr>sh_file := Some (5, None, 0)\<rparr>)"

theorem lock_mutual_exclusion_witness: "{q. owns sample_held q} = {5}"
proof -
  have 1: "lock_step empty_lock (set_phase 5 Opening empty_lock)" by (rule start) (simp add: empty_lock_def)
  have 2: "lock_step (set_phase 5 Opening empty_lock) sample_held"
    using create [of "set_phase 5 Opening empty_lock" 5] by (simp add: sample_held_def empty_lock_def set_phase_def)
  have r: "lock_step\<^sup>*\<^sup>* empty_lock sample_held" using 1 2 by (meson then_step rtranclp.rtrancl_refl)
  have n: "no_lock empty_lock" by (simp add: no_lock_def empty_lock_def)
  have t: "sh_now sample_held - sh_now empty_lock < staleLockAge" and o: "owns sample_held 5"
    by (simp_all add: sample_held_def empty_lock_def staleLockAge_def nanos_def owns_def)
  have "5 = q" if "owns sample_held q" for q by (rule lock_mutual_exclusion [OF r n t o that])
  with o show ?thesis by blast
qed

theorem stale_lock_reclaimed_witness: "\<exists>s'. lock_step\<^sup>*\<^sup>* crashed_lock s' \<and> sh_phase s' 2 = Holding"
proof -
  have "sh_phase crashed_lock 2 = Idle" "sh_file crashed_lock = Some (1, Some 1, 0)" "staleLockAge \<le> sh_now crashed_lock - 0"
    "\<forall>r. Some 1 = Some r \<longrightarrow> r \<noteq> 2 \<and> \<not> alive_now crashed_lock r"
    by (simp_all add: crashed_lock_def alive_now_def)
  from stale_lock_reclaimed [OF this] show ?thesis by blast
qed

definition sample_locked :: "unit world" where
  "sample_locked = snd (Lock ''/tmp'' sample_world)"

lemma sample_lock_file: "fs_node (w_fs sample_locked) (lockPath ''/tmp'') = Some (File (show_int 7 @ [newline]) 384 1717200000000000000)"
  by code_simp

theorem Lock_refuses_witness: "\<exists>e w'. Lock ''/tmp'' sample_locked = (Inl e, w') \<and> w_fs w' = w_fs sample_locked"
proof -
  have "Lock ''/tmp'' sample_world = (fst (Lock ''/tmp'' sample_world), sample_locked)"
    by (simp add: sample_locked_def prod_eq_iff)
  then have "w_env sample_locked = sample_env" using quietD [OF quiet_lock] by (fastforce simp: hist_ext_def sample_world_def)
  then have "reliable sample_locked" "\<forall>n. clock (w_env sample_locked) n - 1717200000000000000 < staleLockAge"
    by (simp_all add: reliable_def sample_env_def staleLockAge_def nanos_def)
  moreover have "path_clean (lockPath ''/tmp'') \<noteq> [slash]" "path_clean (lockPath ''/tmp'') \<noteq> ''.''" by code_simp+
  ultimately show ?thesis using Lock_refuses [OF _ sample_lock_file] by blast
qed

end
