(* ===== verification/Lock_Refinement.thy ===== *)
theory Lock_Refinement
  imports Lock
begin

text \<open>
  The two models of internal/workspace/lock.go agree: every system call that the operation \<open>Lock\<close> makes on
  the machine's file system is a step of the relation \<open>lock_step\<close> over the shared lock file, so that what holds of the
  relation's reachable states holds of the code's runs.
\<close>

section \<open>The lock file as the relation sees it\<close>

text \<open>A lock file stands for the process id it contains, if one can be read, and its modification time; which process
  created it (\<open>q\<close>) is not in the file.\<close>

definition shows_file :: "node option \<Rightarrow> (int \<times> int option \<times> instant) option \<Rightarrow> bool" where
  "shows_file n f =
     (case n of None \<Rightarrow> f = None
      | Some (File b m t) \<Rightarrow> (case f of None \<Rightarrow> False | Some (q, c, t') \<Rightarrow> c = parse_pid b \<and> t' = t)
      | Some (Dir m) \<Rightarrow> False)"

definition represents :: "string \<Rightarrow> 'x world \<Rightarrow> shared \<Rightarrow> bool" where
  "represents root w s = (shows_file (fs_node (w_fs w) (lockPath root)) (sh_file s) \<and> sh_now s = clock (w_env w) (w_tick w))"

text \<open>Process \<open>p\<close> on a machine without failing system calls, whose clock does not go back, and on which, apart from \<open>p\<close> itself, the processes run
  that \<open>s\<close> says.\<close>

definition machine :: "string \<Rightarrow> int \<Rightarrow> shared \<Rightarrow> os_env \<Rightarrow> bool" where
  "machine root p s e = ((\<forall>n. fault e n = None) \<and> mono (clock e) \<and> pid e = p \<and> int64 p
     \<and> (\<forall>n q. alive e n q = (q = p \<or> alive_now s q)) \<and> path_clean (lockPath root) \<noteq> [slash] \<and> path_clean (lockPath root) \<noteq> ''.'')"

text \<open>\<open>p\<close> has come to the phase \<open>ph\<close> from \<open>s0\<close>, with the lock file as it is in \<open>w\<close>.\<close>

definition at_phase :: "string \<Rightarrow> int \<Rightarrow> shared \<Rightarrow> phase \<Rightarrow> 'x world \<Rightarrow> bool" where
  "at_phase root p s0 ph w = (\<exists>s. lock_step\<^sup>*\<^sup>* s0 s \<and> represents root w s \<and> sh_phase s = (sh_phase s0)(p := ph)
     \<and> (ph = Created \<longrightarrow> (\<exists>c t. sh_file s = Some (p, c, t))))"

text \<open>One system call: a step of the relation, then the time until the next one.\<close>

lemma at_phase_step:
  assumes "at_phase root p s0 ph w" and m: "machine root p s0 (w_env w)"
    and w': "w_env w' = w_env w" "w_tick w' = Suc (w_tick w)"
    and step: "\<And>s. represents root w s \<Longrightarrow> sh_phase s = (sh_phase s0)(p := ph)
      \<Longrightarrow> (ph = Created \<longrightarrow> (\<exists>c t. sh_file s = Some (p, c, t)))
      \<Longrightarrow> \<exists>t. lock_step s t \<and> sh_phase t = (sh_phase s0)(p := ph') \<and> sh_now t = sh_now s
          \<and> shows_file (fs_node (w_fs w') (lockPath root)) (sh_file t) \<and> (ph' = Created \<longrightarrow> (\<exists>c t'. sh_file t = Some (p, c, t')))"
  shows "at_phase root p s0 ph' w'"
proof -
  from assms(1) obtain s where s: "lock_step\<^sup>*\<^sup>* s0 s" "represents root w s" "sh_phase s = (sh_phase s0)(p := ph)"
    "ph = Created \<longrightarrow> (\<exists>c t. sh_file s = Some (p, c, t))" unfolding at_phase_def by blast
  from step [OF s(2-4)] obtain t where t: "lock_step s t" "sh_phase t = (sh_phase s0)(p := ph')" "sh_now t = sh_now s"
    "shows_file (fs_node (w_fs w') (lockPath root)) (sh_file t)" "ph' = Created \<longrightarrow> (\<exists>c t'. sh_file t = Some (p, c, t'))" by blast
  let ?d = "clock (w_env w) (Suc (w_tick w)) - clock (w_env w) (w_tick w)"
  have "0 \<le> ?d" using m by (simp add: machine_def mono_iff_le_Suc)
  then have "lock_step t (t\<lparr>sh_now := sh_now t + ?d\<rparr>)" by (rule wait)
  with s(1) t(1) have "lock_step\<^sup>*\<^sup>* s0 (t\<lparr>sh_now := sh_now t + ?d\<rparr>)" by (meson rtranclp.rtrancl_into_rtrancl)
  moreover have "represents root w' (t\<lparr>sh_now := sh_now t + ?d\<rparr>)"
    using s(2) t(3,4) w' by (simp add: represents_def)
  ultimately show ?thesis unfolding at_phase_def using t(2,5) by (intro exI [of _ "t\<lparr>sh_now := sh_now t + ?d\<rparr>"]) simp
qed

text \<open>A step that is no system call.\<close>

lemma at_phase_internal:
  assumes "at_phase root p s0 ph w" and "ph' \<noteq> Created"
    and step: "\<And>s. sh_now s = clock (w_env w) (w_tick w) \<Longrightarrow> sh_phase s = (sh_phase s0)(p := ph) \<Longrightarrow> lock_step s (set_phase p ph' s)"
  shows "at_phase root p s0 ph' w"
proof -
  from assms(1) obtain s where s: "lock_step\<^sup>*\<^sup>* s0 s" "represents root w s" "sh_phase s = (sh_phase s0)(p := ph)"
    unfolding at_phase_def by blast
  then have "lock_step s (set_phase p ph' s)" using step by (simp add: represents_def)
  with s(1) have "lock_step\<^sup>*\<^sup>* s0 (set_phase p ph' s)" by (rule rtranclp.rtrancl_into_rtrancl)
  then show ?thesis unfolding at_phase_def using s(2,3) assms(2)
    by (intro exI [of _ "set_phase p ph' s"]) (simp add: represents_def)
qed

section \<open>The system calls\<close>

lemma sys_run: "fault (w_env w) (w_tick w) = None \<Longrightarrow> sysA f w = (fst (f (clock (w_env w) (w_tick w)) (w_fs w)),
    tickA (w\<lparr>w_fs := snd (f (clock (w_env w) (w_tick w)) (w_fs w))\<rparr>))"
  by (simp add: sysA_def split: prod.split)

lemma tick_world [simp]: "w_env (tickA w) = w_env w" "w_tick (tickA w) = Suc (w_tick w)" "w_fs (tickA w) = w_fs w"
  by (simp_all add: tickA_def)

text \<open>The lock file is no directory.\<close>

lemma lock_no_dir:
  "machine root p s0 e \<Longrightarrow> shows_file (fs_node fs (lockPath root)) f \<Longrightarrow> \<not> fs_is_dir fs (lockPath root)"
  by (auto simp: machine_def fs_is_dir_def shows_file_def split: option.splits node.splits)

lemma parse_pid_written:
  assumes "int64 p"
  shows "parse_pid (show_int p @ [newline]) = Some p"
proof -
  have ne: "show_int p \<noteq> []" by (simp add: show_int_def)
  have d: "list_all (\<lambda>c. \<not> is_space c) (show_int p)"
  proof -
    have "\<not> is_space c" if "is_digit c" for c using that by (auto simp: is_digit_def is_space_def)
    then have "list_all (\<lambda>c. \<not> is_space c) (show_dec n)" if "0 \<le> n" for n
      using show_dec_digits [OF that] by (auto simp: list_all_iff)
    moreover have "\<not> is_space CHR ''-''" by (simp add: is_space_def ord_c_def)
    ultimately show ?thesis by (simp add: show_int_def)
  qed
  have "trim_both is_space (show_int p @ [newline]) = trim_right is_space (show_int p @ [newline])"
    using ne d by (cases "show_int p") (simp_all add: trim_both_def trim_left_def)
  also have "\<dots> = trim_right is_space (show_int p)"
    by (simp add: trim_right_def newline_def is_space_def ord_c_def)
  also have "\<dots> = show_int p"
    using ne d by (cases "show_int p" rule: rev_cases) (simp_all add: trim_right_def)
  finally show ?thesis
    using assms by (simp add: parse_pid_def trim_space_def atoi_show_int)
qed

lemma parse_pid_empty: "parse_pid [] = None"
  by code_simp

lemma at_phase_tick:
  assumes "at_phase root p s0 ph w" and "machine root p s0 (w_env w)"
  shows "at_phase root p s0 ph (tickA w)"
proof -
  from assms(1) obtain s where s: "lock_step\<^sup>*\<^sup>* s0 s" "represents root w s" "sh_phase s = (sh_phase s0)(p := ph)"
    "ph = Created \<longrightarrow> (\<exists>c t. sh_file s = Some (p, c, t))" unfolding at_phase_def by blast
  let ?d = "clock (w_env w) (Suc (w_tick w)) - clock (w_env w) (w_tick w)"
  have "0 \<le> ?d" using assms(2) by (simp add: machine_def mono_iff_le_Suc)
  then have "lock_step\<^sup>*\<^sup>* s0 (s\<lparr>sh_now := sh_now s + ?d\<rparr>)" using s(1) wait by (meson rtranclp.rtrancl_into_rtrancl)
  then show ?thesis unfolding at_phase_def using s(2-4)
    by (intro exI [of _ "s\<lparr>sh_now := sh_now s + ?d\<rparr>"]) (simp add: represents_def)
qed

lemma shows_file_cases: "shows_file n f \<Longrightarrow> n = None \<or> (\<exists>b m t. n = Some (File b m t))"
  by (cases n; cases "the n") (simp_all add: shows_file_def)

lemma at_phase_file:
  "at_phase root p s0 ph w \<Longrightarrow> fs_node (w_fs w) (lockPath root) = None \<or> (\<exists>b m t. fs_node (w_fs w) (lockPath root) = Some (File b m t))"
  unfolding at_phase_def represents_def using shows_file_cases by blast

lemma at_phase_no_dir: "at_phase root p s0 ph w \<Longrightarrow> machine root p s0 (w_env w) \<Longrightarrow> \<not> fs_is_dir (w_fs w) (lockPath root)"
  using lock_no_dir by (fastforce simp: at_phase_def represents_def)

text \<open>\<open>os.OpenFile\<close> with \<open>O_EXCL\<close>.\<close>

lemma open_creates:
  assumes a: "at_phase root p s0 ph w" and m: "machine root p s0 (w_env w)" and ph: "ph \<in> {Opening, Retrying}"
    and d: "fs_is_dir (w_fs w) (path_dir (lockPath root))" and n: "fs_node (w_fs w) (lockPath root) = None"
  shows "\<exists>w'. OpenExcl (lockPath root) 384 w = (Inr (), w') \<and> w_env w' = w_env w
    \<and> (\<exists>m t. fs_node (w_fs w') (lockPath root) = Some (File [] m t)) \<and> at_phase root p s0 Created w'"
proof -
  let ?t = "clock (w_env w) (w_tick w)"
  let ?w = "tickA (w\<lparr>w_fs := fs_put (lockPath root) (File [] 384 ?t) (w_fs w)\<rparr>)"
  have "OpenExcl (lockPath root) 384 w = (Inr (), ?w)"
    using m d n at_phase_no_dir [OF a m] by (simp add: OpenExcl_def sys_run machine_def fs_open_excl_def)
  moreover have "at_phase root p s0 Created ?w"
  proof (rule at_phase_step [OF a m])
    fix s :: shared assume s: "represents root w s" "sh_phase s = (sh_phase s0)(p := ph)"
    let ?s = "set_phase p Created (s\<lparr>sh_file := Some (p, None, sh_now s)\<rparr>)"
    have "sh_file s = None" using s(1) n by (simp add: represents_def shows_file_def)
    then have "lock_step s ?s" using s(2) ph by (intro create) auto
    then show "\<exists>t. lock_step s t \<and> sh_phase t = (sh_phase s0)(p := Created) \<and> sh_now t = sh_now s
        \<and> shows_file (fs_node (w_fs ?w) (lockPath root)) (sh_file t) \<and> (Created = Created \<longrightarrow> (\<exists>c t'. sh_file t = Some (p, c, t')))"
      using s by (intro exI [of _ ?s]) (simp add: represents_def shows_file_def fs_node_put parse_pid_empty)
  qed simp_all
  ultimately show ?thesis by (intro exI [of _ ?w]) (simp add: fs_node_put)
qed

lemma open_fails:
  assumes a: "at_phase root p s0 ph w" and m: "machine root p s0 (w_env w)"
    and n: "fs_node (w_fs w) (lockPath root) = Some nd" and ph: "(ph, ph') \<in> {(Opening, Found), (Retrying, Failed)}"
  shows "OpenExcl (lockPath root) 384 w = (Inl (path_error KExist ''open'' (lockPath root) ''file exists''), tickA w)"
    and "at_phase root p s0 ph' (tickA w)"
proof -
  show "OpenExcl (lockPath root) 384 w = (Inl (path_error KExist ''open'' (lockPath root) ''file exists''), tickA w)"
    by (rule excl_exists [OF _ n]) (use m in \<open>simp add: machine_def reliable_def\<close>)
  show "at_phase root p s0 ph' (tickA w)"
  proof (rule at_phase_step [OF a m])
    fix s :: shared assume s: "represents root w s" "sh_phase s = (sh_phase s0)(p := ph)"
    have f: "sh_file s \<noteq> None" using s(1) n by (auto simp: represents_def shows_file_def split: node.splits option.splits)
    have "lock_step s (set_phase p ph' s)" using ph s(2) exists [of s p] lost [of s p] f by auto
    then show "\<exists>t. lock_step s t \<and> sh_phase t = (sh_phase s0)(p := ph') \<and> sh_now t = sh_now s
        \<and> shows_file (fs_node (w_fs (tickA w)) (lockPath root)) (sh_file t) \<and> (ph' = Created \<longrightarrow> (\<exists>c t'. sh_file t = Some (p, c, t')))"
      using s ph by (intro exI [of _ "set_phase p ph' s"]) (auto simp: represents_def)
  qed simp_all
qed

text \<open>\<open>os.Stat\<close> and \<open>os.ReadFile\<close>, which change nothing.\<close>

lemma look_step:
  assumes a: "at_phase root p s0 ph w" and m: "machine root p s0 (w_env w)" and c: "ph' \<noteq> Created"
    and n: "fs_node (w_fs w) (lockPath root) = Some (File b md t)"
    and step: "\<And>s q. sh_phase s p = ph \<Longrightarrow> sh_file s = Some (q, parse_pid b, t) \<Longrightarrow> lock_step s (set_phase p ph' s)"
  shows "at_phase root p s0 ph' (tickA w)"
proof (rule at_phase_step [OF a m])
  fix s :: shared assume s: "represents root w s" "sh_phase s = (sh_phase s0)(p := ph)"
  then obtain q where "sh_file s = Some (q, parse_pid b, t)" using n by (auto simp: represents_def shows_file_def split: option.splits)
  then have "lock_step s (set_phase p ph' s)" using step s(2) by simp
  then show "\<exists>t. lock_step s t \<and> sh_phase t = (sh_phase s0)(p := ph') \<and> sh_now t = sh_now s
      \<and> shows_file (fs_node (w_fs (tickA w)) (lockPath root)) (sh_file t) \<and> (ph' = Created \<longrightarrow> (\<exists>c t'. sh_file t = Some (p, c, t')))"
    using s c by (intro exI [of _ "set_phase p ph' s"]) (simp add: represents_def)
qed simp_all

text \<open>\<open>os.Remove\<close>, of a stale lock and of the own one.\<close>

lemma remove_step:
  assumes a: "at_phase root p s0 ph w" and m: "machine root p s0 (w_env w)" and n: "fs_node (w_fs w) (lockPath root) = Some nd"
    and ph: "(ph, ph') \<in> {(Removing, Retrying), (Holding, Idle)}"
  shows "Remove (lockPath root) w = (Inr (), tickA (w\<lparr>w_fs := fs_del (lockPath root) (w_fs w)\<rparr>))"
    and "at_phase root p s0 ph' (tickA (w\<lparr>w_fs := fs_del (lockPath root) (w_fs w)\<rparr>))"
proof -
  show "Remove (lockPath root) w = (Inr (), tickA (w\<lparr>w_fs := fs_del (lockPath root) (w_fs w)\<rparr>))"
    using m n at_phase_no_dir [OF a m] by (simp add: Remove_def sys_run machine_def fs_remove_def)
  show "at_phase root p s0 ph' (tickA (w\<lparr>w_fs := fs_del (lockPath root) (w_fs w)\<rparr>))"
  proof (rule at_phase_step [OF a m])
    fix s :: shared assume s: "represents root w s" "sh_phase s = (sh_phase s0)(p := ph)"
    let ?s = "set_phase p ph' (s\<lparr>sh_file := None\<rparr>)"
    have "sh_file s \<noteq> None" using s(1) n by (auto simp: represents_def shows_file_def split: node.splits option.splits)
    then have "lock_step s ?s" using ph s(2) remove [of s p] release [of s p] by auto
    then show "\<exists>t. lock_step s t \<and> sh_phase t = (sh_phase s0)(p := ph') \<and> sh_now t = sh_now s
        \<and> shows_file (fs_node (w_fs (tickA (w\<lparr>w_fs := fs_del (lockPath root) (w_fs w)\<rparr>))) (lockPath root)) (sh_file t)
        \<and> (ph' = Created \<longrightarrow> (\<exists>c t'. sh_file t = Some (p, c, t')))"
      using s ph by (intro exI [of _ ?s]) (auto simp: represents_def shows_file_def fs_node_del)
  qed simp_all
qed

text \<open>Writing the process id.\<close>

lemma write_step:
  assumes a: "at_phase root p s0 Created w" and m: "machine root p s0 (w_env w)"
    and n: "fs_node (w_fs w) (lockPath root) = Some (File [] md t0)"
  shows "\<exists>w'. WriteBytes (lockPath root) (show_int p @ [newline]) w = (Inr (), w') \<and> w_env w' = w_env w \<and> at_phase root p s0 Holding w'"
proof -
  let ?t = "clock (w_env w) (w_tick w)" and ?d = "show_int p @ [newline]"
  let ?w = "tickA (w\<lparr>w_fs := fs_append (lockPath root) ?d ?t (w_fs w)\<rparr>)"
  have "WriteBytes (lockPath root) ?d w = (Inr (), ?w)" using m by (simp add: WriteBytes_def machine_def)
  moreover have "at_phase root p s0 Holding ?w"
  proof (rule at_phase_step [OF a m])
    fix s :: shared assume s: "represents root w s" "sh_phase s = (sh_phase s0)(p := Created)" "Created = Created \<longrightarrow> (\<exists>c t. sh_file s = Some (p, c, t))"
    then obtain c t where f: "sh_file s = Some (p, c, t)" by blast
    let ?s = "set_phase p Holding (s\<lparr>sh_file := Some (p, Some p, sh_now s)\<rparr>)"
    have "lock_step s ?s" by (rule write_pid [OF _ f]) (simp add: s(2))
    then show "\<exists>t. lock_step s t \<and> sh_phase t = (sh_phase s0)(p := Holding) \<and> sh_now t = sh_now s
        \<and> shows_file (fs_node (w_fs ?w) (lockPath root)) (sh_file t) \<and> (Holding = Created \<longrightarrow> (\<exists>c t'. sh_file t = Some (p, c, t')))"
      using s f n m by (intro exI [of _ ?s]) (simp add: represents_def shows_file_def fs_node_append machine_def parse_pid_written)
  qed simp_all
  ultimately show ?thesis by (intro exI [of _ ?w]) simp
qed

section \<open>The operation\<close>

text \<open>The end of \<open>Lock\<close>: the file exists, now the process id is written.\<close>

lemma lock_writes:
  assumes "at_phase root p s0 Created w" and "machine root p s0 (w_env w)" and "fs_node (w_fs w) (lockPath root) = Some (File [] m t)"
  shows "\<exists>w'. bindA (get_env pid) (\<lambda>p. ignoreA (WriteBytes (lockPath root) (show_int p @ [newline]))) w = (Inr (), w')
    \<and> at_phase root p s0 Holding w'"
  using write_step [OF assms] assms(2) by (auto simp: bindA_def get_env_def ignoreA_def tryA_def returnA_def machine_def)

text \<open>The directory of the lock file is not the lock file, so that removing this one keeps that one.\<close>

lemma dir_kept:
  assumes "fs_is_dir fs d" and "\<not> fs_is_dir fs p"
  shows "fs_is_dir (fs_del p fs) d"
proof -
  have "path_clean d \<noteq> path_clean p" using assms by (auto simp: fs_is_dir_def fs_node_def)
  then show ?thesis using assms(1) by (simp add: fs_is_dir_def fs_node_del)
qed

text \<open>\<open>stealStaleLock\<close> ends in the phase from which \<open>Lock\<close> tries again, with the file gone, or in failure.\<close>

lemma steal_run:
  assumes a: "at_phase root p s0 Found w" and m: "machine root p s0 (w_env w)"
    and n: "fs_node (w_fs w) (lockPath root) = Some (File b md t)" and d: "fs_is_dir (w_fs w) (path_dir (lockPath root))"
  shows "\<exists>r w'. stealStaleLock (lockPath root) w = (r, w') \<and> w_env w' = w_env w
    \<and> (case r of Inl e \<Rightarrow> at_phase root p s0 Failed w' \<and> \<not> is_panic e
        | Inr _ \<Rightarrow> at_phase root p s0 Retrying w' \<and> fs_node (w_fs w') (lockPath root) = None \<and> fs_is_dir (w_fs w') (path_dir (lockPath root)))"
proof -
  let ?p = "lockPath root"
  have rel: "reliable v" if "w_env v = w_env w" for v using m that by (simp add: reliable_def machine_def)
  have st: "Stat ?p w = (Inr (File b md t), tickA w)" by (rule stat_file [OF rel n]) simp
  have rd: "ReadFile ?p (tickA w) = (Inr b, tickA (tickA w))"
    using fs_read_file [OF n] m rel [of "tickA w"] by (intro ReadFile_ok) (simp_all add: reliable_def machine_def)
  have a1: "at_phase root p s0 (Stated t) (tickA w)" by (rule look_step [OF a m _ n]) (use stat in auto)
  have a2: "at_phase root p s0 (PidRead t (parse_pid b)) (tickA (tickA w))"
    by (rule look_step [OF a1]) (use m n read_pid in auto)
  have ro: "readLockPID ?p (tickA w) = (Inr (parse_pid b), tickA (tickA w))"
    by (simp add: readLockPID_def tryA_def rd returnA_def)
  define u where "u = (if parse_pid b = None then tickA (tickA w) else tickA (tickA (tickA w)))"
  have u: "w_env u = w_env w" "w_fs u = w_fs w" by (simp_all add: u_def)
  define al where "al = (\<exists>q. parse_pid b = Some q \<and> (q = p \<or> alive_now s0 q))"
  have ha: "holder_alive (parse_pid b) (tickA (tickA w)) = (Inr al, u)"
    using m by (auto simp: holder_alive_def u_def al_def processAlive_def returnA_def machine_def split: option.split)
  have a3: "at_phase root p s0 (PidRead t (parse_pid b)) u"
  proof -
    have "u = tickA (tickA w) \<or> u = tickA (tickA (tickA w))" by (simp add: u_def)
    then show ?thesis using a2 at_phase_tick [OF a2] m by auto
  qed
  have alive: "alive_now s q = (q = p \<or> alive_now s0 q)" if "sh_phase s = (sh_phase s0)(p := PidRead t (parse_pid b))" for s :: shared and q
    using that by (auto simp: alive_now_def)
  let ?now = "clock (w_env u) (w_tick u)"
  have run: "stealStaleLock ?p w = (if al then (Inl (in_use_error ?p (the (parse_pid b))), u)
      else if ?now - t < staleLockAge then (Inl (young_error ?p (?now - t)), tickA u) else Remove ?p (tickA u))"
    by (simp add: stealStaleLock_def tryA_def st bindA_def ro ha failA_def nowA_def node_time_def)
  show ?thesis
  proof (cases al)
    case True
    then obtain q where q: "parse_pid b = Some q" "q = p \<or> alive_now s0 q" by (auto simp: al_def)
    have "at_phase root p s0 Failed u"
    proof (rule at_phase_internal [OF a3])
      fix s :: shared assume s: "sh_phase s = (sh_phase s0)(p := PidRead t (parse_pid b))"
      show "lock_step s (set_phase p Failed s)" by (rule in_use [of _ _ t q]) (use s q alive [OF s] in auto)
    qed simp
    then show ?thesis using run True u by (auto simp: in_use_error_def)
  next
    case False
    show ?thesis
    proof (cases "?now - t < staleLockAge")
      case True
      have "at_phase root p s0 Failed u"
      proof (rule at_phase_internal [OF a3])
        fix s :: shared assume s: "sh_now s = ?now" "sh_phase s = (sh_phase s0)(p := PidRead t (parse_pid b))"
        show "lock_step s (set_phase p Failed s)"
          by (rule young [of _ _ t "parse_pid b"]) (use s True False alive [OF s(2)] in \<open>auto simp: al_def\<close>)
      qed simp
      then have "at_phase root p s0 Failed (tickA u)" by (rule at_phase_tick) (use m u in simp)
      then show ?thesis using run True False u by (auto simp: young_error_def)
    next
      case old_age: False
      have "at_phase root p s0 Removing u"
      proof (rule at_phase_internal [OF a3])
        fix s :: shared assume s: "sh_now s = ?now" "sh_phase s = (sh_phase s0)(p := PidRead t (parse_pid b))"
        show "lock_step s (set_phase p Removing s)"
          by (rule old [of _ _ t "parse_pid b"]) (use s old_age False alive [OF s(2)] in \<open>auto simp: al_def\<close>)
      qed simp
      then have r: "at_phase root p s0 Removing (tickA u)" by (rule at_phase_tick) (use m u in simp)
      have nd: "fs_node (w_fs (tickA u)) ?p = Some (File b md t)" "machine root p s0 (w_env (tickA u))" using n m u by simp_all
      note rm = remove_step [OF r nd(2,1), of Retrying]
      have "\<not> fs_is_dir (w_fs w) ?p" by (rule at_phase_no_dir [OF a m])
      then show ?thesis using run old_age False rm u dir_kept [OF d] by (simp add: fs_node_del)
    qed
  qed
qed

text \<open>The operation, system call by system call.\<close>

lemma lock_follows:
  assumes "represents root w s0" and "sh_phase s0 p = Idle" and m: "machine root p s0 (w_env w)"
    and d: "fs_is_dir (w_fs w) (path_dir (lockPath root))" and run: "Lock root w = (r, w')"
  shows "at_phase root p s0 (if is_ok r then Holding else Failed) w'"
proof -
  let ?p = "lockPath root"
  have "lock_step s0 (set_phase p Opening s0)" by (rule start) (rule assms)
  then have a: "at_phase root p s0 Opening w"
    using assms(1) unfolding at_phase_def by (intro exI [of _ "set_phase p Opening s0"]) (auto simp: represents_def)
  from at_phase_file [OF a] show ?thesis
  proof (elim disjE exE)
    assume "fs_node (w_fs w) ?p = None"
    from open_creates [OF a m _ d this] obtain w1 md t where 1: "OpenExcl ?p 384 w = (Inr (), w1)" "w_env w1 = w_env w"
      "fs_node (w_fs w1) ?p = Some (File [] md t)" "at_phase root p s0 Created w1" by auto
    from lock_writes [OF 1(4) _ 1(3)] m 1(2) show ?thesis
      using run 1(1) by (auto simp: Lock_def Let_def bindA_def [of "tryA _ _"] tryA_def returnA_def)
  next
    fix b md t assume n: "fs_node (w_fs w) ?p = Some (File b md t)"
    note o = open_fails [OF a m n, of Found]
    obtain q w1 where st: "stealStaleLock ?p (tickA w) = (q, w1)" "w_env w1 = w_env w"
      "case q of Inl e \<Rightarrow> at_phase root p s0 Failed w1 \<and> \<not> is_panic e
        | Inr _ \<Rightarrow> at_phase root p s0 Retrying w1 \<and> fs_node (w_fs w1) ?p = None \<and> fs_is_dir (w_fs w1) (path_dir ?p)"
      using steal_run [OF o(2), of b md t] m n d by auto
    show ?thesis
    proof (cases q)
      case (Inl e)
      then show ?thesis using run st o(1) by (auto simp: Lock_def Let_def bindA_def tryA_def path_error_def is_panic_def)
    next
      case (Inr x)
      with st have s: "at_phase root p s0 Retrying w1" "fs_node (w_fs w1) ?p = None" "fs_is_dir (w_fs w1) (path_dir ?p)" by simp_all
      from open_creates [OF s(1) _ _ s(3,2)] m st(2) obtain w2 md' t' where 2: "OpenExcl ?p 384 w1 = (Inr (), w2)" "w_env w2 = w_env w1"
        "fs_node (w_fs w2) ?p = Some (File [] md' t')" "at_phase root p s0 Created w2" by auto
      from lock_writes [OF 2(4) _ 2(3)] m 2(2) st(2) obtain w3
        where 3: "bindA (get_env pid) (\<lambda>p. ignoreA (WriteBytes ?p (show_int p @ [newline]))) w2 = (Inr (), w3)"
          and h: "at_phase root p s0 Holding w3" by auto
      have "Lock root w = (Inr (), w3)" using 3 st(1) 2(1) o(1) Inr
        by (simp add: Lock_def Let_def bindA_def [of "tryA _ _"] bindA_def [of "stealStaleLock _"] tryA_def wrapA_def path_error_def is_panic_def)
      then show ?thesis using run h by simp
    qed
  qed
qed

text \<open>C30: The operation follows the relation. Run from a state of the relation in which \<open>p\<close> is idle, by process \<open>p\<close> on a machine
  whose file system shows that state's lock file, \<open>Lock\<close> brings \<open>p\<close> to hold the lock if it succeeds and to have
  failed if it returns an error, by steps of the relation that leave the other processes where they are,
  and the lock file is that of the state reached.\<close>

theorem Lock_refines:
  assumes "represents root w s0" and "sh_phase s0 p = Idle" and "machine root p s0 (w_env w)"
    and "fs_is_dir (w_fs w) (path_dir (lockPath root))" and "Lock root w = (r, w')"
  shows "\<exists>s. lock_step\<^sup>*\<^sup>* s0 s \<and> represents root w' s \<and> sh_phase s = (sh_phase s0)(p := if is_ok r then Holding else Failed)"
  using lock_follows [OF assms] unfolding at_phase_def by blast

text \<open>The function \<open>Lock\<close> returns gives the lock back.\<close>

lemma unlock_refines:
  assumes a: "at_phase root p s0 Holding w" and m: "machine root p s0 (w_env w)"
  shows "\<exists>w'. unlock root w = (Inr (), w') \<and> fs_node (w_fs w') (lockPath root) = None \<and> at_phase root p s0 Idle w'"
proof (cases "fs_node (w_fs w) (lockPath root)")
  case None
  have "Remove (lockPath root) w = (Inl (no_such ''remove'' (lockPath root)), tickA w)"
    using m None by (simp add: Remove_def sys_run machine_def fs_remove_def)
  moreover have "at_phase root p s0 Idle (tickA w)"
  proof (rule at_phase_step [OF a m])
    fix s :: shared assume s: "represents root w s" "sh_phase s = (sh_phase s0)(p := Holding)"
    let ?s = "set_phase p Idle (s\<lparr>sh_file := None\<rparr>)"
    have "lock_step s ?s" by (rule release) (simp add: s(2))
    then show "\<exists>t. lock_step s t \<and> sh_phase t = (sh_phase s0)(p := Idle) \<and> sh_now t = sh_now s
        \<and> shows_file (fs_node (w_fs (tickA w)) (lockPath root)) (sh_file t) \<and> (Idle = Created \<longrightarrow> (\<exists>c t'. sh_file t = Some (p, c, t')))"
      using s None by (intro exI [of _ ?s]) (simp add: shows_file_def)
  qed simp_all
  ultimately show ?thesis using None
    by (simp add: unlock_def ignoreA_def tryA_def returnA_def no_such_def path_error_def is_panic_def)
next
  case (Some nd)
  note r = remove_step [OF a m Some, of Idle]
  then show ?thesis by (simp add: unlock_def ignoreA_def tryA_def returnA_def fs_node_del)
qed

text \<open>C9: Mutual exclusion of the code. As long as a process \<open>q\<close> owns the lock in a run of the relation that began without a
  lock file less than 24 hours ago, the operation \<open>Lock\<close> of another process returns an error, whatever the
  other processes did before.\<close>

theorem Lock_excludes:
  assumes "lock_step\<^sup>*\<^sup>* i s0" and "no_lock i" and "owns s0 q" and p: "sh_phase s0 p = Idle"
    and "represents root w s0" and "machine root p s0 (w_env w)" and "fs_is_dir (w_fs w) (path_dir (lockPath root))"
    and "Lock root w = (r, w')" and "clock (w_env w') (w_tick w') - sh_now i < staleLockAge"
  shows "\<exists>e. r = Inl e"
proof (rule ccontr)
  assume "\<nexists>e. r = Inl e"
  then have ok: "is_ok r" by (cases r) (simp_all add: is_ok_iff)
  obtain s where s: "lock_step\<^sup>*\<^sup>* s0 s" "represents root w' s" "sh_phase s = (sh_phase s0)(p := Holding)"
    using lock_follows [OF assms(5) p assms(6,7,8)] ok unfolding at_phase_def by auto
  have "lock_inv (sh_now i) s" using lock_inv_reachable [OF rtranclp_trans [OF assms(1) s(1)] assms(2)] .
  moreover have "sh_now s - sh_now i < staleLockAge" using s(2) assms(9) by (simp add: represents_def)
  ultimately have ph: "phase_ok (sh_now i) (sh_file s) x (sh_phase s x)" for x unfolding lock_inv_def by blast
  have "q \<noteq> p" using assms(3) p by (auto simp: owns_def)
  with assms(3) s(3) have "sh_phase s q \<in> {Created, Holding}" "sh_phase s p = Holding" by (simp_all add: owns_def)
  then show False using ph [of p] ph [of q] \<open>q \<noteq> p\<close> by (auto simp: phase_ok_def)
qed

section \<open>Runs\<close>

definition two_processes :: os_env where
  "two_processes = sample_env\<lparr>alive := (\<lambda>_ q. q = 7 \<or> q = 5)\<rparr>"

definition the_time :: instant where
  "the_time = 1717200000000000000"

definition nobody :: shared where
  "nobody = \<lparr>sh_file = None, sh_now = the_time, sh_phase = (\<lambda>_. Idle)\<rparr>"

definition process_5 :: shared where
  "process_5 = set_phase 5 Created (set_phase 5 Opening nobody\<lparr>sh_file := Some (5, None, the_time)\<rparr>)"

definition locked_world :: "unit world" where
  "locked_world = sample_world\<lparr>w_env := two_processes, w_fs := [(''/tmp'', Dir 511), (''/tmp/.dockvault.lock'', File [] 384 the_time)]\<rparr>"

lemma two_machine:
  "machine ''/tmp'' 7 process_5 two_processes" "machine ''/tmp'' 7 nobody (two_processes\<lparr>alive := (\<lambda>_ q. q = 7)\<rparr>)"
proof -
  have p: "path_clean (lockPath ''/tmp'') \<noteq> [slash]" "path_clean (lockPath ''/tmp'') \<noteq> ''.''" by code_simp+
  show "machine ''/tmp'' 7 process_5 two_processes" "machine ''/tmp'' 7 nobody (two_processes\<lparr>alive := (\<lambda>_ q. q = 7)\<rparr>)"
    by (auto simp: machine_def two_processes_def sample_env_def p mono_def int64_def int64_max_def alive_now_def process_5_def nobody_def)
qed

theorem Lock_excludes_witness: "\<exists>e. fst (Lock ''/tmp'' locked_world) = Inl e"
proof -
  have 1: "lock_step nobody (set_phase 5 Opening nobody)" by (rule start) (simp add: nobody_def)
  have 2: "lock_step (set_phase 5 Opening nobody) process_5"
    using create [of "set_phase 5 Opening nobody" 5] by (simp add: process_5_def nobody_def set_phase_def)
  have i: "lock_step\<^sup>*\<^sup>* nobody process_5" using 1 2 by (meson then_step rtranclp.rtrancl_refl)
  have n: "no_lock nobody" "owns process_5 5" "sh_phase process_5 7 = Idle"
    by (simp_all add: no_lock_def owns_def process_5_def nobody_def)
  have "fs_node (w_fs locked_world) (lockPath ''/tmp'') = Some (File [] 384 the_time)" by code_simp
  then have r: "represents ''/tmp'' locked_world process_5"
    by (simp add: represents_def shows_file_def process_5_def nobody_def parse_pid_empty set_phase_def)
      (simp add: locked_world_def two_processes_def sample_world_def sample_env_def the_time_def)
  have m: "machine ''/tmp'' 7 process_5 (w_env locked_world)" using two_machine(1) by (simp add: locked_world_def)
  have d: "fs_is_dir (w_fs locked_world) (path_dir (lockPath ''/tmp''))" by code_simp
  obtain q w' where run: "Lock ''/tmp'' locked_world = (q, w')" by force
  have "w_env w' = two_processes" using quietD [OF quiet_lock run] by (simp add: hist_ext_def locked_world_def)
  then have "clock (w_env w') (w_tick w') - sh_now nobody < staleLockAge"
    by (simp add: two_processes_def sample_env_def nobody_def the_time_def staleLockAge_def nanos_def)
  from Lock_excludes [OF i n r m d run this] show ?thesis by (simp add: run)
qed

theorem Lock_refines_witness:
  "\<exists>s. lock_step\<^sup>*\<^sup>* nobody s \<and> sh_phase s 7 = Holding \<and> sh_phase s 5 = Idle"
proof -
  let ?w = "sample_world\<lparr>w_env := two_processes\<lparr>alive := (\<lambda>_ q. q = 7)\<rparr>\<rparr>"
  have "fs_node (w_fs ?w) (lockPath ''/tmp'') = None" "fs_is_dir (w_fs ?w) (path_dir (lockPath ''/tmp''))" "is_ok (fst (Lock ''/tmp'' ?w))"
    by code_simp+
  moreover obtain q w' where run: "Lock ''/tmp'' ?w = (q, w')" by force
  moreover have "represents ''/tmp'' ?w nobody"
    using calculation(1) by (simp add: represents_def shows_file_def nobody_def)
      (simp add: two_processes_def sample_world_def sample_env_def the_time_def)
  moreover have "sh_phase nobody 7 = Idle" by (simp add: nobody_def)
  moreover have "machine ''/tmp'' 7 nobody (w_env ?w)" using two_machine(2) by simp
  ultimately obtain s where "lock_step\<^sup>*\<^sup>* nobody s" "sh_phase s = (sh_phase nobody)(7 := Holding)"
    using Lock_refines [of "''/tmp''" ?w nobody 7 q w'] by auto
  then show ?thesis by (intro exI [of _ s]) (simp add: nobody_def)
qed

end
