(* ===== verification/Detector.thy ===== *)
theory Detector
  imports Docker_Client Naming
begin

text \<open>
  internal/detector's scans (detector.go, platform.go): from the volumes and containers that docker
  lists, what each volume holds, the credentials in its container's environment, and the job
  proposed for it; and the host paths worth backing up.
\<close>

section \<open>Results\<close>

record VolumeInfo =
  vi_Name :: string
  vi_Containers :: "string list"
  vi_ServiceType :: string
  vi_Credentials :: smap
  vi_RecommendedBackupType :: string
  vi_JobName :: string
  vi_GoogleDrivePath :: string
  vi_VolumeIdentifier :: string

record ContainerInfo =
  ci_ID :: string
  ci_Name :: string
  ci_Image :: string
  ci_Running :: bool
  ci_Env :: smap
  ci_Ports :: "int list"

record HostPathInfo =
  hp_Path :: string
  hp_Kind :: string
  hp_Source :: string
  hp_RecommendedBackupType :: string
  hp_JobName :: string
  hp_GoogleDrivePath :: string
  hp_VolumeIdentifier :: string

record 'x detectorImpl =
  de_programs :: "'x programs"
  de_bin :: string
  de_hostname :: string
  de_environment :: string

definition New_detector :: "'x programs \<Rightarrow> string \<Rightarrow> string \<Rightarrow> ('x detectorImpl, 'x) act" where
  "New_detector X binPath environment =
     bindA (get_env host_name) (\<lambda>h.
       let host = (case h of Inl _ \<Rightarrow> ''unknown-host'' | Inr s \<Rightarrow> if s = [] then ''unknown-host'' else s)
       in returnA \<lparr>de_programs = X, de_bin = binPath, de_hostname = sanitizeComponent host,
                   de_environment = NormalizeEnvironment environment\<rparr>)"

definition googleDrivePath :: "'x detectorImpl \<Rightarrow> string \<Rightarrow> string \<Rightarrow> string" where
  "googleDrivePath d serviceType jobName = RemotePath (de_environment d) (de_hostname d) serviceType jobName"

section \<open>Credentials\<close>

definition known_keys :: "string \<Rightarrow> string list" where
  "known_keys img = CredentialEnvKeysFor (DetectServiceType img)"

definition looks_secret :: "string \<Rightarrow> bool" where
  "looks_secret key = list_ex (contains (to_upper key)) genericSecretMarkers"

text \<open>The environment is a map, so the order of the second loop does not show.\<close>

definition ExtractCredentials :: "ContainerInfo \<Rightarrow> smap" where
  "ExtractCredentials container =
     (let known = known_keys (ci_Image container);
          creds = fold (\<lambda>key m. case map_of (ci_Env container) key of Some v \<Rightarrow> mput key v m | None \<Rightarrow> m) known []
      in foldr (\<lambda>(key, val) m. if key \<in> set known then m else if looks_secret key then mput key val m else m)
           (ci_Env container) creds)"

section \<open>Volumes\<close>

definition container_info :: "ContainerDetail \<Rightarrow> ContainerInfo" where
  "container_info c = \<lparr>ci_ID = cd_ID c, ci_Name = cd_Name c, ci_Image = cd_Image c, ci_Running = cd_Running c,
     ci_Env = cd_Env c, ci_Ports = cd_Ports c\<rparr>"

text \<open>The containers that mount a volume, once for every mount.\<close>

definition users_of :: "ContainerDetail list \<Rightarrow> string \<Rightarrow> ContainerDetail list" where
  "users_of details v =
     concat (map (\<lambda>det. map (\<lambda>_. det) (filter (\<lambda>m. mt_Type m = ''volume'' \<and> mt_Name m \<noteq> [] \<and> mt_Name m = v) (cd_Mounts det))) details)"

definition image_service :: "ContainerDetail list \<Rightarrow> string option" where
  "image_service users = map_option (\<lambda>c. DetectServiceType (cd_Image c)) (find (\<lambda>c. DetectServiceType (cd_Image c) \<noteq> ServiceGeneric) users)"

definition port_service :: "int list \<Rightarrow> string option" where
  "port_service ports = map_option DetectServiceTypeFromPort (find (\<lambda>p. DetectServiceTypeFromPort p \<noteq> []) ports)"

text \<open>The service type of a volume and the credentials found for it.\<close>

definition classify :: "ContainerDetail list \<Rightarrow> string \<times> smap" where
  "classify users =
     (let matched = image_service users; serviceType = (case matched of Some t \<Rightarrow> t | None \<Rightarrow> ServiceGeneric)
      in case users of
           [] \<Rightarrow> (serviceType, [])
         | u # _ \<Rightarrow>
             let target = (case find (\<lambda>c. DetectServiceType (cd_Image c) = serviceType) users of Some c \<Rightarrow> c | None \<Rightarrow> u);
                 creds = ExtractCredentials (container_info target)
             in (if matched = None then (case port_service (cd_Ports target) of Some t \<Rightarrow> t | None \<Rightarrow> serviceType) else serviceType,
                 creds))"

definition volume_job_name :: "string \<Rightarrow> string \<Rightarrow> smap \<Rightarrow> string list \<Rightarrow> string" where
  "volume_job_name v serviceType creds containerNames =
     (if serviceType = ServiceGeneric \<and> containerNames \<noteq> []
      then let cname = sanitizeComponent (hd containerNames); suffix = volumeSuffix v cname
           in if suffix \<noteq> [] then sanitizeComponent (cname @ ''_'' @ suffix) else cname
      else GenerateJobName v serviceType creds)"

definition volume_info :: "'x detectorImpl \<Rightarrow> ContainerDetail list \<Rightarrow> string \<Rightarrow> VolumeInfo" where
  "volume_info d details v =
     (let users = users_of details v; names = map cd_Name users; (serviceType, creds) = classify users;
          jobName = volume_job_name v serviceType creds names
      in \<lparr>vi_Name = v, vi_Containers = names, vi_ServiceType = serviceType, vi_Credentials = creds,
          vi_RecommendedBackupType = RecommendedBackupType serviceType, vi_JobName = jobName,
          vi_GoogleDrivePath = googleDrivePath d serviceType jobName, vi_VolumeIdentifier = VolumeIdentifier v\<rparr>)"

definition ScanVolumes :: "'x detectorImpl \<Rightarrow> (VolumeInfo list, 'x) act" where
  "ScanVolumes d =
     bindA (wrapA (wrapf ''listing volumes'') (ListVolumes (de_programs d) (de_bin d))) (\<lambda>vols.
     bindA (wrapA (wrapf ''listing containers'') (ListContainers (de_programs d) (de_bin d) False)) (\<lambda>refs.
     bindA (InspectContainers (de_programs d) (de_bin d) (map cr_ID refs)) (\<lambda>(details, _).
       returnA (sort_key vi_Name (map (\<lambda>v. volume_info d details (vs_Name v)) vols)))))"

definition ScanContainers :: "'x detectorImpl \<Rightarrow> (ContainerInfo list, 'x) act" where
  "ScanContainers d =
     bindA (wrapA (wrapf ''listing containers'') (ListContainers (de_programs d) (de_bin d) False)) (\<lambda>refs.
       forA refs (\<lambda>ref out. tryA (InspectContainer (de_programs d) (de_bin d) (cr_ID ref)) (\<lambda>r. case r of
           Inl _ \<Rightarrow> returnA out
         | Inr detail \<Rightarrow> returnA (out @ [container_info detail]))) [])"

section \<open>Host paths\<close>

definition systemDrive :: "os_env \<Rightarrow> string" where
  "systemDrive e = (if getenv e ''SystemDrive'' \<noteq> [] then getenv e ''SystemDrive'' else ''C:'')"

definition backslashed :: "string list \<Rightarrow> string" where
  "backslashed xs = concat (map (\<lambda>x. chr_n 92 # x) xs)"

definition notableHostPaths :: "os_env \<Rightarrow> string \<Rightarrow> string list" where
  "notableHostPaths e os =
     (if os = ''windows''
      then map (\<lambda>p. systemDrive e @ backslashed p)
             [[''nginx'', ''conf''], [''ProgramData'', ''letsencrypt''], [''ProgramData'', ''docker'', ''config''], [''inetpub'']]
      else [''/etc/nginx'', ''/etc/letsencrypt'', ''/opt'', ''/srv'', ''/home'', ''/root''])"

definition envScanRootsFor :: "os_env \<Rightarrow> string \<Rightarrow> string list" where
  "envScanRootsFor e os =
     (if os = ''windows''
      then (systemDrive e @ backslashed [''ProgramData''])
           # (if getenv e ''USERPROFILE'' \<noteq> [] then [path_dir (getenv e ''USERPROFILE'')] else [])
      else [''/opt'', ''/srv'', ''/home'', ''/root''])"

definition skipDirNames :: "string list" where
  "skipDirNames = [''proc'', ''sys'', ''AppData'', ''Application Data'', ''$Recycle.Bin'', ''System Volume Information'',
     ''node_modules'', ''.git'']"

text \<open>\<open>walkForEnvFiles\<close> collects the paths; \<open>n\<close> is one more than the depth left.\<close>

fun walkEnv :: "nat \<Rightarrow> string \<Rightarrow> (string list, 'x) act" where
  "walkEnv 0 dir = returnA []"
| "walkEnv (Suc n) dir =
     tryA (ReadDir dir) (\<lambda>r. case r of
       Inl _ \<Rightarrow> returnA []
     | Inr entries \<Rightarrow> forA entries (\<lambda>e acc.
         let full = path_join [dir, fst e]
         in if node_is_dir (snd e)
            then if fst e \<in> set skipDirNames then returnA acc
                 else bindA (walkEnv n full) (\<lambda>xs. returnA (acc @ xs))
            else if fst e = ''.env'' then returnA (acc @ [full]) else returnA acc) [])"

definition envScanDepth :: nat where
  "envScanDepth = 4"

definition walkForEnvFiles :: "string \<Rightarrow> nat \<Rightarrow> (string list, 'x) act" where
  "walkForEnvFiles root maxDepth = walkEnv (Suc maxDepth) root"

definition add_path :: "HostPathInfo \<Rightarrow> HostPathInfo list \<Rightarrow> HostPathInfo list" where
  "add_path hp out = (if hp_Path hp \<in> hp_Path ` set out then out else out @ [hp])"

definition bind_mounts :: "'x detectorImpl \<Rightarrow> ContainerDetail list \<Rightarrow> HostPathInfo list" where
  "bind_mounts d details =
     concat (map (\<lambda>det. map (\<lambda>m. \<lparr>hp_Path = mt_Source m, hp_Kind = ''bind-mount'', hp_Source = cd_Name det,
          hp_RecommendedBackupType = ''tar'', hp_JobName = hostDirJobName (mt_Source m),
          hp_GoogleDrivePath = googleDrivePath d ServiceHostDir (hostDirJobName (mt_Source m)),
          hp_VolumeIdentifier = BindMountIdentifier (mt_Destination m)\<rparr>)
        (filter (\<lambda>m. mt_Type m = ''bind'' \<and> mt_Source m \<noteq> []) (cd_Mounts det))) details)"

definition notable_path :: "'x detectorImpl \<Rightarrow> string \<Rightarrow> HostPathInfo" where
  "notable_path d p = \<lparr>hp_Path = p, hp_Kind = ''notable-path'', hp_Source = [], hp_RecommendedBackupType = ''tar'',
     hp_JobName = hostDirJobName p, hp_GoogleDrivePath = googleDrivePath d ServiceHostDir (hostDirJobName p),
     hp_VolumeIdentifier = BindMountIdentifier p\<rparr>"

definition env_file :: "string \<Rightarrow> HostPathInfo" where
  "env_file p = \<lparr>hp_Path = p, hp_Kind = ''env-file'', hp_Source = [], hp_RecommendedBackupType = [], hp_JobName = [],
     hp_GoogleDrivePath = [], hp_VolumeIdentifier = []\<rparr>"

definition mounted_paths :: "'x detectorImpl \<Rightarrow> (HostPathInfo list, 'x) act" where
  "mounted_paths d =
     tryA (ListContainers (de_programs d) (de_bin d) False) (\<lambda>r. case r of
       Inl _ \<Rightarrow> returnA []
     | Inr refs \<Rightarrow> bindA (InspectContainers (de_programs d) (de_bin d) (map cr_ID refs)) (\<lambda>(details, _).
         returnA (fold add_path (bind_mounts d details) [])))"

definition ScanHostPaths :: "'x detectorImpl \<Rightarrow> (HostPathInfo list, 'x) act" where
  "ScanHostPaths d =
     bindA (mounted_paths d) (\<lambda>out.
     bindA (get_env (\<lambda>e. (notableHostPaths e (goos e), envScanRootsFor e (goos e)))) (\<lambda>(notable, roots).
     bindA (forA notable (\<lambda>p out. tryA (Stat p) (\<lambda>r. case r of
              Inl _ \<Rightarrow> returnA out
            | Inr info \<Rightarrow> returnA (if node_is_dir info then add_path (notable_path d p) out else out))) out) (\<lambda>out.
     bindA (forA roots (\<lambda>root out. bindA (walkForEnvFiles root envScanDepth) (\<lambda>ps.
              returnA (fold (\<lambda>p. add_path (env_file p)) ps out))) out) (\<lambda>out.
       returnA (sort_key hp_Path out)))))"

section \<open>What the scans find\<close>

lemma map_of_known:
  "map_of (fold (\<lambda>key m. case map_of env key of Some v \<Rightarrow> mput key v m | None \<Rightarrow> m) ks m0) k
    = (if k \<in> set ks \<and> map_of env k \<noteq> None then map_of env k else map_of m0 k)"
  by (induction ks arbitrary: m0) (auto simp: map_of_mput split: option.split)

lemma map_of_secrets:
  "map_of (foldr (\<lambda>(key, val) m. if key \<in> set ks then m else if looks_secret key then mput key val m else m) env m0) k
    = (if k \<notin> set ks \<and> looks_secret k \<and> map_of env k \<noteq> None then map_of env k else map_of m0 k)"
  by (induction env) (auto simp: map_of_mput split: option.split)

text \<open>C17: the credentials extracted from a container are exactly those of its environment variables, with
  their values, whose name is on the list of its service type or contains one of the generic secret
  markers in any case; nothing is invented and no other variable leaks into the job.\<close>

theorem ExtractCredentials_exact:
  "map_of (ExtractCredentials c) k
    = (if k \<in> set (CredentialEnvKeysFor (DetectServiceType (ci_Image c))) \<or> looks_secret k then map_of (ci_Env c) k else None)"
  by (auto simp: ExtractCredentials_def known_keys_def Let_def map_of_secrets map_of_known)

lemma volume_job_name_valid: "ValidateJobName (volume_job_name v st creds ns) = None"
proof -
  obtain t where "GenerateJobName v st creds = sanitizeComponent t" using GenerateJobName_sanitized by blast
  then have "\<exists>t. volume_job_name v st creds ns = sanitizeComponent t"
    by (cases "st = ServiceGeneric \<and> ns \<noteq> []"; cases "volumeSuffix v (sanitizeComponent (hd ns)) = []")
      (unfold volume_job_name_def Let_def, simp_all, blast+)
  then show ?thesis by (auto simp: ValidateJobName_None sanitize_jobNameRE)
qed

lemma map_insort: "map f (insort_key f x xs) = insort (f x) (map f xs)"
  by (induction xs) simp_all

lemma map_sort_key: "map f (sort_key f xs) = sort (map f xs)"
  by (induction xs) (simp_all add: map_insort)

lemma classify_no_users [simp]: "classify [] = (ServiceGeneric, [])"
  by (simp add: classify_def image_service_def)

lemma volume_info_facts:
  "ValidateJobName (vi_JobName (volume_info d ds v)) = None"
  "vi_GoogleDrivePath (volume_info d ds v)
     = RemotePath (de_environment d) (de_hostname d) (vi_ServiceType (volume_info d ds v)) (vi_JobName (volume_info d ds v))"
  "vi_RecommendedBackupType (volume_info d ds v) = RecommendedBackupType (vi_ServiceType (volume_info d ds v))"
  "vi_Containers (volume_info d ds v) = [] \<Longrightarrow> vi_Credentials (volume_info d ds v) = []"
  "vi_Name (volume_info d ds v) = v"
  by (auto simp: volume_info_def Let_def volume_job_name_valid googleDrivePath_def split: prod.split)

lemma ScanVolumes_run:
  assumes "ScanVolumes d w = (Inr out, w')"
  obtains vols ds where "fst (ListVolumes (de_programs d) (de_bin d) w) = Inr vols"
    and "out = sort_key vi_Name (map (\<lambda>v. volume_info d ds (vs_Name v)) vols)"
  using assms unfolding ScanVolumes_def
  by (auto elim!: bind_Inr simp: wrap_Inr return_Inr split: prod.splits)

text \<open>C16: a successful scan proposes one entry for every volume docker lists, in the order of their
  names, each with a job name that passes validation, with the remote path that belongs to its service
  type and job name, and with no credentials if no container mounts it.\<close>

theorem ScanVolumes_proposes:
  assumes "ScanVolumes d w = (Inr out, w')"
  shows "(\<exists>vols. fst (ListVolumes (de_programs d) (de_bin d) w) = Inr vols \<and> map vi_Name out = sort (map vs_Name vols))
    \<and> (\<forall>v \<in> set out. ValidateJobName (vi_JobName v) = None
      \<and> vi_GoogleDrivePath v = RemotePath (de_environment d) (de_hostname d) (vi_ServiceType v) (vi_JobName v)
      \<and> vi_RecommendedBackupType v = RecommendedBackupType (vi_ServiceType v)
      \<and> (vi_Containers v = [] \<longrightarrow> vi_Credentials v = []))"
proof -
  obtain vols ds where v: "fst (ListVolumes (de_programs d) (de_bin d) w) = Inr vols"
    and out: "out = sort_key vi_Name (map (\<lambda>v. volume_info d ds (vs_Name v)) vols)"
    using ScanVolumes_run [OF assms] .
  have "map vi_Name out = sort (map vs_Name vols)"
    unfolding out by (simp add: map_sort_key volume_info_facts(5) o_def)
  with v show ?thesis unfolding out by (auto simp: volume_info_facts)
qed

definition sample_docker :: "unit programs" where
  "sample_docker bin args stdin fs x =
     (\<lparr>oc_stdout = (if args = [''volume'', ''ls'', ''--format'', ''{{json .}}''] then Marshal (JObj [(''Name'', JStr ''redis_cache'')]) else []),
       oc_stderr = [], oc_error = None\<rparr>, fs, x)"

definition sample_detector :: "unit detectorImpl" where
  "sample_detector = \<lparr>de_programs = sample_docker, de_bin = ''docker'', de_hostname = ''h'', de_environment = ''prod''\<rparr>"

theorem ScanVolumes_proposes_witness:
  "\<exists>out w'. ScanVolumes sample_detector sample_world = (Inr out, w') \<and> map vi_Name out = [''redis_cache'']
    \<and> (\<forall>v \<in> set out. ValidateJobName (vi_JobName v) = None)"
proof -
  obtain r w' where run: "ScanVolumes sample_detector sample_world = (r, w')" by force
  have "map_sum (\<lambda>_. ()) (map vi_Name) (fst (ScanVolumes sample_detector sample_world)) = Inr [''redis_cache'']" by code_simp
  then obtain out where r: "r = Inr out" "map vi_Name out = [''redis_cache'']" using run by (cases r) auto
  show ?thesis using ScanVolumes_proposes [OF run [unfolded r(1)]] run r by simp
qed

text \<open>The container's name does not tell apart two generic volumes of one container whose names differ
  only in a suffix that \<open>volumeSuffix\<close> strips.\<close>

lemma generic_volumes_collide:
  "volume_job_name ''app_data'' ServiceGeneric creds [''app''] = volume_job_name ''app_db'' ServiceGeneric creds [''app'']"
proof -
  have "volumeSuffix ''app_data'' ''app'' = volumeSuffix ''app_db'' ''app''" "sanitizeComponent ''app'' = ''app''" by code_simp+
  then show ?thesis by (simp add: volume_job_name_def)
qed

end
