(* ===== verification/Terminal.thy ===== *)
theory Terminal
  imports GoDuration
begin

text \<open>
  What the program shows and asks: the colours and the pickers of internal/utils (colors.go,
  selectors.go), the prompts of the two wizards, and internal/logger. The machine's local time zone is UTC.
\<close>

section \<open>Colours\<close>

definition esc_seq :: "string \<Rightarrow> string" where
  "esc_seq code = chr_n 27 # ''['' @ code @ ''m''"

definition colorReset :: string where "colorReset = esc_seq ''0''"
definition colorRed :: string where "colorRed = esc_seq ''31''"
definition colorGreen :: string where "colorGreen = esc_seq ''32''"
definition colorYellow :: string where "colorYellow = esc_seq ''33''"
definition colorBlue :: string where "colorBlue = esc_seq ''34''"
definition colorBold :: string where "colorBold = esc_seq ''1''"

definition ColorsEnabled :: "(bool, 'x) act" where
  "ColorsEnabled =
     bindA (get_env (\<lambda>e. getenv e ''NO_COLOR'')) (\<lambda>nc.
     bindA (get_env stdout_device) (\<lambda>dev.
       returnA (nc = [] \<and> (case dev of Inl _ \<Rightarrow> False | Inr b \<Rightarrow> b))))"

definition wrap :: "string \<Rightarrow> string \<Rightarrow> (string, 'x) act" where
  "wrap code s = bindA ColorsEnabled (\<lambda>c. returnA (if c then code @ s @ colorReset else s))"

definition Red :: "string \<Rightarrow> (string, 'x) act" where "Red s = wrap colorRed s"
definition Green :: "string \<Rightarrow> (string, 'x) act" where "Green s = wrap colorGreen s"
definition Yellow :: "string \<Rightarrow> (string, 'x) act" where "Yellow s = wrap colorYellow s"
definition Blue :: "string \<Rightarrow> (string, 'x) act" where "Blue s = wrap colorBlue s"
definition Bold :: "string \<Rightarrow> (string, 'x) act" where "Bold s = wrap colorBold s"

definition Check :: "(string, 'x) act" where "Check = Green (map chr_n [226, 156, 147])"
definition Cross :: "(string, 'x) act" where "Cross = Red (map chr_n [226, 156, 151])"

section \<open>Lines of output\<close>

definition put_lineA :: "string \<Rightarrow> (unit, 'x) act" where
  "put_lineA s = putA (s @ [newline])"

section \<open>Questions\<close>

fun option_lines :: "int \<Rightarrow> string list \<Rightarrow> string" where
  "option_lines n [] = []"
| "option_lines n (x # xs) = ''  ['' @ show_int n @ ''] '' @ x @ [newline] @ option_lines (n + 1) xs"

definition SelectOne :: "string \<Rightarrow> string list \<Rightarrow> (int, 'x) act" where
  "SelectOne prompt options =
     bindA (put_lineA prompt) (\<lambda>_. bindA (putA (option_lines 1 options)) (\<lambda>_. bindA (putA ''> '') (\<lambda>_.
     bindA read_line (\<lambda>line.
       case atoi (trim_space line) of
         Inr n \<Rightarrow> if n < 1 \<or> int (length options) < n
                 then failA (errorf (''enter a number between 1 and '' @ show_int (int (length options)))) else returnA (n - 1)
       | Inl _ \<Rightarrow> failA (errorf (''enter a number between 1 and '' @ show_int (int (length options))))))))"

definition Confirm :: "string \<Rightarrow> bool \<Rightarrow> (bool, 'x) act" where
  "Confirm prompt defaultYes =
     bindA (putA (prompt @ '' '' @ (if defaultYes then ''[Y/n]'' else ''[y/N]'') @ '' '')) (\<lambda>_.
     bindA read_line (\<lambda>line.
       let a = to_lower (trim_space line) in returnA (if a = [] then defaultYes else a = ''y'' \<or> a = ''yes'')))"

definition RequireTypedConfirmation :: "string \<Rightarrow> (bool, 'x) act" where
  "RequireTypedConfirmation word =
     bindA (putA (''Type '' @ quote word @ '' to confirm: '')) (\<lambda>_.
     bindA read_line (\<lambda>line. returnA (trim_space line = word)))"

text \<open>\<open>promptInt\<close> asks again until it is given a number or nothing; each attempt uses up a line of input.\<close>

lemma read_line_consumes [simp]: "read_line w = (Inr l, w') \<Longrightarrow> length (w_in w') < length (w_in w)"
  by (auto simp: read_line_def split: list.splits)

lemma put_keeps_input: "putA s w = (r, w') \<Longrightarrow> w_in w' = w_in w"
  by (auto simp: putA_def)

function prompt_int :: "string \<Rightarrow> int \<Rightarrow> (int, 'x) act" where
  "prompt_int label def w =
     (case putA (label @ '' ['' @ show_int def @ '']: '') w of (_, w1) \<Rightarrow>
      (case read_line w1 of
         (Inl e, w2) \<Rightarrow> (Inl e, w2)
       | (Inr l, w2) \<Rightarrow>
           let line = trim_space l
           in if line = [] then (Inr def, w2)
              else (case atoi line of
                  Inr n \<Rightarrow> (Inr n, w2)
                | Inl _ \<Rightarrow> (case put_lineA ''enter a whole number'' w2 of (_, w3) \<Rightarrow> prompt_int label def w3))))"
  by pat_completeness auto
termination
  by (relation "measure (\<lambda>(_, _, w). length (w_in w))")
    (auto simp: putA_def put_lineA_def read_line_def split: list.splits)

declare prompt_int.simps [simp del]

definition gen_promptInt :: "string \<Rightarrow> int \<Rightarrow> (int, 'x) act" where
  "gen_promptInt = prompt_int"

definition gen_promptString :: "string \<Rightarrow> string \<Rightarrow> (string, 'x) act" where
  "gen_promptString label def =
     bindA (putA (label @ '' ['' @ def @ '']: '')) (\<lambda>_. bindA read_line (\<lambda>l.
       let line = trim_space l in returnA (if line = [] then def else line)))"

definition setup_promptInt :: "string \<Rightarrow> int \<Rightarrow> (int, 'x) act" where
  "setup_promptInt = prompt_int"

definition setup_promptString :: "string \<Rightarrow> string \<Rightarrow> (string, 'x) act" where
  "setup_promptString label def =
     bindA (putA (if def \<noteq> [] then label @ '' ['' @ def @ '']: '' else label @ '': '')) (\<lambda>_. bindA read_line (\<lambda>l.
       let line = trim_space l in returnA (if line = [] then def else line)))"

text \<open>The loop the wizards are made of: ask, and ask again after showing what is wrong with the answer.\<close>

lemma prompt_int_consumes: "prompt_int label def w = (Inr n, w') \<Longrightarrow> length (w_in w') < length (w_in w)"
proof (induction label def w arbitrary: n w' rule: prompt_int.induct)
  case (1 label def w)
  obtain u w1 where p: "putA (label @ '' ['' @ show_int def @ '']: '') w = (u, w1)" by force
  have i1: "w_in w1 = w_in w" using put_keeps_input [OF p] .
  from "1.prems" p obtain l w2 where r: "read_line w1 = (Inr l, w2)"
    by (auto simp: prompt_int.simps [of label def w] split: prod.splits sum.splits)
  have i2: "length (w_in w2) < length (w_in w)" using read_line_consumes [OF r] i1 by simp
  show ?case
  proof (cases "trim_space l = [] \<or> is_ok (atoi (trim_space l))")
    case True
    then have "w' = w2" using "1.prems" p r
      by (auto simp: prompt_int.simps [of label def w] Let_def is_ok_iff split: sum.splits if_splits)
    then show ?thesis using i2 by simp
  next
    case False
    obtain v w3 where q: "put_lineA ''enter a whole number'' w2 = (v, w3)" by force
    have i3: "w_in w3 = w_in w2" using q by (auto simp: put_lineA_def putA_def)
    from False obtain e where e: "atoi (trim_space l) = Inl e" "trim_space l \<noteq> []" by (cases "atoi (trim_space l)") auto
    have "prompt_int label def w3 = (Inr n, w')"
      using "1.prems" p r q e by (simp add: prompt_int.simps [of label def w] Let_def)
    from "1.IH" [OF p [symmetric] r [symmetric] refl refl e(2) e(1) q [symmetric] this] show ?thesis using i2 i3 by simp
  qed
qed

function ask_valid :: "string \<Rightarrow> int \<Rightarrow> (int \<Rightarrow> error option) \<Rightarrow> (int, 'x) act" where
  "ask_valid label def validate w =
     (case prompt_int label def w of
        (Inl e, w1) \<Rightarrow> (Inl e, w1)
      | (Inr n, w1) \<Rightarrow>
          (case validate n of
             None \<Rightarrow> (Inr n, w1)
           | Some v \<Rightarrow> (case put_lineA (err_msg v) w1 of (_, w2) \<Rightarrow> ask_valid label def validate w2)))"
  by pat_completeness auto
termination
  by (relation "measure (\<lambda>(_, _, _, w). length (w_in w))") (auto simp: putA_def put_lineA_def dest: prompt_int_consumes [OF sym])

declare ask_valid.simps [simp del]

function ask_valid_string :: "string \<Rightarrow> string \<Rightarrow> (string \<Rightarrow> error option) \<Rightarrow> (string, 'x) act" where
  "ask_valid_string label def validate w =
     (case gen_promptString label def w of
        (Inl e, w1) \<Rightarrow> (Inl e, w1)
      | (Inr s, w1) \<Rightarrow>
          (case validate s of
             None \<Rightarrow> (Inr s, w1)
           | Some v \<Rightarrow> (case put_lineA (err_msg v) w1 of (_, w2) \<Rightarrow> ask_valid_string label def validate w2)))"
  by pat_completeness auto
termination
  by (relation "measure (\<lambda>(_, _, _, w). length (w_in w))")
    (auto simp: gen_promptString_def putA_def put_lineA_def bindA_def read_line_def Let_def returnA_def split: list.splits)

declare ask_valid_string.simps [simp del]

section \<open>What the questions do\<close>

text \<open>Nothing here reaches the outside programs.\<close>

lemma quiet_put_line [quiets]: "quiet (put_lineA s)"
  unfolding put_lineA_def by (intro quiets)

lemma quiet_colors [quiets]: "quiet ColorsEnabled" "quiet (wrap c s)"
  unfolding wrap_def ColorsEnabled_def by (intro quiets)+

lemma quiet_questions [quiets]: "quiet (SelectOne p os)" "quiet (Confirm q d)" "quiet (RequireTypedConfirmation v)"
  "quiet (gen_promptString l s)" "quiet (setup_promptString l s)"
  unfolding SelectOne_def Confirm_def RequireTypedConfirmation_def gen_promptString_def setup_promptString_def
  by (intro quiets)+

lemma quietI: "(\<And>w r w'. m w = (r, w') \<Longrightarrow> hist_ext w [] w' \<and> w_ext w' = w_ext w) \<Longrightarrow> quiet m"
  by (auto simp: quiet_def split: prod.split)

lemma quiet_then: "quiet m \<Longrightarrow> m w = (r, w1) \<Longrightarrow> hist_ext w1 [] w2 \<and> w_ext w2 = w_ext w1 \<Longrightarrow> hist_ext w [] w2 \<and> w_ext w2 = w_ext w"
  using hist_ext_trans [of w "[]" w1 "[]" w2] by (auto dest: quietD)

lemma prompt_int_quiet: "prompt_int label def w = (r, w') \<Longrightarrow> hist_ext w [] w' \<and> w_ext w' = w_ext w"
proof (induction label def w arbitrary: r w' rule: prompt_int.induct)
  case (1 label def w)
  obtain u w1 where p: "putA (label @ '' ['' @ show_int def @ '']: '') w = (u, w1)" by force
  obtain q w2 where r: "read_line w1 = (q, w2)" by force
  obtain v w3 where o: "put_lineA ''enter a whole number'' w2 = (v, w3)" by force
  have "hist_ext w2 [] w' \<and> w_ext w' = w_ext w2"
    using "1.prems" "1.IH" [OF p [symmetric] r [symmetric] _ refl _ _ o [symmetric]] p r o
      quiet_then [OF quiet_put_line o]
    by (auto simp: prompt_int.simps [of label def w] Let_def split: sum.splits if_splits)
  then show ?case using quiet_then [OF quiet_put p] quiet_then [OF quiet_read_line r] by blast
qed

lemma quiet_prompt_int [quiets]: "quiet (prompt_int label def)"
  by (rule quietI) (rule prompt_int_quiet)

lemma ask_valid_quiet: "ask_valid label def validate w = (r, w') \<Longrightarrow> hist_ext w [] w' \<and> w_ext w' = w_ext w"
proof (induction label def validate w arbitrary: r w' rule: ask_valid.induct)
  case (1 label def validate w)
  obtain q w1 where p: "prompt_int label def w = (q, w1)" by force
  have "hist_ext w1 [] w' \<and> w_ext w' = w_ext w1"
  proof (cases "\<exists>n v. q = Inr n \<and> validate n = Some v")
    case True
    then obtain n v where q: "q = Inr n" "validate n = Some v" by blast
    obtain u w2 where o: "put_lineA (err_msg v) w1 = (u, w2)" by force
    have "ask_valid label def validate w2 = (r, w')" using "1.prems" p q o by (simp add: ask_valid.simps [of label def validate w])
    from "1.IH" [OF p [symmetric] q o [symmetric] this] show ?thesis by (rule quiet_then [OF quiet_put_line o])
  next
    case False
    then have "w' = w1" using "1.prems" p
      by (auto simp: ask_valid.simps [of label def validate w] split: sum.splits option.splits)
    then show ?thesis by simp
  qed
  then show ?case by (rule quiet_then [OF quiet_prompt_int p])
qed

lemma ask_valid_string_quiet: "ask_valid_string label def validate w = (r, w') \<Longrightarrow> hist_ext w [] w' \<and> w_ext w' = w_ext w"
proof (induction label def validate w arbitrary: r w' rule: ask_valid_string.induct)
  case (1 label def validate w)
  obtain q w1 where p: "gen_promptString label def w = (q, w1)" by force
  have "hist_ext w1 [] w' \<and> w_ext w' = w_ext w1"
  proof (cases "\<exists>n v. q = Inr n \<and> validate n = Some v")
    case True
    then obtain n v where q: "q = Inr n" "validate n = Some v" by blast
    obtain u w2 where o: "put_lineA (err_msg v) w1 = (u, w2)" by force
    have "ask_valid_string label def validate w2 = (r, w')"
      using "1.prems" p q o by (simp add: ask_valid_string.simps [of label def validate w])
    from "1.IH" [OF p [symmetric] q o [symmetric] this] show ?thesis by (rule quiet_then [OF quiet_put_line o])
  next
    case False
    then have "w' = w1" using "1.prems" p
      by (auto simp: ask_valid_string.simps [of label def validate w] split: sum.splits option.splits)
    then show ?thesis by simp
  qed
  then show ?case by (rule quiet_then [OF quiet_questions(4) p])
qed

lemma quiet_ask [quiets]: "quiet (ask_valid label n validate)" "quiet (ask_valid_string label s validate')"
  by (rule quietI, erule ask_valid_quiet ask_valid_string_quiet)+

text \<open>Only a valid answer gets through.\<close>

lemma ask_valid_result: "ask_valid label def validate w = (Inr n, w') \<Longrightarrow> validate n = None"
proof (induction label def validate w arbitrary: n w' rule: ask_valid.induct)
  case (1 label def validate w)
  obtain q w1 where p: "prompt_int label def w = (q, w1)" by force
  from "1.prems" p obtain m where q: "q = Inr m" by (cases q) (simp_all add: ask_valid.simps [of label def validate w])
  show ?case
  proof (cases "validate m")
    case None
    then show ?thesis using "1.prems" p q by (simp add: ask_valid.simps [of label def validate w])
  next
    case (Some v)
    obtain u w2 where o: "put_lineA (err_msg v) w1 = (u, w2)" by force
    have "ask_valid label def validate w2 = (Inr n, w')"
      using "1.prems" p q o Some by (simp add: ask_valid.simps [of label def validate w])
    from "1.IH" [OF p [symmetric] q Some o [symmetric] this] show ?thesis .
  qed
qed

lemma ask_valid_string_result: "ask_valid_string label def validate w = (Inr s, w') \<Longrightarrow> validate s = None"
proof (induction label def validate w arbitrary: s w' rule: ask_valid_string.induct)
  case (1 label def validate w)
  obtain q w1 where p: "gen_promptString label def w = (q, w1)" by force
  from "1.prems" p obtain m where q: "q = Inr m" by (cases q) (simp_all add: ask_valid_string.simps [of label def validate w])
  show ?case
  proof (cases "validate m")
    case None
    then show ?thesis using "1.prems" p q by (simp add: ask_valid_string.simps [of label def validate w])
  next
    case (Some v)
    obtain u w2 where o: "put_lineA (err_msg v) w1 = (u, w2)" by force
    have "ask_valid_string label def validate w2 = (Inr s, w')"
      using "1.prems" p q o Some by (simp add: ask_valid_string.simps [of label def validate w])
    from "1.IH" [OF p [symmetric] q Some o [symmetric] this] show ?thesis .
  qed
qed

end
