(* ===== verification/Input.thy ===== *)
theory Input
  imports Env_Store Lock Terminal
begin

text \<open>
  What an action can do to one part of the world, whatever it returns: \<open>moves R m\<close> says that \<open>m\<close> takes every world to
  one that \<open>R\<close> relates to it. The rules that follow the structure of an action, and the questions with their
  loops, are proved once in the locale \<open>moving\<close>, for every reflexive and transitive \<open>R\<close> that allows printing
  and reading a line. Here it is used for \<open>eats\<close>, what is left of the input afterwards is an end of what there
  was: the loops of the wizards end for this reason, and what a command may do can depend on what is typed.
  The theory Reads uses it for the files.
\<close>

definition moves :: "('x world \<Rightarrow> 'x world \<Rightarrow> bool) \<Rightarrow> ('a, 'x) act \<Rightarrow> bool" where
  "moves R m = (\<forall>w. R w (snd (m w)))"

locale moving =
  fixes R :: "'x world \<Rightarrow> 'x world \<Rightarrow> bool"
  assumes same: "R w w"
    and later: "R w w1 \<Longrightarrow> R w1 w2 \<Longrightarrow> R w w2"
    and printed: "R w (w\<lparr>w_out := s\<rparr>)"
    and typed: "w_in w = l # ls \<Longrightarrow> R w (w\<lparr>w_in := ls\<rparr>)"
begin

lemma movesD: "moves R m \<Longrightarrow> m w = (r, w') \<Longrightarrow> R w w'"
  by (metis moves_def snd_conv)

lemma movesI: "(\<And>w r w'. m w = (r, w') \<Longrightarrow> R w w') \<Longrightarrow> moves R m"
  by (metis moves_def prod.collapse)

lemma moved: "moves R m \<Longrightarrow> m w = (r, w1) \<Longrightarrow> R w1 w2 \<Longrightarrow> R w w2"
  by (blast dest: movesD intro: later)

lemma basic: "moves R (returnA v)" "moves R (failA e)" "moves R (putA s)" "moves R (put_lineA s)" "moves R read_line"
  by (auto simp: moves_def returnA_def failA_def putA_def put_lineA_def read_line_def same printed typed split: list.split)

lemma seq:
  assumes m: "moves R m" and f: "\<And>r. moves R (f r)"
    and g: "\<And>w. snd (g w) = (case m w of (r, w') \<Rightarrow> if stop r then w' else snd (f r w'))"
  shows "moves R g"
  unfolding moves_def
proof
  fix w
  obtain r w1 where 1: "m w = (r, w1)" by force
  have "R w1 (snd (f r w1))" using f by (simp add: moves_def)
  then show "R w (snd (g w))" using movesD [OF m 1] by (simp add: g 1) (blast intro: later)
qed

lemma bind: "moves R m \<Longrightarrow> (\<And>v. moves R (f v)) \<Longrightarrow> moves R (bindA m f)"
  by (rule seq [where f = "\<lambda>r. f (projr r)" and stop = "\<lambda>r. \<not> is_ok r"])
    (auto simp: bindA_def is_ok_def split: prod.split sum.split)

lemma wrap: "moves R m \<Longrightarrow> moves R (wrapA g m)"
  by (auto simp: moves_def wrapA_def split: prod.split sum.split) (metis snd_conv)+

lemma tried: "moves R m \<Longrightarrow> (\<And>r. moves R (f r)) \<Longrightarrow> moves R (tryA m f)"
  by (rule seq [where f = f and stop = "\<lambda>r. \<exists>e. r = Inl e \<and> is_panic e"])
    (auto simp: tryA_def split: prod.split sum.split)

lemma deferred: "moves R m \<Longrightarrow> (\<And>r. moves R (f r)) \<Longrightarrow> moves R (deferA f m)"
  by (rule seq [where f = f and stop = "\<lambda>_. False"])
    (auto simp: deferA_def split: prod.split sum.split)

lemma cleanup: "moves R m \<Longrightarrow> moves R f \<Longrightarrow> moves R (cleanupA f m)"
  by (rule seq [where f = "\<lambda>_. f" and stop = "\<lambda>_. False"])
    (auto simp: cleanupA_def deferA_def split: prod.split sum.split)

lemma choice: "(b \<Longrightarrow> moves R m) \<Longrightarrow> (\<not> b \<Longrightarrow> moves R n) \<Longrightarrow> moves R (if b then m else n)"
  by simp

lemma cases_sum: "(\<And>e. moves R (f e)) \<Longrightarrow> (\<And>v. moves R (g v)) \<Longrightarrow> moves R (case r of Inl e \<Rightarrow> f e | Inr v \<Rightarrow> g v)"
  by (cases r) simp_all

lemma cases_option:
  "moves R m \<Longrightarrow> (\<And>v. x = Some v \<Longrightarrow> moves R (g v)) \<Longrightarrow> moves R (case x of None \<Rightarrow> m | Some v \<Rightarrow> g v)"
  by (cases x) simp_all

lemma cases_prod: "(\<And>a b. moves R (f a b)) \<Longrightarrow> moves R (case x of (a, b) \<Rightarrow> f a b)"
  by (cases x) simp

lemma let_in: "(\<And>x. moves R (f x)) \<Longrightarrow> moves R (let x = v in f x)"
  by simp

lemma loop: "(\<And>x s. moves R (f x s)) \<Longrightarrow> moves R (forA xs f s)"
  by (induction xs arbitrary: s) (auto intro!: basic bind)

lemmas flow = basic bind wrap tried deferred cleanup choice cases_sum cases_option cases_prod let_in loop

text \<open>The questions; the last three are asked again until the answer is accepted or the input has ended.\<close>

lemma questions: "moves R (SelectOne p os)" "moves R (Confirm q d)" "moves R (gen_promptString l s)"
  "moves R (setup_promptString l s)"
  unfolding SelectOne_def Confirm_def gen_promptString_def setup_promptString_def by (intro flow)+

lemma asked_int: "moves R (prompt_int l n)"
proof (rule movesI)
  show "prompt_int l n w = (r, w') \<Longrightarrow> R w w'" for r w w'
  proof (induction l n w arbitrary: r w' rule: prompt_int.induct)
    case (1 l n w)
    obtain u w1 where p: "putA (l @ '' ['' @ show_int n @ '']: '') w = (u, w1)" by force
    obtain q w2 where r: "read_line w1 = (q, w2)" by force
    obtain v w3 where o: "put_lineA ''enter a whole number'' w2 = (v, w3)" by force
    have "R w2 w'"
      using "1.prems" "1.IH" [OF p [symmetric] r [symmetric] _ refl _ _ o [symmetric]] p r o
        moved [OF basic(4) o] same
      by (auto simp: prompt_int.simps [of l n w] Let_def split: sum.splits if_splits)
    then show ?case using moved [OF basic(3) p] moved [OF basic(5) r] by blast
  qed
qed

lemma asked_valid: "moves R (ask_valid l n validate)"
proof (rule movesI)
  show "ask_valid l n validate w = (r, w') \<Longrightarrow> R w w'" for r w w'
  proof (induction l n validate w arbitrary: r w' rule: ask_valid.induct)
    case (1 l n validate w)
    obtain q w1 where p: "prompt_int l n w = (q, w1)" by force
    have "R w1 w'"
    proof (cases "\<exists>m v. q = Inr m \<and> validate m = Some v")
      case True
      then obtain m v where q: "q = Inr m" "validate m = Some v" by blast
      obtain u w2 where o: "put_lineA (err_msg v) w1 = (u, w2)" by force
      have "ask_valid l n validate w2 = (r, w')" using "1.prems" p q o by (simp add: ask_valid.simps [of l n validate w])
      from "1.IH" [OF p [symmetric] q o [symmetric] this] show ?thesis by (rule moved [OF basic(4) o])
    next
      case False
      then have "w' = w1" using "1.prems" p
        by (auto simp: ask_valid.simps [of l n validate w] split: sum.splits option.splits)
      then show ?thesis by (simp add: same)
    qed
    then show ?case by (rule moved [OF asked_int p])
  qed
qed

lemma asked_string: "moves R (ask_valid_string l s validate)"
proof (rule movesI)
  show "ask_valid_string l s validate w = (r, w') \<Longrightarrow> R w w'" for r w w'
  proof (induction l s validate w arbitrary: r w' rule: ask_valid_string.induct)
    case (1 l s validate w)
    obtain q w1 where p: "gen_promptString l s w = (q, w1)" by force
    have "R w1 w'"
    proof (cases "\<exists>m v. q = Inr m \<and> validate m = Some v")
      case True
      then obtain m v where q: "q = Inr m" "validate m = Some v" by blast
      obtain u w2 where o: "put_lineA (err_msg v) w1 = (u, w2)" by force
      have "ask_valid_string l s validate w2 = (r, w')"
        using "1.prems" p q o by (simp add: ask_valid_string.simps [of l s validate w])
      from "1.IH" [OF p [symmetric] q o [symmetric] this] show ?thesis by (rule moved [OF basic(4) o])
    next
      case False
      then have "w' = w1" using "1.prems" p
        by (auto simp: ask_valid_string.simps [of l s validate w] split: sum.splits option.splits)
      then show ?thesis by (simp add: same)
    qed
    then show ?case by (rule moved [OF questions(3) p])
  qed
qed

lemmas asking = questions asked_int asked_valid asked_string

end

section \<open>Standard input\<close>

definition eats :: "('a, 'x) act \<Rightarrow> bool" where
  "eats m = moves (\<lambda>w w'. suffix (w_in w') (w_in w)) m"

interpretation input: moving "\<lambda>w w' :: 'x world. suffix (w_in w') (w_in w)"
  by unfold_locales (auto intro: suffix_order.trans suffix_ConsI)

named_theorems eating \<open>actions that add nothing to standard input\<close>

lemmas eatsD = input.movesD [folded eats_def]
lemmas eatsI = input.movesI [folded eats_def]
lemmas eats_then = input.moved [folded eats_def]
lemmas eats_flow [eating] = input.flow [folded eats_def]
lemmas eats_questions [eating] = input.asking [folded eats_def]

lemma eats_length: "eats m \<Longrightarrow> m w = (r, w') \<Longrightarrow> length (w_in w') \<le> length (w_in w)"
  by (blast dest: eatsD suffix_length_le)

lemma eats_set: "eats m \<Longrightarrow> m w = (r, w') \<Longrightarrow> set (w_in w') \<subseteq> set (w_in w)"
  by (blast dest: eatsD set_mono_suffix)

lemma eats_alone: "(\<And>w. w_in (snd (m w)) = w_in w) \<Longrightarrow> eats m"
  by (simp add: eats_def moves_def)

lemma eats_outside [eating]: "eats (get_env f)" "eats (put_errA s)" "eats nowA" "eats (range_keysA m)" "eats cancelledA"
  by (simp_all add: eats_alone get_env_def put_errA_def nowA_def range_keysA_def cancelledA_def tickA_def)

lemma eats_sys [eating]: "eats (sysA f)"
  by (rule eats_alone) (auto simp: sysA_def tickA_def split: option.split prod.split)

lemma eats_write [eating]: "eats (WriteBytes p data)"
  by (rule eats_alone) (auto simp: WriteBytes_def tickA_def Let_def split: option.split prod.split)

lemma eats_command [eating]: "eats (command X tool bin args shown stdin)"
  by (rule eats_alone) (auto simp: command_def tickA_def Let_def split: prod.split)

lemma emits_command: "P (CCommand bin args stdin) \<Longrightarrow> emits P (command X tool bin args shown stdin)"
  by (auto simp: emits_def command_def Let_def hist_ext_def tickA_def split: prod.split option.split)

lemma eats_ignore [eating]: "eats m \<Longrightarrow> eats (ignoreA m)"
  unfolding ignoreA_def by (intro eating)

lemma eats_call [eating]: "eats m \<Longrightarrow> eats (callA c m)"
  by (auto simp: eats_def moves_def callA_def tickA_def split: prod.split)

lemma SelectOne_consumes: "SelectOne p os w = (Inr i, w') \<Longrightarrow> length (w_in w') < length (w_in w)"
  by (auto simp: SelectOne_def bindA_def put_lineA_def putA_def failA_def returnA_def read_line_def
      split: list.splits sum.splits if_splits)

section \<open>Files and the workspace\<close>

lemma eats_files [eating]: "eats (Stat p)" "eats (OpenRead p)" "eats (ReadFile p)" "eats (OpenTrunc p m)" "eats (OpenExcl p m)"
  "eats (Remove p)" "eats (RemoveAll p)" "eats (MkdirAll p m)" "eats (Chmod p m)" "eats (ReadDir p)" "eats (OpenAppend p m)"
  unfolding Stat_def OpenRead_def ReadFile_def OpenTrunc_def OpenExcl_def Remove_def RemoveAll_def MkdirAll_def
    Chmod_def ReadDir_def OpenAppend_def by (intro eating)+

lemma eats_write_file [eating]: "eats (WriteFile p data m)"
  unfolding WriteFile_def by (intro eating)

lemma eats_workspace [eating]: "eats (Open over)" "eats (Exists root)" "eats (EnsureLayout root)" "eats (LoadConfig root)"
  "eats (SaveConfig root cfg)" "eats (ListJobNames root)"
  unfolding Open_def Home_def Exists_def EnsureLayout_def LoadConfig_def SaveConfig_def ListJobNames_def by (intro eating)+

lemma eats_lock [eating]: "eats (Lock root)"
proof -
  have "eats (processAlive p)" for p by (rule eats_alone) (simp add: processAlive_def tickA_def)
  then have "eats (stealStaleLock path)" for path
    unfolding stealStaleLock_def readLockPID_def holder_alive_def by (intro eating)
  then show ?thesis unfolding Lock_def by (intro eating)
qed

lemma eats_unix [eating]: "eats (es_save unix_store root nm env)" "eats (es_load unix_store root nm)"
  unfolding unix_store_def EnvStore.simps saveEnv_def loadEnv_def by (intro eating)+

lemma eats_load_job [eating]: "eats (LoadJob unix_store root nm)"
  unfolding LoadJob_def by (intro eating)

end
