(* ===== verification/Reads.thy ===== *)
theory Reads
  imports Input
begin

text \<open>
  Which actions leave every file as it was: \<open>reads\<close>. Questions, printing and the reading of config.json
  are of this kind, and so are whole commands on a dry run; what a wizard has written is then what it
  saved and nothing else.
\<close>

definition reads :: "('a, 'x) act \<Rightarrow> bool" where
  "reads m = moves (\<lambda>w w'. w_fs w' = w_fs w) m"

interpretation files: moving "\<lambda>w w' :: 'x world. w_fs w' = w_fs w"
  by unfold_locales auto

named_theorems reading \<open>actions that change no file\<close>

lemmas readsD = files.movesD [folded reads_def]
lemmas reads_flow [reading] = files.flow [folded reads_def]
lemmas reads_questions [reading] = files.asking [folded reads_def]

lemma reads_alone: "(\<And>w. w_fs (snd (m w)) = w_fs w) \<Longrightarrow> reads m"
  by (simp add: reads_def moves_def)

lemma reads_call [reading]: "reads m \<Longrightarrow> reads (callA c m)"
  by (auto simp: reads_def moves_def callA_def tickA_def split: prod.split) (metis snd_conv)

lemma LoadConfig_reads: "w_fs (snd (LoadConfig root w)) = w_fs w"
  by (auto simp: LoadConfig_def tryA_def bindA_def failA_def returnA_def ReadFile_def sysA_def tickA_def Let_def
      split: prod.split sum.split option.split if_split)

lemma reads_config [reading]: "reads (LoadConfig root)"
  by (rule reads_alone) (rule LoadConfig_reads)

end
