(* ===== verification/Generator.thy ===== *)
theory Generator
  imports Detector Env_Store Reads
begin

text \<open>
  internal/generator: jobs made from what the detector found (job_generator.go), the probe of a
  container's credentials (connectivity.go) and the wizard that asks for what is missing (wizard.go).
\<close>

section \<open>Jobs from scan results\<close>

definition ExecutorNameForServiceType :: "string \<Rightarrow> string" where
  "ExecutorNameForServiceType serviceType = (if serviceType = ServiceGeneric then ''standard'' else serviceType)"

definition jobFromVolume :: "VolumeInfo \<Rightarrow> Config \<Rightarrow> Job" where
  "jobFromVolume v cfg = \<lparr>j_Name = vi_JobName v, j_BackupType = ExecutorNameForServiceType (vi_ServiceType v),
     j_VolumeID = vi_Name v, j_VolumeIdentifier = vi_VolumeIdentifier v, j_HostPath = [],
     j_ContainerName = (case vi_Containers v of [] \<Rightarrow> [] | c # _ \<Rightarrow> c),
     j_ServiceType = vi_ServiceType v, j_Credentials = vi_Credentials v, j_GoogleDrivePath = vi_GoogleDrivePath v,
     j_RetentionDays = c_RetentionDays cfg, j_MinFilesToKeep = c_MinFilesToKeep cfg, j_WebhookURL = c_WebhookURL cfg,
     j_LocalBackupDir = c_LocalBackupDir cfg, j_LocalRetentionCount = c_LocalRetentionCount cfg,
     j_LastBackup = None, j_LastBackupStatus = []\<rparr>"

definition jobFromHostPath :: "HostPathInfo \<Rightarrow> Config \<Rightarrow> Job" where
  "jobFromHostPath h cfg = \<lparr>j_Name = hp_JobName h, j_BackupType = ''hostdir'',
     j_VolumeID = [], j_VolumeIdentifier = hp_VolumeIdentifier h, j_HostPath = hp_Path h,
     j_ContainerName = hp_Source h,
     j_ServiceType = ServiceHostDir, j_Credentials = [], j_GoogleDrivePath = hp_GoogleDrivePath h,
     j_RetentionDays = c_RetentionDays cfg, j_MinFilesToKeep = c_MinFilesToKeep cfg, j_WebhookURL = c_WebhookURL cfg,
     j_LocalBackupDir = c_LocalBackupDir cfg, j_LocalRetentionCount = c_LocalRetentionCount cfg,
     j_LastBackup = None, j_LastBackupStatus = []\<rparr>"

definition create_job :: "'x EnvStore \<Rightarrow> string \<Rightarrow> (Config \<Rightarrow> Job) \<Rightarrow> bool \<Rightarrow> (Job, 'x) act" where
  "create_job es root build dryRun =
     bindA (wrapA (wrapf ''loading workspace config'') (LoadConfig root)) (\<lambda>cfg.
       if dryRun then returnA (build cfg)
       else bindA (wrapA (wrapf (''saving job '' @ quote (j_Name (build cfg)))) (SaveJob es root (build cfg))) (\<lambda>_.
              returnA (build cfg)))"

definition CreateFromVolume :: "'x EnvStore \<Rightarrow> string \<Rightarrow> VolumeInfo \<Rightarrow> bool \<Rightarrow> (Job, 'x) act" where
  "CreateFromVolume es root v dryRun = create_job es root (jobFromVolume v) dryRun"

definition CreateFromHostPath :: "'x EnvStore \<Rightarrow> string \<Rightarrow> HostPathInfo \<Rightarrow> bool \<Rightarrow> (Job, 'x) act" where
  "CreateFromHostPath es root h dryRun =
     (if hp_JobName h = []
      then failA (errorf (''generator.CreateFromHostPath: '' @ hp_Path h @ '' (kind='' @ hp_Kind h
             @ '') has no proposed job name - not jobbable''))
      else create_job es root (jobFromHostPath h) dryRun)"

section \<open>The connectivity probe\<close>

definition connectivityFailMsg :: "string \<Rightarrow> error option \<Rightarrow> string" where
  "connectivityFailMsg out err =
     (case err of Some e \<Rightarrow> ''failed ('' @ err_msg e @ '')'' | None \<Rightarrow> ''failed ('' @ trim_space out @ '')'')"

text \<open>The verdict on one probing command, which must succeed and, where \<open>wanted\<close> is given, print that text.\<close>

definition probe_verdict :: "string option \<Rightarrow> string \<Rightarrow> string res \<Rightarrow> bool \<times> string" where
  "probe_verdict wanted good r =
     (case r of
        Inl e \<Rightarrow> (False, connectivityFailMsg [] (Some e))
      | Inr out \<Rightarrow> if case wanted of Some s \<Rightarrow> contains out s | None \<Rightarrow> True then (True, good)
                   else (False, connectivityFailMsg out None))"

definition postgres_probe :: "'x services \<Rightarrow> Job \<Rightarrow> (bool \<times> string, 'x) act" where
  "postgres_probe sv job =
     (let creds = j_Credentials job; pw = mget creds ''POSTGRES_PASSWORD''
      in tryA (Exec sv (j_ContainerName job)
           [''psql'', ''-U'', mget creds ''POSTGRES_USER'', ''-d'', mget creds ''POSTGRES_DB'', ''-c'', ''SELECT 1'']
           (if pw \<noteq> [] then [(''PGPASSWORD'', pw)] else []) None)
         (\<lambda>r. returnA (probe_verdict None (''confirmed the postgres user/database exist (this image's default auth trusts ''
           @ ''local connections regardless of password - can't check that part)'') r)))"

definition mysql_probe :: "'x services \<Rightarrow> Job \<Rightarrow> (bool \<times> string, 'x) act" where
  "mysql_probe sv job =
     tryA (Exec sv (j_ContainerName job) [''mysqladmin'', ''ping'', ''-u'', ''root'']
        [(''MYSQL_PWD'', mget (j_Credentials job) ''MYSQL_ROOT_PASSWORD'')] None)
      (\<lambda>r. returnA (probe_verdict (Some ''mysqld is alive'') ''reached mysql'' r))"

definition mongodb_probe :: "'x services \<Rightarrow> Job \<Rightarrow> (bool \<times> string, 'x) act" where
  "mongodb_probe sv job =
     (let user = mget (j_Credentials job) ''MONGO_INITDB_ROOT_USERNAME'';
          pw = mget (j_Credentials job) ''MONGO_INITDB_ROOT_PASSWORD'';
          args = [''--quiet'', ''--eval'', ''db.adminCommand({ping:1})'']
                 @ (if user \<noteq> [] then [''-u'', user, ''-p'', pw, ''--authenticationDatabase'', ''admin''] else [])
      in tryA (Exec sv (j_ContainerName job) (''mongosh'' # args) [] None) (\<lambda>r. case r of
           Inr out \<Rightarrow> returnA (probe_verdict None ''reached mongodb'' r)
         | Inl _ \<Rightarrow> tryA (Exec sv (j_ContainerName job) (''mongo'' # args) [] None)
                      (\<lambda>r. returnA (probe_verdict None ''reached mongodb'' r))))"

definition redis_probe :: "'x services \<Rightarrow> Job \<Rightarrow> (bool \<times> string, 'x) act" where
  "redis_probe sv job =
     (let pw = mget (j_Credentials job) ''REDIS_PASSWORD''
      in tryA (Exec sv (j_ContainerName job)
           (if pw \<noteq> [] then [''redis-cli'', ''-a'', pw, ''--no-auth-warning'', ''ping''] else [''redis-cli'', ''ping'']) [] None)
         (\<lambda>r. returnA (probe_verdict (Some ''PONG'') ''reached redis'' r)))"

definition testConnectivity :: "'x services \<Rightarrow> Job \<Rightarrow> (bool \<times> string, 'x) act" where
  "testConnectivity sv job =
     (if j_ServiceType job = ServicePostgres then postgres_probe sv job
      else if j_ServiceType job = ServiceMySQL then mysql_probe sv job
      else if j_ServiceType job = ServiceMongoDB then mongodb_probe sv job
      else if j_ServiceType job = ServiceRedis then redis_probe sv job
      else returnA (True, []))"

section \<open>The wizard's questions about one job\<close>

definition prompt_credentials :: "string list \<Rightarrow> Job \<Rightarrow> (Job, 'x) act" where
  "prompt_credentials keys job =
     forA keys (\<lambda>k job.
       if mget (j_Credentials job) k \<noteq> [] then returnA job
       else bindA (gen_promptString (''  '' @ k @ '' (blank to skip)'') []) (\<lambda>val.
              returnA (if val \<noteq> [] then job\<lparr>j_Credentials := mput k val (j_Credentials job)\<rparr> else job))) job"

definition show_probe :: "bool \<times> string \<Rightarrow> (unit, 'x) act" where
  "show_probe r = (case r of (ok, msg) \<Rightarrow>
     if msg = [] then returnA ()
     else put_lineA (''  connectivity check: '' @ msg @ (if ok then [] else '' (job will still be saved)'')))"

text \<open>\<open>docker\<close> is \<open>None\<close> for a wizard without a docker client.\<close>

definition missing_text :: "Job \<Rightarrow> string" where
  "missing_text job = newline # quote (j_Name job) @ '' is missing credentials that couldn't be auto-detected from ''
     @ ''the container's environment:'' @ [newline]"

definition PromptMissingCredentials :: "'x services option \<Rightarrow> Job \<Rightarrow> (Job, 'x) act" where
  "PromptMissingCredentials docker job =
     (let keys = CredentialEnvKeysFor (j_ServiceType job)
      in if keys = [] \<or> j_ContainerName job = [] \<or> (\<forall>k \<in> set keys. mget (j_Credentials job) k \<noteq> []) then returnA job
         else
           bindA (putA (missing_text job)) (\<lambda>_.
           bindA (prompt_credentials keys job) (\<lambda>job.
             case docker of None \<Rightarrow> returnA job
             | Some sv \<Rightarrow> bindA (testConnectivity sv job) (\<lambda>r. bindA (show_probe r) (\<lambda>_. returnA job)))))"

definition promptJobOverrides :: "Job \<Rightarrow> (Job, 'x) act" where
  "promptJobOverrides job =
     bindA (ask_valid ''Retention days'' (j_RetentionDays job) ValidateRetentionDays) (\<lambda>days.
     bindA (ask_valid ''Min files to keep'' (j_MinFilesToKeep job) ValidateMinFilesToKeep) (\<lambda>n.
     bindA (ask_valid ''Local backup copies to retain (0 disables)'' (j_LocalRetentionCount job) ValidateLocalRetentionCount) (\<lambda>l.
     bindA (ask_valid_string ''Webhook URL (blank for none)'' (j_WebhookURL job) ValidateWebhookURL) (\<lambda>url.
       returnA (job\<lparr>j_RetentionDays := days, j_MinFilesToKeep := n, j_LocalRetentionCount := l, j_WebhookURL := url\<rparr>)))))"

section \<open>The wizard\<close>

datatype candidate = Volume string VolumeInfo | HostPath string HostPathInfo

fun label :: "candidate \<Rightarrow> string" where
  "label (Volume l _) = l"
| "label (HostPath l _) = l"

definition candidates :: "VolumeInfo list \<Rightarrow> HostPathInfo list \<Rightarrow> candidate list" where
  "candidates vols hostPaths =
     map (\<lambda>v. Volume (vi_JobName v @ ''  ('' @ vi_ServiceType v @ '', volume '' @ vi_Name v @ '')'') v) vols
     @ map (\<lambda>h. HostPath (hp_JobName h @ ''  ('' @ hp_Kind h @ '', '' @ hp_Path h @ '')'') h)
         (filter (\<lambda>h. hp_JobName h \<noteq> []) hostPaths)"

definition buildJob :: "'x EnvStore \<Rightarrow> string \<Rightarrow> candidate \<Rightarrow> (Job, 'x) act" where
  "buildJob es root c = (case c of Volume _ v \<Rightarrow> CreateFromVolume es root v True | HostPath _ h \<Rightarrow> CreateFromHostPath es root h True)"

text \<open>One round of the loop for a chosen candidate; it returns how many jobs it created.\<close>

definition confirm_save :: "'x EnvStore \<Rightarrow> string \<Rightarrow> Job \<Rightarrow> (int, 'x) act" where
  "confirm_save es root job =
     bindA (Confirm (''Create job '' @ quote (j_Name job) @ ''?'') True) (\<lambda>ok.
       if \<not> ok then bindA (put_lineA ''Skipped.'') (\<lambda>_. returnA 0)
       else bindA (wrapA (wrapf (''saving job '' @ quote (j_Name job))) (SaveJob es root job)) (\<lambda>_.
            bindA (put_lineA (''Created job '' @ quote (j_Name job))) (\<lambda>_. returnA 1)))"

definition complete_job :: "'x EnvStore \<Rightarrow> string \<Rightarrow> 'x services option \<Rightarrow> Job \<Rightarrow> (int, 'x) act" where
  "complete_job es root docker job =
     bindA (putA (newline # ''Job '' @ quote (j_Name job) @ '' -> '' @ j_GoogleDrivePath job @ [newline])) (\<lambda>_.
     bindA (PromptMissingCredentials docker job) (\<lambda>job.
     bindA (promptJobOverrides job) (confirm_save es root)))"

definition wizard_item :: "'x EnvStore \<Rightarrow> string \<Rightarrow> 'x services option \<Rightarrow> candidate \<Rightarrow> (int, 'x) act" where
  "wizard_item es root docker cand =
     tryA (buildJob es root cand) (\<lambda>r. case r of
       Inl e \<Rightarrow> bindA (put_lineA (''error: '' @ err_msg e)) (\<lambda>_. returnA 0)
     | Inr job \<Rightarrow> complete_job es root docker job)"

text \<open>The loop; a round reads at least one line, so \<open>n\<close> rounds are enough once \<open>n\<close> exceeds the number of
  lines on standard input.\<close>

fun wizard_loop :: "nat \<Rightarrow> 'x EnvStore \<Rightarrow> string \<Rightarrow> 'x services option \<Rightarrow> candidate list \<Rightarrow> int \<Rightarrow> (int option, 'x) act" where
  "wizard_loop 0 es root docker cands created = returnA None"
| "wizard_loop (Suc n) es root docker cands created =
     bindA (putA [newline]) (\<lambda>_.
     bindA (SelectOne ''Select an item to create a job for:'' (''Finish'' # map label cands)) (\<lambda>idx.
       if idx = 0 then returnA (Some created)
       else bindA (wizard_item es root docker (cands ! nat (idx - 1))) (\<lambda>k.
              wizard_loop n es root docker cands (created + k))))"

definition wizard_rounds :: "(nat, 'x) act" where
  "wizard_rounds w = (Inr (Suc (length (w_in w))), w)"

definition Wizard_Run :: "'x EnvStore \<Rightarrow> string \<Rightarrow> 'x detectorImpl \<Rightarrow> 'x services option \<Rightarrow> (unit, 'x) act" where
  "Wizard_Run es root d docker =
     bindA (wrapA (wrapf ''scanning volumes'') (ScanVolumes d)) (\<lambda>vols.
       let cands = candidates vols []
       in if cands = [] then put_lineA ''No volumes or host paths found to generate jobs for.''
          else bindA wizard_rounds (\<lambda>n. bindA (wizard_loop n es root docker cands 0) (\<lambda>created.
            putA (newline # show_int (the created) @ '' job(s) created under '' @ root @ [newline]))))"

section \<open>Making a job\<close>

text \<open>Making a job from a scanned volume gives it the volume's name, type, credentials and remote path and the limits of
  config.json; in a dry run the job is the same and no file changes, otherwise it has been saved.\<close>

theorem CreateFromVolume_jobs:
  assumes "CreateFromVolume es root v dryRun w = (Inr job, w')"
  shows "\<exists>cfg w1. LoadConfig root w = (Inr cfg, w1) \<and> job = jobFromVolume v cfg
    \<and> (if dryRun then w' = w1 \<and> w_fs w' = w_fs w else SaveJob es root job w1 = (Inr (), w'))"
proof -
  from assms obtain cfg w1 where l: "LoadConfig root w = (Inr cfg, w1)" and
    r: "(if dryRun then returnA (jobFromVolume v cfg)
         else bindA (wrapA (wrapf (''saving job '' @ quote (j_Name (jobFromVolume v cfg)))) (SaveJob es root (jobFromVolume v cfg)))
                (\<lambda>_. returnA (jobFromVolume v cfg))) w1 = (Inr job, w')"
    unfolding CreateFromVolume_def create_job_def by (auto elim!: bind_Inr simp: wrap_Inr)
  have "w_fs w1 = w_fs w" using LoadConfig_reads [of root w] l by simp
  with l r show ?thesis
    by (cases dryRun) (auto elim!: bind_Inr simp: wrap_Inr return_Inr)
qed

section \<open>What the wizard saves\<close>

definition valid_limits :: "Job \<Rightarrow> bool" where
  "valid_limits job = (ValidateRetentionDays (j_RetentionDays job) = None \<and> ValidateMinFilesToKeep (j_MinFilesToKeep job) = None
     \<and> ValidateLocalRetentionCount (j_LocalRetentionCount job) = None \<and> ValidateWebhookURL (j_WebhookURL job) = None)"

definition same_target :: "Job \<Rightarrow> Job \<Rightarrow> bool" where
  "same_target a b = (j_Name a = j_Name b \<and> j_BackupType a = j_BackupType b \<and> j_VolumeID a = j_VolumeID b
     \<and> j_VolumeIdentifier a = j_VolumeIdentifier b \<and> j_HostPath a = j_HostPath b \<and> j_ContainerName a = j_ContainerName b
     \<and> j_ServiceType a = j_ServiceType b \<and> j_GoogleDrivePath a = j_GoogleDrivePath b)"

definition keeps_found :: "Job \<Rightarrow> Job \<Rightarrow> bool" where
  "keeps_found a b = (\<forall>k. mget (j_Credentials a) k \<noteq> [] \<longrightarrow> mget (j_Credentials b) k = mget (j_Credentials a) k)"

lemma prompt_credentials_keeps:
  "prompt_credentials keys job w = (Inr job', w') \<Longrightarrow> same_target job job' \<and> keeps_found job job'"
proof (induction keys arbitrary: job w)
  case Nil
  then show ?case by (simp add: prompt_credentials_def return_Inr same_target_def keeps_found_def)
next
  case (Cons k keys)
  from Cons.prems obtain j1 w1 where a: "(if mget (j_Credentials job) k \<noteq> [] then returnA job
       else bindA (gen_promptString (''  '' @ k @ '' (blank to skip)'') []) (\<lambda>val.
              returnA (if val \<noteq> [] then job\<lparr>j_Credentials := mput k val (j_Credentials job)\<rparr> else job))) w = (Inr j1, w1)"
    and b: "prompt_credentials keys j1 w1 = (Inr job', w')"
    unfolding prompt_credentials_def forA.simps by (erule bind_Inr)
  have "same_target job j1 \<and> keeps_found job j1"
    using a by (auto elim!: bind_Inr simp: return_Inr same_target_def keeps_found_def split: if_splits)
  then show ?case using Cons.IH [OF b] by (auto simp: same_target_def keeps_found_def)
qed

lemma PromptMissingCredentials_keeps:
  assumes "PromptMissingCredentials docker job w = (Inr job', w')"
  shows "same_target job job' \<and> keeps_found job job'"
proof -
  let ?ks = "CredentialEnvKeysFor (j_ServiceType job)"
  have "(\<exists>v'. prompt_credentials ?ks job (snd (putA (missing_text job) w)) = (Inr job', v')) \<or> job' = job"
    using assms unfolding PromptMissingCredentials_def Let_def
    by (auto elim!: bind_Inr simp: return_Inr putA_def split: if_splits option.splits)
  then show ?thesis
  proof
    assume "\<exists>v'. prompt_credentials ?ks job (snd (putA (missing_text job) w)) = (Inr job', v')"
    then show ?thesis by (elim exE) (rule prompt_credentials_keeps)
  qed (simp add: same_target_def keeps_found_def)
qed

lemma promptJobOverrides_result:
  assumes "promptJobOverrides job w = (Inr job', w')"
  shows "valid_limits job' \<and> same_target job job' \<and> keeps_found job job'"
  using assms unfolding promptJobOverrides_def
  by (auto elim!: bind_Inr dest!: ask_valid_result ask_valid_string_result
      simp: return_Inr valid_limits_def same_target_def keeps_found_def)

text \<open>The docker client that the wizard is given leaves the files of the host alone.\<close>

definition leaves_files :: "'x services option \<Rightarrow> bool" where
  "leaves_files docker = (\<forall>sv. docker = Some sv \<longrightarrow> (\<forall>c cmd env stdin. reads (dk_Exec (sv_docker sv) c cmd env stdin)))"

lemma reads_probe: "leaves_files (Some sv) \<Longrightarrow> reads (testConnectivity sv job)"
proof -
  assume "leaves_files (Some sv)"
  then have e: "reads (Exec sv c cmd env stdin)" for c cmd env stdin
    unfolding Exec_def by (auto simp: leaves_files_def intro!: reading)
  show ?thesis unfolding testConnectivity_def postgres_probe_def mysql_probe_def mongodb_probe_def redis_probe_def
    by (intro reading e)
qed

lemma reads_create [reading]: "reads (create_job es root build True)"
  unfolding create_job_def if_True by (intro reading)

lemma reads_build [reading]: "reads (buildJob es root cand)"
  unfolding buildJob_def CreateFromVolume_def CreateFromHostPath_def by (cases cand) (simp_all add: reads_create reads_flow(2))

lemma reads_missing: "leaves_files docker \<Longrightarrow> reads (PromptMissingCredentials docker job)"
  unfolding PromptMissingCredentials_def prompt_credentials_def show_probe_def
  by (intro reading) (use reads_probe in auto)

lemma reads_overrides [reading]: "reads (promptJobOverrides job)"
  unfolding promptJobOverrides_def by (intro reading)

text \<open>What comes of a job for which \<open>ok\<close> is known: no file has changed and no job is counted, or \<open>SaveJob\<close> was called once,
  for such a job and on unchanged files, and has the last word.\<close>

definition outcome :: "'x EnvStore \<Rightarrow> string \<Rightarrow> (Job \<Rightarrow> bool) \<Rightarrow> 'x world \<Rightarrow> (error + int) \<times> 'x world \<Rightarrow> bool" where
  "outcome es root ok w x =
     ((fst x = Inr 0 \<or> (\<exists>e. fst x = Inl e)) \<and> w_fs (snd x) = w_fs w
      \<or> (\<exists>job w1 s w2. ok job \<and> w_fs w1 = w_fs w \<and> SaveJob es root job w1 = (s, w2) \<and> w_fs (snd x) = w_fs w2
           \<and> (s = Inr () \<and> fst x = Inr 1 \<or> (\<exists>e e'. s = Inl e \<and> fst x = Inl e'))))"

lemma outcome_after:
  "w_fs w1 = w_fs w \<Longrightarrow> outcome es root p w1 x \<Longrightarrow> (\<And>job. p job \<Longrightarrow> q job) \<Longrightarrow> outcome es root q w x"
  unfolding outcome_def by metis

lemma outcome_bind:
  assumes "reads m" and "\<And>v w1. m w = (Inr v, w1) \<Longrightarrow> outcome es root ok w1 (f v w1)"
  shows "outcome es root ok w (bindA m f w)"
proof -
  obtain q w1 where m: "m w = (q, w1)" by force
  note same = readsD [OF assms(1) m]
  show ?thesis
  proof (cases q)
    case (Inl e)
    then show ?thesis using m same by (simp add: bindA_def outcome_def)
  next
    case (Inr v)
    then show ?thesis using assms(2) [of v w1] m by (auto simp: bindA_def intro: outcome_after [OF same])
  qed
qed

lemma confirm_save_outcome: "ok job \<Longrightarrow> outcome es root ok w (confirm_save es root job w)"
  unfolding confirm_save_def
proof (rule outcome_bind [OF reads_questions(2)])
  fix yes and w1 :: "'a world"
  assume "ok job"
  obtain s w2 where s: "SaveJob es root job w1 = (s, w2)" by force
  let ?m = "if \<not> yes then bindA (put_lineA ''Skipped.'') (\<lambda>_. returnA 0)
      else bindA (wrapA (wrapf (''saving job '' @ quote (j_Name job))) (SaveJob es root job)) (\<lambda>_.
        bindA (put_lineA (''Created job '' @ quote (j_Name job))) (\<lambda>_. returnA (1 :: int)))"
  show "outcome es root ok w1 (?m w1)"
  proof (cases yes)
    case True
    then have "w_fs (snd (?m w1)) = w_fs w2 \<and> (s = Inr () \<and> fst (?m w1) = Inr 1 \<or> (\<exists>e e'. s = Inl e \<and> fst (?m w1) = Inl e'))"
      using s by (cases s) (auto simp: bindA_def wrapA_def put_lineA_def putA_def returnA_def)
    with s \<open>ok job\<close> show ?thesis unfolding outcome_def by blast
  qed (simp add: outcome_def bindA_def put_lineA_def putA_def returnA_def)
qed

lemma complete_job_outcome:
  assumes "leaves_files docker"
  shows "outcome es root (\<lambda>job. valid_limits job \<and> same_target proposed job \<and> keeps_found proposed job) w
    (complete_job es root docker proposed w)"
  unfolding complete_job_def
proof (intro outcome_bind reads_flow(3) reads_missing [OF assms] reads_overrides confirm_save_outcome)
  fix job1 job w1 w2 w3
  assume p: "PromptMissingCredentials docker proposed w1 = (Inr job1, w2)" and o: "promptJobOverrides job1 w2 = (Inr job, w3)"
  show "valid_limits job \<and> same_target proposed job \<and> keeps_found proposed job"
    using PromptMissingCredentials_keeps [OF p] promptJobOverrides_result [OF o] by (simp add: same_target_def keeps_found_def)
qed

text \<open>C11: The wizard never saves a job with a retention, a minimum of files, a local copy count or a webhook that does not
  pass validation, whatever is typed and whatever config.json says; and the job it saves backs up what
  the scan proposed, to the proposed place, with every credential the scan found. However a round ends,
  that one save is all that changes a file: a round that fails or skips before it leaves every file as it was,
  and a job is counted just when its save has succeeded.\<close>

theorem wizard_saves_valid_jobs:
  assumes "leaves_files docker" and "wizard_item es root docker cand w = (r, w')"
  shows "(r = Inr 0 \<or> (\<exists>e. r = Inl e)) \<and> w_fs w' = w_fs w
    \<or> (\<exists>proposed job w1 s w2. fst (buildJob es root cand w) = Inr proposed
        \<and> valid_limits job \<and> same_target proposed job \<and> keeps_found proposed job
        \<and> w_fs w1 = w_fs w \<and> SaveJob es root job w1 = (s, w2) \<and> w_fs w' = w_fs w2
        \<and> (s = Inr () \<and> r = Inr 1 \<or> (\<exists>e e'. s = Inl e \<and> r = Inl e')))"
proof -
  obtain q w0 where b: "buildJob es root cand w = (q, w0)" by force
  note same = readsD [OF reads_build b]
  show ?thesis
  proof (cases q)
    case (Inl e)
    then show ?thesis using assms(2) b same
      by (auto simp: wizard_item_def tryA_def bindA_def put_lineA_def putA_def returnA_def split: if_splits)
  next
    case (Inr proposed)
    have "(r, w') = complete_job es root docker proposed w0"
      using assms(2) b Inr by (simp add: wizard_item_def tryA_def)
    then have "outcome es root (\<lambda>job. valid_limits job \<and> same_target proposed job \<and> keeps_found proposed job) w (r, w')"
      using complete_job_outcome [OF assms(1), of es root proposed w0] by (metis outcome_after [OF same])
    then show ?thesis unfolding outcome_def fst_conv snd_conv using b Inr by (auto; blast)
  qed
qed

section \<open>The wizard comes to an end\<close>

lemma eats_create [eating]: "eats (create_job es root build True)"
  unfolding create_job_def if_True by (intro eating)

text \<open>The clients that the wizard is given, if they leave standard input alone.\<close>

definition leaves_input :: "'x EnvStore \<Rightarrow> 'x services option \<Rightarrow> bool" where
  "leaves_input es docker = ((\<forall>root job env. eats (es_save es root job env))
     \<and> (\<forall>sv. docker = Some sv \<longrightarrow> (\<forall>c cmd env stdin. eats (dk_Exec (sv_docker sv) c cmd env stdin))))"

lemma eats_save: "leaves_input es docker \<Longrightarrow> eats (SaveJob es root job)"
  unfolding SaveJob_def by (auto simp: leaves_input_def intro!: eating)

lemma eats_probe: "leaves_input es (Some sv) \<Longrightarrow> eats (testConnectivity sv job)"
proof -
  assume "leaves_input es (Some sv)"
  then have e: "eats (Exec sv c cmd env stdin)" for c cmd env stdin
    unfolding Exec_def by (auto simp: leaves_input_def intro!: eating)
  show ?thesis unfolding testConnectivity_def postgres_probe_def mysql_probe_def mongodb_probe_def redis_probe_def
    by (intro eating e)
qed

lemma eats_show_probe [eating]: "eats (show_probe r)"
  unfolding show_probe_def by (intro eating)

lemma eats_item: "leaves_input es docker \<Longrightarrow> eats (wizard_item es root docker cand)"
proof -
  assume l: "leaves_input es docker"
  have b: "eats (buildJob es root cand)"
    unfolding buildJob_def CreateFromVolume_def CreateFromHostPath_def
    by (cases cand) (simp_all add: eats_create eats_flow(2))
  have p: "eats (PromptMissingCredentials docker job)" for job
    unfolding PromptMissingCredentials_def prompt_credentials_def
    by (intro eating) (use l eats_probe in auto)
  show ?thesis unfolding wizard_item_def complete_job_def promptJobOverrides_def confirm_save_def
    by (intro eating b p eats_save [OF l])
qed

lemma wizard_loop_fuel:
  assumes "leaves_input es docker" and "length (w_in w) < n" and "length (w_in w) < m"
  shows "wizard_loop n es root docker cands k w = wizard_loop m es root docker cands k w
    \<and> fst (wizard_loop m es root docker cands k w) \<noteq> Inr None"
  using assms(2,3)
proof (induction n arbitrary: m k w)
  case (Suc n)
  then obtain m' where m: "m = Suc m'" by (cases m) auto
  define w1 where "w1 = w\<lparr>w_out := w_out w @ [newline]\<rparr>"
  obtain r w2 where s: "SelectOne ''Select an item to create a job for:'' (''Finish'' # map label cands) w1 = (r, w2)" by force
  show ?case
  proof (cases r)
    case (Inl e)
    then show ?thesis using s m by (simp add: bindA_def putA_def w1_def)
  next
    case (Inr i)
    obtain q w3 where t: "wizard_item es root docker (cands ! nat (i - 1)) w2 = (q, w3)" by force
    have "length (w_in w3) < length (w_in w)"
      using SelectOne_consumes [OF s [unfolded Inr]] eats_length [OF eats_item [OF assms(1)] t] by (simp add: w1_def)
    then have "length (w_in w3) < n" "length (w_in w3) < m'" using Suc.prems m by simp_all
    from Suc.IH [OF this] show ?thesis using s t m Inr
      by (cases q) (simp_all add: bindA_def putA_def returnA_def w1_def)
  qed
qed simp

text \<open>C33: The wizard always comes to an end. If the docker client and the credential store leave standard input
  alone, the loop returns after at most one round for every line of input, so that the number of rounds of
  \<open>Wizard_Run\<close> is enough and a larger one changes nothing.\<close>

theorem wizard_ends:
  assumes "leaves_input es docker" and "length (w_in w) < n"
  shows "wizard_loop n es root docker cands k w = wizard_loop (Suc (length (w_in w))) es root docker cands k w
    \<and> fst (wizard_loop n es root docker cands k w) \<noteq> Inr None"
  using wizard_loop_fuel [OF assms lessI, of root cands k] by metis

definition sample_volume :: VolumeInfo where
  "sample_volume = \<lparr>vi_Name = ''v'', vi_Containers = [''c''], vi_ServiceType = ''redis'', vi_Credentials = [],
     vi_RecommendedBackupType = ''tar'', vi_JobName = ''redis_v'', vi_GoogleDrivePath = ''prod/h/redis/redis_v'',
     vi_VolumeIdentifier = ''v''\<rparr>"

definition wizard_world :: "unit world" where
  "wizard_world = sample_world\<lparr>w_in := [''pw'', ''-3'', ''7'', [], [], [], ''y'']\<rparr>"

theorem CreateFromVolume_jobs_witness:
  "\<exists>job w'. CreateFromVolume unix_store ''/tmp'' sample_volume True sample_world = (Inr job, w') \<and> w_fs w' = w_fs sample_world
    \<and> j_Name job = ''redis_v''"
proof -
  obtain r w' where run: "CreateFromVolume unix_store ''/tmp'' sample_volume True sample_world = (r, w')" by force
  have "map_sum (\<lambda>_. ()) j_Name (fst (CreateFromVolume unix_store ''/tmp'' sample_volume True sample_world)) = Inr ''redis_v''"
    by code_simp
  then obtain job where r: "r = Inr job" "j_Name job = ''redis_v''" using run by (cases r) auto
  show ?thesis using CreateFromVolume_jobs [OF run [unfolded r(1)]] run r by auto
qed

theorem wizard_saves_valid_jobs_witness:
  "\<exists>job (w1 :: unit world) w2. SaveJob unix_store ''/tmp'' job w1 = (Inr (), w2) \<and> valid_limits job \<and> j_Name job = ''redis_v''
    \<and> w_fs w1 = w_fs wizard_world
    \<and> w_fs (snd (wizard_item unix_store ''/tmp'' None (Volume ''v'' sample_volume) wizard_world)) = w_fs w2"
proof -
  let ?m = "wizard_item unix_store ''/tmp'' None (Volume ''v'' sample_volume) wizard_world"
  have "map_sum (\<lambda>_. ()) id (fst ?m) = Inr 1" by code_simp
  then have run: "?m = (Inr 1, snd ?m)" by (cases ?m; cases "fst ?m") auto
  have "map_sum (\<lambda>_. ()) j_Name (fst (buildJob unix_store ''/tmp'' (Volume ''v'' sample_volume) wizard_world)) = Inr ''redis_v''"
    by code_simp
  then have n: "fst (buildJob unix_store ''/tmp'' (Volume ''v'' sample_volume) wizard_world) = Inr proposed \<Longrightarrow> j_Name proposed = ''redis_v''"
    for proposed by (metis map_sum.simps(2) sum.inject(2))
  have "leaves_files (None :: unit services option)" by (simp add: leaves_files_def)
  from wizard_saves_valid_jobs [OF this run] obtain proposed job and w1 w2 :: "unit world"
    where "fst (buildJob unix_store ''/tmp'' (Volume ''v'' sample_volume) wizard_world) = Inr proposed"
      and s: "SaveJob unix_store ''/tmp'' job w1 = (Inr (), w2)" "valid_limits job" "same_target proposed job"
        "w_fs w1 = w_fs wizard_world" "w_fs (snd ?m) = w_fs w2" by auto
  with n have "j_Name job = ''redis_v''" by (simp only: same_target_def)
  with s show ?thesis by blast
qed

lemma unix_leaves_input: "leaves_input unix_store None"
  unfolding leaves_input_def unix_store_def EnvStore.simps saveEnv_def by (auto intro!: eating)

theorem wizard_ends_witness:
  "fst (wizard_loop 9 unix_store ''/tmp'' None [Volume ''v'' sample_volume] 0 wizard_world) \<noteq> Inr None"
proof -
  have "length (w_in wizard_world) < 9" by code_simp
  from wizard_ends [OF unix_leaves_input this] show ?thesis by blast
qed

end
