(* ===== verification/Flags.thy ===== *)
theory Flags
  imports Terminal
begin

text \<open>
  Go's package flag, as the commands use it: flags of type bool, string and int, two names for one
  variable, and what \<open>Parse\<close> prints on standard error when it fails.
\<close>

section \<open>Values\<close>

datatype fval = FBool bool | FString string | FInt int

text \<open>\<open>strconv.ParseBool\<close>, and \<open>strconv.ParseInt(s, 0, 64)\<close> with its base prefixes and underscores.\<close>

definition parse_bool :: "string \<Rightarrow> bool option" where
  "parse_bool s =
     (if s \<in> set [''1'', ''t'', ''T'', ''TRUE'', ''true'', ''True''] then Some True
      else if s \<in> set [''0'', ''f'', ''F'', ''FALSE'', ''false'', ''False''] then Some False else None)"

definition digit_of :: "char \<Rightarrow> int option" where
  "digit_of c =
     (let l = lower_char c
      in if is_digit l then Some (ord_c l - 48) else if is_lower l then Some (ord_c l - 87) else None)"

definition base_of :: "string \<Rightarrow> int \<times> string" where
  "base_of s =
     (case s of
        c0 # c1 # rest \<Rightarrow>
          if c0 \<noteq> CHR ''0'' then (10, s)
          else if lower_char c1 = CHR ''b'' \<and> rest \<noteq> [] then (2, rest)
          else if lower_char c1 = CHR ''o'' \<and> rest \<noteq> [] then (8, rest)
          else if lower_char c1 = CHR ''x'' \<and> rest \<noteq> [] then (16, rest)
          else (8, c1 # rest)
      | [c0] \<Rightarrow> if c0 = CHR ''0'' then (8, []) else (10, s)
      | [] \<Rightarrow> (10, []))"

text \<open>Underscores may stand between digits and between a base prefix and a digit.\<close>

fun underscores_ok :: "bool \<Rightarrow> char \<Rightarrow> string \<Rightarrow> bool" where
  "underscores_ok hex prev [] = (prev \<noteq> CHR ''_'')"
| "underscores_ok hex prev (c # cs) =
     (if is_digit c \<or> (hex \<and> (case digit_of c of Some d \<Rightarrow> d < 16 | None \<Rightarrow> False)) then underscores_ok hex CHR ''0'' cs
      else if c = CHR ''_'' then prev = CHR ''0'' \<and> underscores_ok hex c cs
      else prev \<noteq> CHR ''_'' \<and> underscores_ok hex CHR ''!'' cs)"

definition underscoreOK :: "string \<Rightarrow> bool" where
  "underscoreOK s =
     (case s of
        c0 # c1 # rest \<Rightarrow>
          if c0 = CHR ''0'' \<and> lower_char c1 \<in> {CHR ''b'', CHR ''o'', CHR ''x''}
          then underscores_ok (lower_char c1 = CHR ''x'') CHR ''0'' rest else underscores_ok False CHR ''^'' s
      | _ \<Rightarrow> underscores_ok False CHR ''^'' s)"

definition parse_uint :: "string \<Rightarrow> int option" where
  "parse_uint s =
     (let (b, ds) = base_of s; digits = filter (\<lambda>c. c \<noteq> CHR ''_'') ds
      in if s = [] \<or> \<not> list_all (\<lambda>c. case digit_of c of Some d \<Rightarrow> d < b | None \<Rightarrow> False) digits then None
         else if CHR ''_'' \<in> set ds \<and> \<not> underscoreOK s then None
         else Some (foldl (\<lambda>a c. b * a + the (digit_of c)) 0 digits))"

definition parse_int :: "string \<Rightarrow> int res" where
  "parse_int s =
     (let (sg, ds) = (case s of [] \<Rightarrow> (1, []) | c # cs \<Rightarrow> if c = CHR ''-'' then (-1, cs) else if c = CHR ''+'' then (1, cs) else (1, s))
      in case parse_uint ds of
           None \<Rightarrow> Inl (errorf ''parse error'')
         | Some n \<Rightarrow> if sg * n > int64_max \<or> sg * n < - int64_max - 1 then Inl (errorf ''value out of range'') else Inr (sg * n))"

definition set_value :: "fval \<Rightarrow> string \<Rightarrow> fval res" where
  "set_value v s =
     (case v of
        FBool _ \<Rightarrow> (case parse_bool s of Some b \<Rightarrow> Inr (FBool b) | None \<Rightarrow> Inl (errorf ''parse error''))
      | FString _ \<Rightarrow> Inr (FString s)
      | FInt _ \<Rightarrow> map_sum id FInt (parse_int s))"

section \<open>Parsing a command line\<close>

text \<open>A flag: its name, the variable it sets, the value it has by default and its usage.
  \<open>fs.BoolVar(detailed, "d", ...)\<close> declares a second name of a variable.\<close>

record flag_def =
  fl_name :: string
  fl_var :: string
  fl_default :: fval
  fl_usage :: string

type_synonym vals = "(string \<times> fval) list"

definition initial :: "flag_def list \<Rightarrow> vals" where
  "initial fs = fold (\<lambda>f. mput (fl_var f) (fl_default f)) fs []"

definition ErrHelp :: error where
  "ErrHelp = Error KHelp ''flag: help requested''"

definition find_flag :: "flag_def list \<Rightarrow> string \<Rightarrow> flag_def option" where
  "find_flag fs nm = find (\<lambda>f. fl_name f = nm) fs"

definition is_bool :: "fval \<Rightarrow> bool" where
  "is_bool v = (case v of FBool _ \<Rightarrow> True | _ \<Rightarrow> False)"

text \<open>What is between the dashes and the first \<open>=\<close> (not in first place), and what follows it.\<close>

definition split_name :: "string \<Rightarrow> string \<times> string option" where
  "split_name s = (case s of [] \<Rightarrow> ([], None) | c # cs \<Rightarrow> (case cut CHR ''='' cs of Some (a, b) \<Rightarrow> (c # a, Some b) | None \<Rightarrow> (s, None)))"

datatype step = Stop_at "string list" | Bad error | Set_flag string fval "string list"

definition bad_value :: "bool \<Rightarrow> string \<Rightarrow> string \<Rightarrow> error \<Rightarrow> error" where
  "bad_value b v nm e =
     (if b then errorf (''invalid boolean value '' @ quote v @ '' for -'' @ nm @ '': '' @ err_msg e)
      else errorf (''invalid value '' @ quote v @ '' for flag -'' @ nm @ '': '' @ err_msg e))"

definition store :: "flag_def \<Rightarrow> string \<Rightarrow> string \<Rightarrow> string list \<Rightarrow> step" where
  "store f nm s rest =
     (case set_value (fl_default f) s of
        Inr v \<Rightarrow> Set_flag (fl_var f) v rest
      | Inl e \<Rightarrow> Bad (bad_value (is_bool (fl_default f)) s nm e))"

definition named :: "flag_def list \<Rightarrow> string \<Rightarrow> string \<Rightarrow> string list \<Rightarrow> step" where
  "named fs a s rest =
     (if s = [] \<or> hd s = CHR ''-'' \<or> hd s = CHR ''='' then Bad (errorf (''bad flag syntax: '' @ a))
      else let (nm, v) = split_name s
           in case find_flag fs nm of
                None \<Rightarrow> if nm = ''help'' \<or> nm = ''h'' then Bad ErrHelp
                        else Bad (errorf (''flag provided but not defined: -'' @ nm))
              | Some f \<Rightarrow>
                  (case v of
                     Some s \<Rightarrow> store f nm s rest
                   | None \<Rightarrow>
                       if is_bool (fl_default f) then store f nm ''true'' rest
                       else case rest of [] \<Rightarrow> Bad (errorf (''flag needs an argument: -'' @ nm)) | s # rest \<Rightarrow> store f nm s rest))"

definition parse_one :: "flag_def list \<Rightarrow> string list \<Rightarrow> step" where
  "parse_one fs args =
     (case args of
        [] \<Rightarrow> Stop_at []
      | a # rest \<Rightarrow>
          if length a < 2 \<or> hd a \<noteq> CHR ''-'' then Stop_at args
          else if a = ''--'' then Stop_at rest
          else named fs a (if hd (tl a) = CHR ''-'' then drop 2 a else tl a) rest)"

lemma store_shorter: "store f nm s rest = Set_flag x v rest' \<Longrightarrow> rest' = rest"
  by (auto simp: store_def split: sum.splits)

lemma parse_one_shorter: "parse_one fs args = Set_flag x v rest \<Longrightarrow> length rest < length args"
  by (auto simp: parse_one_def named_def Let_def split: list.splits if_splits option.splits prod.splits dest!: store_shorter)

function parse_args :: "flag_def list \<Rightarrow> string list \<Rightarrow> vals \<Rightarrow> (vals \<times> string list) res" where
  "parse_args fs args vals =
     (case parse_one fs args of
        Stop_at rest \<Rightarrow> Inr (vals, rest)
      | Bad e \<Rightarrow> Inl e
      | Set_flag x v rest \<Rightarrow> parse_args fs rest (mput x v vals))"
  by pat_completeness auto
termination
  by (relation "measure (\<lambda>(_, args, _). length args)") (auto dest: parse_one_shorter)

declare parse_args.simps [simp del]

section \<open>What a failing parse prints\<close>

definition zero_value :: "fval \<Rightarrow> bool" where
  "zero_value v = (v = FBool False \<or> v = FString [] \<or> v = FInt 0)"

definition show_default :: "fval \<Rightarrow> string" where
  "show_default v = (case v of FBool b \<Rightarrow> if b then ''true'' else ''false'' | FString s \<Rightarrow> quote s | FInt n \<Rightarrow> show_int n)"

text \<open>A back-quoted word of the usage names the argument.\<close>

definition unquote :: "string \<Rightarrow> fval \<Rightarrow> string \<times> string" where
  "unquote usage v =
     (case Option.bind (cut CHR 0x60 usage) (\<lambda>(a, r). map_option (\<lambda>(b, c). (b, a @ b @ c)) (cut CHR 0x60 r)) of
        Some r \<Rightarrow> r
      | None \<Rightarrow> (case v of FBool _ \<Rightarrow> [] | FString _ \<Rightarrow> ''string'' | FInt _ \<Rightarrow> ''int'', usage))"

definition flag_help :: "flag_def \<Rightarrow> string" where
  "flag_help f =
     (let (arg, usage) = unquote (fl_usage f) (fl_default f);
          headline = ''  -'' @ fl_name f @ (if arg = [] then [] else '' '' @ arg)
      in headline @ (if length headline \<le> 4 then [CHR 0x09] else newline # ''    '' @ [CHR 0x09])
         @ usage @ (if zero_value (fl_default f) then [] else '' (default '' @ show_default (fl_default f) @ '')'') @ [newline])"

definition PrintDefaults :: "flag_def list \<Rightarrow> string" where
  "PrintDefaults fs = concat (map flag_help (sort_key fl_name fs))"

text \<open>\<open>Parse\<close> of a set of flags named \<open>nm\<close>, whose \<open>Usage\<close> is the default one.\<close>

definition Usage_of :: "string \<Rightarrow> flag_def list \<Rightarrow> string" where
  "Usage_of nm fs = ''Usage of '' @ nm @ '':'' @ [newline] @ PrintDefaults fs"

definition parse_with :: "string \<Rightarrow> flag_def list \<Rightarrow> string list \<Rightarrow> (vals \<times> string list, 'x) act" where
  "parse_with usage fs args =
     (case parse_args fs args (initial fs) of
        Inr r \<Rightarrow> returnA r
      | Inl e \<Rightarrow> bindA (put_errA ((if err_kind e = KHelp then [] else err_msg e @ [newline]) @ usage)) (\<lambda>_. failA e))"

definition Parse :: "string \<Rightarrow> flag_def list \<Rightarrow> string list \<Rightarrow> (vals \<times> string list, 'x) act" where
  "Parse nm fs args = parse_with (Usage_of nm fs) fs args"

section \<open>Reading the variables\<close>

definition bool_of :: "vals \<Rightarrow> string \<Rightarrow> bool" where
  "bool_of vs x = (map_of vs x = Some (FBool True))"

definition string_of :: "vals \<Rightarrow> string \<Rightarrow> string" where
  "string_of vs x = (case map_of vs x of Some (FString s) \<Rightarrow> s | _ \<Rightarrow> [])"

definition int_of :: "vals \<Rightarrow> string \<Rightarrow> int" where
  "int_of vs x = (case map_of vs x of Some (FInt n) \<Rightarrow> n | _ \<Rightarrow> 0)"

definition bool_flag :: "string \<Rightarrow> bool \<Rightarrow> string \<Rightarrow> flag_def" where
  "bool_flag nm d u = \<lparr>fl_name = nm, fl_var = nm, fl_default = FBool d, fl_usage = u\<rparr>"

definition string_flag :: "string \<Rightarrow> string \<Rightarrow> string \<Rightarrow> flag_def" where
  "string_flag nm d u = \<lparr>fl_name = nm, fl_var = nm, fl_default = FString d, fl_usage = u\<rparr>"

definition int_flag :: "string \<Rightarrow> int \<Rightarrow> string \<Rightarrow> flag_def" where
  "int_flag nm d u = \<lparr>fl_name = nm, fl_var = nm, fl_default = FInt d, fl_usage = u\<rparr>"

definition short_flag :: "string \<Rightarrow> string \<Rightarrow> string \<Rightarrow> flag_def" where
  "short_flag nm var u = \<lparr>fl_name = nm, fl_var = var, fl_default = FBool False, fl_usage = u\<rparr>"

section \<open>Laws\<close>

lemma quiet_parse [quiets]: "quiet (Parse nm fs args)" "quiet (parse_with u fs args)"
  unfolding Parse_def parse_with_def by (intro quiets)+

lemma parse_stop: "args = [] \<or> length (hd args) < 2 \<or> hd (hd args) \<noteq> CHR ''-'' \<Longrightarrow> parse_args fs args vs = Inr (vs, args)"
  by (subst parse_args.simps, cases args) (auto simp: parse_one_def)

text \<open>One flag as two arguments.\<close>

lemma parse_two:
  assumes "find_flag fs nm = Some f" and "\<not> is_bool (fl_default f)" and "set_value (fl_default f) s = Inr v"
    and "nm \<noteq> []" and "hd nm \<noteq> CHR ''-''" and "CHR ''='' \<notin> set nm"
  shows "parse_args fs ((''--'' @ nm) # s # rest) vs = parse_args fs rest (mput (fl_var f) v vs)"
proof -
  obtain c cs where nm: "nm = c # cs" using assms(4) by (cases nm) auto
  have "split_name nm = (nm, None)" using assms(6) nm by (simp add: split_name_def cut_None [THEN iffD2])
  moreover have "hd nm \<noteq> CHR ''=''" using assms(6) nm by auto
  ultimately have "parse_one fs ((''--'' @ nm) # s # rest) = Set_flag (fl_var f) v rest"
    using assms nm by (auto simp: parse_one_def named_def store_def)
  then show ?thesis by (subst parse_args.simps) simp
qed

end
