(* ===== verification/Scheduler.thy ===== *)
theory Scheduler
  imports Flags Workspace Process
begin

text \<open>
  internal/scheduler: the systemd timer (systemd.go), the launchd agent (launchd.go) and the
  instructions for the Windows Task Scheduler (windows.go).
\<close>

section \<open>Times of day\<close>

text \<open>\<open>fmt.Sscanf(s, "%d:%d", ...)\<close>: blanks before a number are skipped, but not a newline; what follows
  the second number is ignored.\<close>

fun scan_skip :: "string \<Rightarrow> string option" where
  "scan_skip [] = Some []"
| "scan_skip (c # cs) = (if c = newline then None else if is_space c then scan_skip cs else Some (c # cs))"

definition scan_int :: "string \<Rightarrow> (int \<times> string) option" where
  "scan_int s =
     Option.bind (scan_skip s) (\<lambda>s.
       let (sg, ds) = (case s of [] \<Rightarrow> (1, []) | c # cs \<Rightarrow> if c = CHR ''-'' then (-1, cs) else if c = CHR ''+'' then (1, cs) else (1, s));
           n = sg * digits_value (takeWhile is_digit ds)
       in if takeWhile is_digit ds = [] \<or> n > int64_max \<or> n < - int64_max - 1 then None
          else Some (n, dropWhile is_digit ds))"

definition scan_hm :: "string \<Rightarrow> (int \<times> int) option" where
  "scan_hm s =
     Option.bind (scan_int s) (\<lambda>(h, r). case r of
       [] \<Rightarrow> None
     | c # cs \<Rightarrow> if c = CHR '':'' then map_option (\<lambda>(m, _). (h, m)) (scan_int cs) else None)"

text \<open>\<open>%02d\<close>.\<close>

definition pad02 :: "int \<Rightarrow> string" where
  "pad02 n = (if n < 0 then show_int n else pad_dec 2 n)"

definition display_hour :: "int \<Rightarrow> int \<times> string" where
  "display_hour hour =
     (if hour = 0 then (12, ''AM'') else if hour = 12 then (hour, ''PM'')
      else if hour > 12 then (hour - 12, ''PM'') else (hour, ''AM''))"

definition to12Hour :: "string \<Rightarrow> string" where
  "to12Hour hhmm =
     (case scan_hm hhmm of
        None \<Rightarrow> hhmm
      | Some (hour, minute) \<Rightarrow>
          let (displayHour, suffix) = display_hour hour in show_int displayHour @ '':'' @ pad02 minute @ suffix)"

text \<open>\<open>scan_text\<close> is the wording of fmt's own error.\<close>

definition parseHHMM :: "(string \<Rightarrow> string) \<Rightarrow> string \<Rightarrow> (int \<times> int) res" where
  "parseHHMM scan_text at =
     (case scan_hm at of
        Some hm \<Rightarrow> Inr hm
      | None \<Rightarrow> Inl (wrapf (''invalid time '' @ quote at @ '', want HH:MM'') (errorf (scan_text at))))"

definition DefaultTime :: string where
  "DefaultTime = ''01:00''"

section \<open>Running the platform's tools\<close>

datatype Platform = PlatformLinux | PlatformWindows | PlatformDarwin

definition DetectPlatform :: "(Platform, 'x) act" where
  "DetectPlatform = get_env (\<lambda>e. if goos e = ''windows'' then PlatformWindows else if goos e = ''darwin'' then PlatformDarwin else PlatformLinux)"

text \<open>The output counts even when the tool fails.\<close>

definition runCmd :: "'x programs \<Rightarrow> string \<Rightarrow> string list \<Rightarrow> (string \<times> error option, 'x) act" where
  "runCmd X nm args w =
     (case X nm args None (w_fs w) (w_ext w) of (oc, fs', x') \<Rightarrow>
        let err = (case oc_error oc of None \<Rightarrow> None
                   | Some _ \<Rightarrow> Some (errorf (nm @ '' '' @ join '' '' args @ '': '' @ failure_text oc)))
        in (Inr (oc_stdout oc, err),
            tickA (w\<lparr>w_fs := fs', w_ext := x', w_hist := w_hist w @ [(CCommand nm args None, err = None)]\<rparr>)))"

definition run_ok :: "'x programs \<Rightarrow> string \<Rightarrow> string list \<Rightarrow> (unit, 'x) act" where
  "run_ok X nm args = bindA (runCmd X nm args) (\<lambda>(_, err). case err of None \<Rightarrow> returnA () | Some e \<Rightarrow> failA e)"

definition doc :: "string list \<Rightarrow> string" where
  "doc ls = concat (map (\<lambda>l. l @ [newline]) ls)"

section \<open>systemd\<close>

definition systemdServicePath :: string where "systemdServicePath = ''/etc/systemd/system/dockvault-backup.service''"
definition systemdTimerPath :: string where "systemdTimerPath = ''/etc/systemd/system/dockvault-backup.timer''"
definition systemdUnitName :: string where "systemdUnitName = ''dockvault-backup.timer''"

definition systemdServiceTemplate :: "string \<Rightarrow> string \<Rightarrow> string \<Rightarrow> string" where
  "systemdServiceTemplate u exe home = doc
     [''[Unit]'', ''Description=DockVault automated backup'', ''After=network-online.target docker.service'',
      ''Wants=network-online.target'', [], ''[Service]'', ''Type=oneshot'', ''User='' @ u,
      ''ExecStart='' @ exe @ '' --home '' @ home @ '' backup --all'']"

definition systemdTimerTemplate :: "string \<Rightarrow> string" where
  "systemdTimerTemplate at = doc
     [''[Unit]'', ''Description=Run DockVault backup daily'', [], ''[Timer]'', ''OnCalendar=*-*-* '' @ at @ '':00'',
      ''Persistent=true'', [], ''[Install]'', ''WantedBy=timers.target'']"

definition targetUser :: "(string, 'x) act" where
  "targetUser = get_env (\<lambda>e. if getenv e ''SUDO_USER'' \<noteq> [] then getenv e ''SUDO_USER''
     else case user_name e of Inr u \<Rightarrow> u | Inl _ \<Rightarrow> ''root'')"

definition executable :: "(string, 'x) act" where
  "executable = bindA (get_env exe_path) (\<lambda>r. case r of
     Inl e \<Rightarrow> failA (wrapf ''resolving dockvault binary path'' e) | Inr p \<Rightarrow> returnA p)"

definition root_hint :: "string \<Rightarrow> string" where
  "root_hint opt = ''this needs root - try `sudo dockvault schedule --'' @ opt @ ''`''"

definition InstallSystemdTimer :: "'x programs \<Rightarrow> string \<Rightarrow> string \<Rightarrow> (unit, 'x) act" where
  "InstallSystemdTimer X dockvaultHome at =
     (let at = (if at = [] then DefaultTime else at)
      in bindA executable (\<lambda>exe.
         bindA targetUser (\<lambda>u.
         bindA (wrapA (\<lambda>e. hintf (root_hint ''install'') (wrapf (''writing '' @ systemdServicePath) e))
                  (WriteFile systemdServicePath (systemdServiceTemplate u exe dockvaultHome) 420)) (\<lambda>_.
         bindA (wrapA (wrapf (''writing '' @ systemdTimerPath)) (WriteFile systemdTimerPath (systemdTimerTemplate at) 420)) (\<lambda>_.
         bindA (run_ok X ''systemctl'' [''daemon-reload'']) (\<lambda>_.
           run_ok X ''systemctl'' [''enable'', ''--now'', systemdUnitName]))))))"

definition remove_file :: "(error \<Rightarrow> error) \<Rightarrow> string \<Rightarrow> (unit, 'x) act" where
  "remove_file g p = tryA (Remove p) (\<lambda>r. case r of
     Inl e \<Rightarrow> if err_kind e = KNotExist then returnA () else failA (g e) | Inr _ \<Rightarrow> returnA ())"

definition UninstallSystemdTimer :: "'x programs \<Rightarrow> (unit, 'x) act" where
  "UninstallSystemdTimer X =
     bindA (runCmd X ''systemctl'' [''disable'', ''--now'', systemdUnitName]) (\<lambda>_.
     bindA (forA [systemdTimerPath, systemdServicePath]
              (\<lambda>p _. remove_file (\<lambda>e. hintf (root_hint ''uninstall'') (wrapf (''removing '' @ p) e)) p) ()) (\<lambda>_.
       run_ok X ''systemctl'' [''daemon-reload'']))"

definition CheckSystemdTimer :: "'x programs \<Rightarrow> (string \<times> error option, 'x) act" where
  "CheckSystemdTimer X = runCmd X ''systemctl'' [''status'', systemdUnitName]"

section \<open>launchd\<close>

definition launchdLabel :: string where "launchdLabel = ''com.dockvault.backup''"

definition tabs :: "nat \<Rightarrow> string \<Rightarrow> string" where
  "tabs n s = replicate n CHR 0x09 @ s"

definition str_elem :: "nat \<Rightarrow> string \<Rightarrow> string" where
  "str_elem n s = tabs n (''<string>'' @ s @ ''</string>'')"

definition dq :: "string \<Rightarrow> string" where
  "dq s = CHR 0x22 # s @ [CHR 0x22]"

definition launchdPlistTemplate :: "string \<Rightarrow> string \<Rightarrow> string \<Rightarrow> int \<Rightarrow> int \<Rightarrow> string" where
  "launchdPlistTemplate lab exe home hour minute = doc
     [''<?xml version='' @ dq ''1.0'' @ '' encoding='' @ dq ''UTF-8'' @ ''?>'',
      ''<!DOCTYPE plist PUBLIC '' @ dq ''-//Apple//DTD PLIST 1.0//EN'' @ '' '' @ dq ''http://www.apple.com/DTDs/PropertyList-1.0.dtd'' @ ''>'',
      ''<plist version='' @ dq ''1.0'' @ ''>'', ''<dict>'',
      tabs 1 ''<key>Label</key>'', str_elem 1 lab,
      tabs 1 ''<key>ProgramArguments</key>'', tabs 1 ''<array>'',
      str_elem 2 exe, str_elem 2 ''--home'', str_elem 2 home, str_elem 2 ''backup'', str_elem 2 ''--all'',
      tabs 1 ''</array>'',
      tabs 1 ''<key>StartCalendarInterval</key>'', tabs 1 ''<dict>'',
      tabs 2 ''<key>Hour</key>'', tabs 2 (''<integer>'' @ show_int hour @ ''</integer>''),
      tabs 2 ''<key>Minute</key>'', tabs 2 (''<integer>'' @ show_int minute @ ''</integer>''),
      tabs 1 ''</dict>'',
      tabs 1 ''<key>StandardOutPath</key>'', str_elem 1 (home @ ''/logs/launchd.log''),
      tabs 1 ''<key>StandardErrorPath</key>'', str_elem 1 (home @ ''/logs/launchd.log''),
      ''</dict>'', ''</plist>'']"

definition launchdPlistPath :: "(string, 'x) act" where
  "launchdPlistPath = bindA (get_env user_home) (\<lambda>r. case r of
     Inl e \<Rightarrow> failA e | Inr h \<Rightarrow> returnA (path_join [h, ''Library'', ''LaunchAgents'', launchdLabel @ ''.plist'']))"

definition InstallLaunchdJob :: "'x programs \<Rightarrow> (string \<Rightarrow> string) \<Rightarrow> string \<Rightarrow> string \<Rightarrow> (unit, 'x) act" where
  "InstallLaunchdJob X scan_text dockvaultHome at =
     (case parseHHMM scan_text (if at = [] then DefaultTime else at) of
        Inl e \<Rightarrow> failA e
      | Inr (hour, minute) \<Rightarrow>
          bindA executable (\<lambda>exe.
          bindA launchdPlistPath (\<lambda>p.
          bindA (wrapA (wrapf (''creating '' @ path_dir p)) (MkdirAll (path_dir p) 493)) (\<lambda>_.
          bindA (wrapA (wrapf (''writing '' @ p)) (WriteFile p (launchdPlistTemplate launchdLabel exe dockvaultHome hour minute) 420)) (\<lambda>_.
            run_ok X ''launchctl'' [''load'', ''-w'', p])))))"

definition UninstallLaunchdJob :: "'x programs \<Rightarrow> (unit, 'x) act" where
  "UninstallLaunchdJob X =
     bindA launchdPlistPath (\<lambda>p.
     bindA (runCmd X ''launchctl'' [''unload'', p]) (\<lambda>_.
       remove_file (wrapf (''removing '' @ p)) p))"

definition CheckLaunchdJob :: "'x programs \<Rightarrow> (string \<times> error option, 'x) act" where
  "CheckLaunchdJob X = runCmd X ''launchctl'' [''list'', launchdLabel]"

section \<open>Windows\<close>

definition backtick :: string where "backtick = [CHR 0x60]"

definition NativeWindowsScheduledTaskInstructions :: "string \<Rightarrow> string \<Rightarrow> string \<Rightarrow> string" where
  "NativeWindowsScheduledTaskInstructions exe home at =
     (let at = (if at = [] then DefaultTime else at)
      in doc
       [''# Run in PowerShell (as Administrator):'',
        ''$action = New-ScheduledTaskAction -Execute '' @ dq exe @ '' '' @ backtick,
        ''  -Argument '' @ dq (''--home '' @ backtick @ [CHR 0x22] @ home @ backtick @ [CHR 0x22] @ '' backup --all'') @ '' '' @ backtick,
        ''  -WorkingDirectory '' @ dq home,
        ''$trigger = New-ScheduledTaskTrigger -Daily -At '' @ to12Hour at,
        ''Register-ScheduledTask -TaskName '' @ dq ''DockVault-Backup'' @ '' -Action $action -Trigger $trigger -RunLevel Highest'',
        [],
        ''# Logs land in '' @ home @ [chr_n 92] @ ''logs'' @ [chr_n 92] @ '' - dockvault writes there itself, there's no'',
        ''# separate redirect to wire up (unlike bash-based scripts).''])"

section \<open>Laws\<close>

lemma takeWhile_digits:
  assumes "list_all is_digit ds" and "r = [] \<or> \<not> is_digit (hd r)"
  shows "takeWhile is_digit (ds @ r) = ds" "dropWhile is_digit (ds @ r) = r"
  using assms by (induction ds) (cases r; simp)+

lemma digit_not: "is_digit c \<Longrightarrow> c \<noteq> newline \<and> \<not> is_space c \<and> c \<noteq> CHR ''-'' \<and> c \<noteq> CHR ''+''"
  by (auto simp: is_digit_def is_space_def newline_def ord_c_def)

lemma scan_int_pad:
  assumes "0 \<le> n" and "n < 10 ^ k" and "0 < k" and "n \<le> int64_max" and "r = [] \<or> \<not> is_digit (hd r)"
  shows "scan_int (pad_dec k n @ r) = Some (n, r)"
proof -
  let ?p = "pad_dec k n"
  have d: "list_all is_digit ?p" by (rule pad_dec_digits [OF assms(1)])
  have v: "digits_value ?p = n" by (rule digits_value_pad [OF assms(1-3)])
  have "length ?p = k" by (rule length_pad_dec [OF assms(1-3)])
  then obtain c cs where p: "?p = c # cs" using assms(3) by (cases ?p) auto
  have c: "c \<noteq> newline" "\<not> is_space c" "c \<noteq> CHR ''-''" "c \<noteq> CHR ''+''" using d p digit_not [of c] by simp_all
  have "scan_skip (?p @ r) = Some (?p @ r)" using c by (simp add: p)
  moreover have "takeWhile is_digit (?p @ r) = ?p" "dropWhile is_digit (?p @ r) = r"
    using takeWhile_digits [OF d assms(5)] by simp_all
  ultimately show ?thesis using c v assms(1,4) p
    by (auto simp: scan_int_def int64_max_def)
qed

lemma colon_no_digit: "\<not> is_digit CHR '':''"
  by (simp add: is_digit_def ord_c_def)

lemma scan_hm_pad:
  assumes "0 \<le> h" "h < 100" "0 \<le> m" "m < 100"
  shows "scan_hm (pad_dec 2 h @ '':'' @ pad_dec 2 m) = Some (h, m)"
  using scan_int_pad [of h 2 "'':'' @ pad_dec 2 m"] scan_int_pad [of m 2 "[]"] assms colon_no_digit
  by (simp add: scan_hm_def int64_max_def)

text \<open>The time of day of the Windows instructions: a 24-hour \<open>HH:MM\<close> becomes the 12-hour time of the same minute
  of the day, from 12:00AM over 12:00PM to 11:59PM.\<close>

theorem to12Hour_same_minute:
  assumes "0 \<le> h" "h < 24" "0 \<le> m" "m < 60"
  shows "\<exists>h12. to12Hour (pad_dec 2 h @ '':'' @ pad_dec 2 m)
      = show_int h12 @ '':'' @ pad_dec 2 m @ (if h < 12 then ''AM'' else ''PM'')
    \<and> 1 \<le> h12 \<and> h12 \<le> 12 \<and> h = h12 mod 12 + (if h < 12 then 0 else 12)"
proof -
  have s: "scan_hm (pad_dec 2 h @ '':'' @ pad_dec 2 m) = Some (h, m)" using scan_hm_pad assms by simp
  have "display_hour h = (fst (display_hour h), if h < 12 then ''AM'' else ''PM'')"
    by (simp add: display_hour_def)
  then obtain h12 where d: "display_hour h = (h12, if h < 12 then ''AM'' else ''PM'')" by blast
  have "to12Hour (pad_dec 2 h @ '':'' @ pad_dec 2 m) = show_int h12 @ '':'' @ pad_dec 2 m @ (if h < 12 then ''AM'' else ''PM'')"
    unfolding to12Hour_def s using assms d by (simp add: pad02_def)
  moreover have "1 \<le> h12 \<and> h12 \<le> 12 \<and> h = h12 mod 12 + (if h < 12 then 0 else 12)"
    using d assms by (auto simp: display_hour_def split: if_splits)
  ultimately show ?thesis by blast
qed

theorem to12Hour_same_minute_witness:
  "\<exists>h12. to12Hour (pad_dec 2 13 @ '':'' @ pad_dec 2 5) = show_int h12 @ '':'' @ pad_dec 2 5 @ ''PM'' \<and> 13 = h12 mod 12 + 12"
  using to12Hour_same_minute [of 13 5] by auto

end
