(* ===== verification/Recovery.thy ===== *)
theory Recovery
  imports Executors Restore
begin

text \<open>
  From a backup to a restore: what the upload's check and the download together say about the bytes a
  database gets back (the strategies of internal/backup and internal/restore for postgres, mysql and
  mongodb, over a remote that keeps its objects), and a run of both.
\<close>

section \<open>A remote that keeps an object\<close>

text \<open>
  The remote keeps \<open>c\<close> under the name \<open>r\<close>: downloading the object delivers \<open>c\<close>, the documented behaviour of rclone
  on an object that is not replaced; \<open>c\<close> need not be what was sent.
\<close>

definition keeps :: "'x services \<Rightarrow> string \<Rightarrow> string \<Rightarrow> bool" where
  "keeps sv r c =
     (\<forall>d w u w'. rk_Download (sv_rclone sv) r d w = (Inr u, w') \<longrightarrow> fs_read (path_join [d, path_base r]) (w_fs w') = Inr c)"

definition collision :: "(string \<Rightarrow> string) \<Rightarrow> string \<Rightarrow> string \<Rightarrow> bool" where
  "collision md5 a b = (a \<noteq> b \<and> md5 a = md5 b)"

text \<open>The databases: their backup with its dump command, their restore with the command it feeds, and whether the
  program itself compresses the dump.\<close>

definition database_strategies where
  "database_strategies =
    [(postgres_backup, pg_dump_cmd, \<lambda>job. env_if ''PGPASSWORD'' (mget (j_Credentials job) ''POSTGRES_PASSWORD''), True, PostgresRestorer_Restore,
       \<lambda>job. [''psql'', ''-U'', mget (j_Credentials job) ''POSTGRES_USER'', mget (j_Credentials job) ''POSTGRES_DB'']),
     (mysql_backup, mysqldump_cmd, \<lambda>job. [(''MYSQL_PWD'', mget (j_Credentials job) ''MYSQL_ROOT_PASSWORD'')], True, MysqlRestorer_Restore,
       \<lambda>job. [''mysql'', ''-u'', ''root'', mget (j_Credentials job) ''MYSQL_DATABASE'']),
     (mongodb_backup, mongodump_cmd, \<lambda>job. [], False, MongodbRestorer_Restore,
       \<lambda>job. [''mongorestore'', ''--archive'', ''--gzip'', ''--drop''] @ mongo_auth job)]"

lemma database_strategies_run:
  assumes "(backup, dump_cmd, env, z, restore, load_cmd) \<in> set database_strategies"
  shows "backup sv job w = (Inr status, w') \<Longrightarrow> dump_uploaded sv job (dump_cmd job) (env job) z w w'"
    and "restore sv job file v = (Inr warning, v') \<Longrightarrow> fed sv job file z (load_cmd job) (env job) v warning v'"
  using assms
  by (auto simp: database_strategies_def PostgresRestorer_Restore_def MysqlRestorer_Restore_def MongodbRestorer_Restore_def failA_def
      split: if_splits dest: postgres_uploaded mysql_uploaded mongodb_uploaded feed_Inr)

lemma uploaded_hash:
  assumes "dump_uploaded sv job cmd env z w w'" and "(CHashsum r h, True) \<in> set (drop (length (w_hist w)) (w_hist w'))"
  shows "\<exists>dump w0. dk_Exec (sv_docker sv) (j_ContainerName job) cmd env None w = (Inr dump, w0)
    \<and> h = md5_hex (w_env w) (packed z (w_env w) dump)"
proof -
  from assms(1) obtain dump w0 p wm md5 b1 b2 where d: "dk_Exec (sv_docker sv) (j_ContainerName job) cmd env None w = (Inr dump, w0)"
    and e: "w_hist w' = w_hist w @ (CExec (j_ContainerName job) cmd env None, True) # checked_upload job p wm md5 b1 @ prune_events job b2"
    and m: "if wm then md5 = md5_hex (w_env w) (packed z (w_env w) dump) else True"
    unfolding dump_uploaded_def by blast
  from assms(2) e have "wm \<and> h = md5"
    by (auto simp: checked_upload_def prune_events_def split: if_splits)
  with m show ?thesis using d by auto
qed

lemma fed_bytes:
  assumes "fed sv job file z cmd env v warning v'" and "keeps sv (bf_Path file) c" and "bf_Name file = path_base (bf_Path file)"
  shows "\<exists>es x. w_hist v' = w_hist v @ es @ [(CExec (j_ContainerName job) cmd env (Some x), True)] \<and> only_downloads es
    \<and> (if z then gunzip (w_env v) c = Inr x else x = c)"
proof -
  from assms(1) obtain es x d data where h: "w_hist v' = w_hist v @ es @ [(CExec (j_ContainerName job) cmd env (Some x), True)]" "only_downloads es"
    and d: "delivered_data sv file d data" and x: "if z then gunzip (w_env v) data = Inr x else x = data"
    unfolding fed_def checked_data_def by blast
  from d assms(2,3) have "data = c" unfolding delivered_data_def keeps_def by (metis sum.inject(2))
  with h x show ?thesis by blast
qed

text \<open>A remote that keeps one dump.\<close>

definition sample_object :: string where
  "sample_object = ''/stage/h/hostdir/etc/etc_etc_20240601-000000Z.sql.gz''"

definition keeping_rclone :: "unit RcloneClient" where
  "keeping_rclone = \<lparr>rk_Upload = (\<lambda>a b w. (Inr (), w)), rk_ListFiles = (\<lambda>p w. (Inr [], w)),
     rk_Download = (\<lambda>r d w. let p = path_join [d, path_base r] in
       if r = sample_object \<and> path_clean p \<noteq> [slash] \<and> path_clean p \<noteq> ''.''
       then (Inr (), w\<lparr>w_fs := fs_put p (File ''dump'' 384 0) (w_fs w)\<rparr>) else (Inl (no_such ''open'' r), w)),
     rk_Prune = (\<lambda>p d k w. (Inr [], w)), rk_Hashsum = (\<lambda>p w. (Inr ''4'', w))\<rparr>"

definition keeping_services :: "unit services" where
  "keeping_services = \<lparr>sv_docker = sample_docker, sv_rclone = keeping_rclone, sv_http = (\<lambda>u b w. (Inr 200, w))\<rparr>"

definition sample_database :: Job where
  "sample_database = sample_job\<lparr>j_Credentials := [(''POSTGRES_USER'', ''u''), (''POSTGRES_DB'', ''d'')]\<rparr>"

definition sample_object_file :: BackupFile where
  "sample_object_file = \<lparr>bf_Name = path_base sample_object, bf_Size = 4, bf_Modified = 0, bf_Path = sample_object\<rparr>"

text \<open>The run of the backup, one call after the other.\<close>

definition backup_at :: "fsys \<Rightarrow> nat \<Rightarrow> (call \<times> bool) list \<Rightarrow> unit world" where
  "backup_at fs t h = sample_world\<lparr>w_fs := fs, w_tick := t, w_hist := h\<rparr>"

definition seen :: "'a res \<times> unit world \<Rightarrow> 'a res \<times> fsys \<times> nat \<times> string list \<times> string \<times> string" where
  "seen p = (case p of (r, w) \<Rightarrow> (r, w_fs w, w_tick w, w_in w, w_out w, w_err w))"

definition temp_files :: fsys where
  "temp_files = [(''/tmp'', Dir 511), (''/tmp/dockvault-etc-1'', Dir 448)]"

definition dump_file :: string where
  "dump_file = ''/tmp/dockvault-etc-1/etc_etc_20240601-000000Z.sql.gz''"

definition dump_files :: fsys where
  "dump_files = temp_files @ [(dump_file, File ''dump'' 384 1717200000000000000)]"

lemma backup_stages:
  "seen (MkdirTemp (job_prefix sample_database) (backup_at [(''/tmp'', Dir 511)] (Suc 0) h)) = (Inr ''/tmp/dockvault-etc-1'', temp_files, 2, [], [], [])"
  "seen (ArchiveFileName (j_Name sample_database) (VolumeIdentifierOrFallback sample_database) ''sql.gz'' (backup_at temp_files 2 h))
    = (Inr ''etc_etc_20240601-000000Z.sql.gz'', temp_files, 3, [], [], [])"
  "path_join [''/tmp/dockvault-etc-1'', ''etc_etc_20240601-000000Z.sql.gz''] = dump_file"
  "seen (GzipToFile ''dump'' dump_file (backup_at temp_files 3 h)) = (Inr (), dump_files, 5, [], [], [])"
  by code_simp+

lemma backup_uploads:
  "case UploadArchive keeping_services sample_database dump_file (backup_at dump_files 5 [e]) of (r, w) \<Rightarrow>
     is_ok r \<and> w_hist w \<noteq> [] \<and> last (w_hist w) = (CHashsum sample_object ''4'', True)"
  by code_simp

lemma backup_step:
  assumes "quiet m" and "seen (m (backup_at fs t h)) = (r, fs', t', [], [], [])"
  shows "m (backup_at fs t h) = (r, backup_at fs' t' h)"
proof -
  obtain q w where m: "m (backup_at fs t h) = (q, w)" by force
  then have q: "q = r" and w: "w_fs w = fs'" "w_tick w = t'" "w_in w = []" "w_out w = []" "w_err w = []"
    using assms(2) by (simp_all add: seen_def)
  have "w_env w = sample_env" "w_hist w = h"
    using quietD [OF assms(1) m] by (simp_all add: hist_ext_def backup_at_def sample_world_def)
  with w have "w = backup_at fs' t' h" by (intro world.equality) (simp_all add: backup_at_def sample_world_def)
  with m q show ?thesis by simp
qed

lemma sample_backup_runs:
  "\<exists>status w'. postgres_backup keeping_services sample_database sample_world = (Inr status, w')
    \<and> (CHashsum sample_object ''4'', True) \<in> set (w_hist w')"
proof -
  let ?e = "(CExec ''c'' (pg_dump_cmd sample_database) [] None, True)"
  have j: "j_ContainerName sample_database = ''c''" "mget (j_Credentials sample_database) ''POSTGRES_PASSWORD'' = []"
    "mget (j_Credentials sample_database) ''POSTGRES_USER'' = ''u''" "mget (j_Credentials sample_database) ''POSTGRES_DB'' = ''d''"
    by code_simp+
  have ex: "Exec keeping_services ''c'' (pg_dump_cmd sample_database) [] None sample_world = (Inr ''dump'', backup_at [(''/tmp'', Dir 511)] (Suc 0) [?e])"
    by (simp add: Exec_def callA_def keeping_services_def sample_docker_def tickA_def backup_at_def sample_world_def)
  obtain status w1 where u: "UploadArchive keeping_services sample_database dump_file (backup_at dump_files 5 [?e]) = (Inr status, w1)"
    and c: "(CHashsum sample_object ''4'', True) \<in> set (w_hist w1)"
    using backup_uploads [of ?e] last_in_set by (fastforce simp: is_ok_iff split: prod.splits)
  obtain r w' where rm: "RemoveAll ''/tmp/dockvault-etc-1'' w1 = (r, w')" by force
  have "gzip_and_upload keeping_services sample_database ''sql.gz'' ''dump'' (backup_at [(''/tmp'', Dir 511)] (Suc 0) [?e]) = (Inr status, w')"
    by (simp add: gzip_and_upload_def temp_dirA_def bindA_def wrapA_def cleanupA_def deferA_def backup_stages(3) u rm
        backup_step [OF quiet_mkdir_temp backup_stages(1)] backup_step [OF quiet_archive_name backup_stages(2)]
        backup_step [OF quiet_gzip backup_stages(4)])
  then have "postgres_backup keeping_services sample_database sample_world = (Inr status, w')"
    by (simp add: postgres_backup_def j env_if_def bindA_def wrapA_def ex)
  moreover have "(CHashsum sample_object ''4'', True) \<in> set (w_hist w')"
    using c quietD [OF quiet_os(7) rm] by (simp add: hist_ext_def)
  ultimately show ?thesis by blast
qed

lemma sample_restore_runs:
  "is_ok (fst (PostgresRestorer_Restore keeping_services sample_database sample_object_file sample_world))"
  by code_simp

lemma sample_remote_keeps: "keeps keeping_services sample_object ''dump''" "md5_hex sample_env ''dump'' = ''4''"
proof -
  show "md5_hex sample_env ''dump'' = ''4''" by code_simp
  show "keeps keeping_services sample_object ''dump''"
    by (auto simp: keeps_def keeping_services_def keeping_rclone_def Let_def fs_read_def fs_is_dir_def fs_node_def fs_put_def update_conv split: if_splits)
qed

lemma keeping_exec: "dk_Exec (sv_docker keeping_services) c cmd env i w = (Inr ''dump'', w)"
  by (simp add: keeping_services_def sample_docker_def)

end
