(* ===== verification/Cli_Base.thy ===== *)
theory Cli_Base
  imports Flags Restore Executors Env_Store Lock Detector
begin

text \<open>
  What the commands of internal/cli share: the global flags (global.go), the choice of the rclone
  remote (registry.go) and the machine they run on.
\<close>

record Global =
  g_Home :: string
  g_RcloneRemote :: string
  g_Environment :: string
  g_DryRun :: bool
  g_Verbose :: bool
  g_ShowVersion :: bool
  g_ShowHelp :: bool

definition defaultGlobal :: Global where
  "defaultGlobal = \<lparr>g_Home = [], g_RcloneRemote = ''dockvault_backup'', g_Environment = ''stage'', g_DryRun = False,
     g_Verbose = False, g_ShowVersion = False, g_ShowHelp = False\<rparr>"

definition resolveRcloneRemote :: "Global \<Rightarrow> Config \<Rightarrow> string" where
  "resolveRcloneRemote g cfg =
     (if g_RcloneRemote g \<noteq> [] \<and> g_RcloneRemote g \<noteq> ''dockvault_backup'' then g_RcloneRemote g
      else if c_RcloneRemote cfg \<noteq> [] then c_RcloneRemote cfg
      else g_RcloneRemote g)"

text \<open>
  The machine: its programs and its HTTP transport, the credential store of the platform the program is
  built for, the wording of fmt's scanning errors, the order in which the Go scheduler lets
  \<open>n\<close> jobs finish of which \<open>k\<close> may run at a time, and the modification times of directories, which the
  file system's model does not keep.
\<close>

record 'x platform =
  pl_programs :: "'x programs"
  pl_http :: "string \<Rightarrow> string \<Rightarrow> (int, 'x) act"
  pl_store :: "'x EnvStore"
  pl_scan_text :: "string \<Rightarrow> string"
  pl_order :: "nat \<Rightarrow> nat \<Rightarrow> nat list"
  pl_dir_time :: "string \<Rightarrow> instant"

definition docker_bin :: string where
  "docker_bin = ''docker''"

definition services_of :: "'x platform \<Rightarrow> string \<Rightarrow> 'x services" where
  "services_of pl remote = \<lparr>sv_docker = docker_client (pl_programs pl) docker_bin,
     sv_rclone = rclone_client (pl_programs pl) (rc_New remote), sv_http = pl_http pl\<rparr>"

definition ping :: "'x platform \<Rightarrow> (unit, 'x) act" where
  "ping pl = wrapA (hintf ''is Docker running? (Docker Desktop, or `sudo systemctl start docker`)'') (Ping (pl_programs pl) docker_bin)"

definition no_workspace :: "string \<Rightarrow> error" where
  "no_workspace root = hintf ''run `dockvault generate` first'' (errorf (''no workspace found at '' @ root))"

text \<open>\<open>workspace.Open\<close>, the check that there is one, and the lock around what follows.\<close>

definition in_workspace :: "Global \<Rightarrow> (string \<Rightarrow> (unit, 'x) act) \<Rightarrow> (unit, 'x) act" where
  "in_workspace g body =
     bindA (Open (g_Home g)) (\<lambda>root.
     bindA (Exists root) (\<lambda>ex.
       if \<not> ex then failA (no_workspace root) else with_lock root (body root)))"

definition in_new_workspace :: "Global \<Rightarrow> (string \<Rightarrow> (unit, 'x) act) \<Rightarrow> (unit, 'x) act" where
  "in_new_workspace g body =
     bindA (Open (g_Home g)) (\<lambda>root.
     bindA (EnsureLayout root) (\<lambda>_. with_lock root (body root)))"

text \<open>The tree branches of the listings, in UTF-8.\<close>

definition utf_line :: string where "utf_line = map chr_n [226, 148, 128]"
definition branch_mid :: string where "branch_mid = map chr_n [226, 148, 156] @ utf_line @ utf_line @ '' ''"
definition branch_last :: string where "branch_last = map chr_n [226, 148, 148] @ utf_line @ utf_line @ '' ''"
definition bar_prefix :: string where "bar_prefix = map chr_n [226, 148, 130] @ ''   ''"

text \<open>\<open>Format("2006-01-02 15:04:05 MST")\<close>; the zone is UTC.\<close>

definition format_stamp :: "instant \<Rightarrow> string" where
  "format_stamp t =
     (let (y, m, d, hh, mm, ss) = clock_of t
      in pad_int 4 y @ ''-'' @ pad_int 2 m @ ''-'' @ pad_int 2 d @ '' '' @ pad_int 2 hh @ '':'' @ pad_int 2 mm @ '':'' @ pad_int 2 ss @ '' UTC'')"

lemma quiet_with_lock [quiets]: "quiet body \<Longrightarrow> quiet (with_lock root body)"
  unfolding with_lock_def by (intro quiets)

lemma quiet_in_workspace [quiets]: "(\<And>root. quiet (body root)) \<Longrightarrow> quiet (in_workspace g body)"
  unfolding in_workspace_def by (intro quiets)

text \<open>An explicit \<open>--rclone-remote\<close> wins over config.json, unless it is the built-in default.\<close>

lemma resolve_default_loses:
  "c_RcloneRemote cfg \<noteq> [] \<Longrightarrow> resolveRcloneRemote (defaultGlobal\<lparr>g_RcloneRemote := ''dockvault_backup''\<rparr>) cfg = c_RcloneRemote cfg"
  by (simp add: resolveRcloneRemote_def defaultGlobal_def)

section \<open>A sample machine\<close>

definition sample_tools :: "unit programs" where
  "sample_tools bin args stdin fs x =
     (\<lparr>oc_stdout = (if hd args = ''exec'' then ''x'' else if hd args = ''hashsum'' then ''1'' else if hd args = ''lsjson'' then ''[]''
         else if hd args = ''listremotes'' then ''dockvault_backup:'' else []),
       oc_stderr = [], oc_error = None\<rparr>, fs, x)"

definition sample_platform :: "unit platform" where
  "sample_platform = \<lparr>pl_programs = sample_tools, pl_http = (\<lambda>_ _. returnA 200), pl_store = unix_store,
     pl_scan_text = (\<lambda>_. []), pl_order = (\<lambda>n k. [0..<n]), pl_dir_time = (\<lambda>_. 0)\<rparr>"

end
