(* ===== verification/Logger.thy ===== *)
theory Logger
  imports Terminal
begin

text \<open>
  internal/logger: timestamped lines to the terminal, coloured, and to a log file, plain. A line is
  written under a mutex, so it is one step here.
\<close>

datatype Level = LevelInfo | LevelSuccess | LevelWarn | LevelError

text \<open>\<open>lg_File\<close>: the path of the open log file.\<close>

record Logger =
  lg_Verbose :: bool
  lg_File :: "string option"

definition New :: "string \<Rightarrow> (Logger, 'x) act" where
  "New logFile =
     (if logFile = [] then returnA \<lparr>lg_Verbose = False, lg_File = None\<rparr>
      else bindA (wrapA (wrapf ''opening log file'') (OpenAppend logFile 384)) (\<lambda>_.
           bindA (ignoreA (Chmod logFile 384)) (\<lambda>_. returnA \<lparr>lg_Verbose = False, lg_File = Some logFile\<rparr>)))"

definition tag :: "Level \<Rightarrow> string" where
  "tag level = (case level of LevelSuccess \<Rightarrow> ''OK'' | LevelWarn \<Rightarrow> ''WARN'' | LevelError \<Rightarrow> ''ERROR'' | _ \<Rightarrow> ''INFO'')"

definition isTerminal :: "(bool, 'x) act" where
  "isTerminal =
     bindA (get_env (\<lambda>e. getenv e ''NO_COLOR'')) (\<lambda>nc.
       if nc \<noteq> [] then returnA False
       else bindA (get_env stdout_device) (\<lambda>dev. returnA (case dev of Inl _ \<Rightarrow> False | Inr b \<Rightarrow> b)))"

definition level_code :: "Level \<Rightarrow> string" where
  "level_code level = (case level of LevelSuccess \<Rightarrow> colorGreen | LevelWarn \<Rightarrow> colorYellow | LevelError \<Rightarrow> colorRed | _ \<Rightarrow> esc_seq ''36'')"

definition colorize :: "Level \<Rightarrow> string \<Rightarrow> (string, 'x) act" where
  "colorize level plain = bindA isTerminal (\<lambda>t. returnA (if t then level_code level @ plain @ esc_seq ''0'' else plain))"

definition log_plain :: "Level \<Rightarrow> instant \<Rightarrow> string \<Rightarrow> string" where
  "log_plain level t msg = ''['' @ format_rfc3339 t @ ''] '' @ tag level @ '' '' @ msg @ [newline]"

definition log :: "Logger \<Rightarrow> Level \<Rightarrow> string \<Rightarrow> (unit, 'x) act" where
  "log l level msg =
     bindA nowA (\<lambda>now.
     bindA (colorize level (log_plain level now msg)) (\<lambda>s.
     bindA (if level = LevelError then put_errA s else putA s) (\<lambda>_.
       case lg_File l of None \<Rightarrow> returnA () | Some p \<Rightarrow> ignoreA (WriteBytes p (log_plain level now msg)))))"

definition Info :: "Logger \<Rightarrow> string \<Rightarrow> (unit, 'x) act" where "Info l msg = log l LevelInfo msg"
definition Success :: "Logger \<Rightarrow> string \<Rightarrow> (unit, 'x) act" where "Success l msg = log l LevelSuccess msg"
definition Warn :: "Logger \<Rightarrow> string \<Rightarrow> (unit, 'x) act" where "Warn l msg = log l LevelWarn msg"
definition Error_log :: "Logger \<Rightarrow> string \<Rightarrow> (unit, 'x) act" where "Error_log l msg = log l LevelError msg"
definition Debug :: "Logger \<Rightarrow> string \<Rightarrow> (unit, 'x) act" where
  "Debug l msg = (if lg_Verbose l then log l LevelInfo msg else returnA ())"

lemma quiet_logger [quiets]: "quiet (New p)" "quiet (log l v m)" "quiet (Info l m)" "quiet (Success l m)" "quiet (Warn l m)"
  "quiet (Error_log l m)" "quiet (Debug l m)"
  unfolding New_def Info_def Success_def Warn_def Error_log_def Debug_def log_def colorize_def isTerminal_def
  by (intro quiets)+

end
