(* ===== verification/Sample_Runs.thy ===== *)
theory Sample_Runs
  imports Histories
begin

text \<open>
  Runs on the sample machine, for the examples: \<open>runs\<close> says what a composed action returns and which files it
  leaves, from what its parts return and leave, so that each part can be evaluated by itself.
\<close>

text \<open>\<open>runs m fs v fs'\<close>: on the sample machine with the files \<open>fs\<close>, the action \<open>m\<close> returns \<open>v\<close> and leaves the files \<open>fs'\<close>.\<close>

definition busy :: "fsys \<Rightarrow> unit world \<Rightarrow> unit world" where
  "busy fs w = sample_world\<lparr>w_fs := fs, w_tick := w_tick w, w_hist := w_hist w, w_in := w_in w, w_out := w_out w, w_err := w_err w\<rparr>"

definition runs :: "('a, unit) act \<Rightarrow> fsys \<Rightarrow> 'a \<Rightarrow> fsys \<Rightarrow> bool" where
  "runs m fs v fs' = (\<forall>w. \<exists>w'. m (busy fs w) = (Inr v, busy fs' w'))"

definition files :: "'a res \<times> unit world \<Rightarrow> 'a res \<times> fsys" where
  "files p = (case p of (r, w) \<Rightarrow> (r, w_fs w))"

lemma busy_eq: "w_env w = sample_env \<Longrightarrow> w_fs w = fs \<Longrightarrow> w = busy fs w"
  by (intro world.equality) (simp_all add: busy_def sample_world_def)

lemma busy_simps [simp]: "w_env (busy fs w) = sample_env" "w_fs (busy fs w) = fs"
  by (simp_all add: busy_def sample_world_def)

named_theorems running \<open>rules for runs\<close>

lemma runs_eval: "grows m \<Longrightarrow> (\<And>w. files (m (busy fs w)) = (Inr v, fs')) \<Longrightarrow> runs m fs v fs'"
  unfolding runs_def
proof
  fix w assume g: "grows m" and f: "\<And>w. files (m (busy fs w)) = (Inr v, fs')"
  obtain r w' where m: "m (busy fs w) = (r, w')" by force
  with f [of w] growsD [OF g m] have "r = Inr v" "w' = busy fs' w'" by (auto simp: files_def hist_ext_def intro!: busy_eq)
  with m show "\<exists>w'. m (busy fs w) = (Inr v, busy fs' w')" by metis
qed

lemma runs_return [running]: "runs (returnA v) fs v fs"
  unfolding runs_def returnA_def by blast

lemma runs_bind [running]: "runs m fs v fs1 \<Longrightarrow> runs (f v) fs1 u fs' \<Longrightarrow> runs (bindA m f) fs u fs'"
  unfolding runs_def bindA_def by (metis (mono_tags, lifting) case_prod_conv sum.case(2))

lemma runs_wrap [running]: "runs m fs v fs' \<Longrightarrow> runs (wrapA g m) fs v fs'"
  unfolding runs_def wrapA_def by (metis (mono_tags, lifting) case_prod_conv sum.case(2))

lemma runs_try [running]: "runs m fs v fs1 \<Longrightarrow> runs (f (Inr v)) fs1 u fs' \<Longrightarrow> runs (tryA m f) fs u fs'"
  unfolding runs_def tryA_def by (metis (mono_tags, lifting) case_prod_conv sum.case(2))

lemma runs_cleanup [running]: "runs m fs v fs1 \<Longrightarrow> runs f fs1 u fs' \<Longrightarrow> runs (cleanupA f m) fs v fs'"
  unfolding runs_def cleanupA_def deferA_def by (metis (mono_tags, lifting) case_prod_conv sum.case(2))

text \<open>The last step of a run, of which only the result matters.\<close>

lemma ends_bind:
  assumes "runs m fs v fs1" and "\<And>w. fst (f v (busy fs1 w)) = Inr u"
  shows "fst (bindA m f (busy fs w)) = Inr u"
proof -
  obtain w' where "m (busy fs w) = (Inr v, busy fs1 w')" using assms(1) unfolding runs_def by blast
  with assms(2) show ?thesis by (simp add: bindA_def)
qed

lemma ends_cleanup: "(\<And>w. fst (m (busy fs w)) = Inr u) \<Longrightarrow> fst (cleanupA f m (busy fs w)) = Inr u"
  by (auto simp: cleanupA_def deferA_def split: prod.split sum.split) (metis fst_conv sum.distinct(1) sum.inject(2))+

end
