(* ===== verification/Cli_Backup.thy ===== *)
theory Cli_Backup
  imports Cli_Base Input Logger Sample_Runs
begin

text \<open>
  \<open>dockvault backup\<close> (internal/cli/backup.go): which jobs are run, the pool of goroutines that runs them,
  what is recorded and what the command answers.
\<close>

section \<open>The jobs to run\<close>

definition selectJobNames :: "string \<Rightarrow> string \<Rightarrow> string \<Rightarrow> (string list, 'x) act" where
  "selectJobNames root jobFlag jobsFlag =
     (if jobFlag \<noteq> [] then returnA [jobFlag]
      else if jobsFlag \<noteq> [] then returnA (filter (\<lambda>p. p \<noteq> []) (map trim_space (split_on CHR '','' jobsFlag)))
      else ListJobNames root)"

definition load_jobs :: "'x EnvStore \<Rightarrow> string \<Rightarrow> string list \<Rightarrow> (Job list, 'x) act" where
  "load_jobs es root names = forA names (\<lambda>nm jobs. bindA (LoadJob es root nm) (\<lambda>job. returnA (jobs @ [job]))) []"

section \<open>Running them\<close>

record jobResult =
  jr_job :: Job
  jr_err :: "error option"
  jr_elapsed :: duration

text \<open>The body of a goroutine, from \<open>start := time.Now()\<close> on.\<close>

definition run_job :: "'x services \<Rightarrow> Logger \<Rightarrow> Job \<Rightarrow> (jobResult, 'x) act" where
  "run_job sv lg job =
     bindA nowA (\<lambda>start.
     bindA (case map_of executors (j_BackupType job) of
              None \<Rightarrow> returnA (job, Some (errorf (''no executor registered for backup type '' @ quote (j_BackupType job))))
            | Some body \<Rightarrow> bindA (Info lg (j_Name job @ '': starting backup'')) (\<lambda>_. Backup body sv job)) (\<lambda>(job, runErr).
     bindA nowA (\<lambda>now.
     let elapsed = now - start in
     bindA (case runErr of
              Some e \<Rightarrow> Error_log lg (j_Name job @ '': FAILED: '' @ err_msg e)
            | None \<Rightarrow> Success lg (j_Name job @ '': '' @ j_LastBackupStatus job @ '' ('' @ show_duration (round_duration elapsed 1000000) @ '')'')) (\<lambda>_.
       returnA \<lparr>jr_job = job, jr_err = runErr, jr_elapsed = elapsed\<rparr>))))"

text \<open>The jobs one after another in the order in which they finish, each result in its job's slot. Which orders can
  occur is the subject of the pool below.\<close>

definition runJobs :: "nat list \<Rightarrow> 'x services \<Rightarrow> Job list \<Rightarrow> Logger \<Rightarrow> (jobResult list, 'x) act" where
  "runJobs order sv jobs lg =
     bindA (forA order (\<lambda>i rs. bindA (run_job sv lg (jobs ! i)) (\<lambda>r. returnA (rs[i := Some r]))) (replicate (length jobs) None)) (\<lambda>rs.
       returnA (List.map_filter id rs))"

section \<open>The pool\<close>

text \<open>
  The goroutines of \<open>runJobs\<close>: \<open>po_next\<close> jobs have been launched, \<open>po_running\<close> of them hold a slot of the semaphore,
  \<open>po_finished\<close> are done, in this order. Launching blocks while the semaphore is full.
\<close>

record pool =
  po_next :: nat
  po_running :: "nat set"
  po_finished :: "nat list"

definition pool_init :: pool where
  "pool_init = \<lparr>po_next = 0, po_running = {}, po_finished = []\<rparr>"

inductive pool_step :: "nat \<Rightarrow> nat \<Rightarrow> pool \<Rightarrow> pool \<Rightarrow> bool" for n k where
  launch: "po_next s < n \<Longrightarrow> card (po_running s) < k
    \<Longrightarrow> pool_step n k s (s\<lparr>po_next := Suc (po_next s), po_running := insert (po_next s) (po_running s)\<rparr>)"
| finish: "i \<in> po_running s
    \<Longrightarrow> pool_step n k s (s\<lparr>po_running := po_running s - {i}, po_finished := po_finished s @ [i]\<rparr>)"

inductive_cases pool_stepE: "pool_step n k s s'"

text \<open>\<open>wg.Wait()\<close> returns once every goroutine is done.\<close>

definition pool_done :: "nat \<Rightarrow> pool \<Rightarrow> bool" where
  "pool_done n s = (po_next s = n \<and> po_running s = {})"

section \<open>The command\<close>

definition recordResults :: "string \<Rightarrow> jobResult list \<Rightarrow> (unit, 'x) act" where
  "recordResults root results =
     bindA (LoadManifest root) (\<lambda>manifest.
       SaveManifest root (fold (\<lambda>r. Upsert \<lparr>me_JobName = j_Name (jr_job r), me_ServiceType = j_ServiceType (jr_job r),
           me_LastBackup = j_LastBackup (jr_job r), me_LastBackupStatus = j_LastBackupStatus (jr_job r), me_LastSizeBytes = 0\<rparr>)
         results manifest))"

definition succeeded :: "jobResult list \<Rightarrow> nat" where
  "succeeded results = length (filter (\<lambda>r. jr_err r = None) results)"

definition printBackupSummary :: "jobResult list \<Rightarrow> (unit, 'x) act" where
  "printBackupSummary results =
     (let n = int (length results); ok = int (succeeded results)
      in if succeeded results = length results
         then putA (newline # map chr_n [226, 156, 147] @ '' '' @ show_int ok @ ''/'' @ show_int n @ '' job(s) succeeded'' @ [newline])
         else bindA (putA (newline # map chr_n [226, 156, 151] @ '' '' @ show_int ok @ ''/'' @ show_int n @ '' job(s) succeeded, ''
                      @ show_int (n - ok) @ '' failed'' @ [newline])) (\<lambda>_.
              bindA (forA results (\<lambda>r _. case jr_err r of None \<Rightarrow> returnA ()
                       | Some e \<Rightarrow> put_lineA (''  - '' @ j_Name (jr_job r) @ '': '' @ err_msg e)) ()) (\<lambda>_.
                failA (errorf (show_int (n - ok) @ '' of '' @ show_int n @ '' backup jobs failed'')))))"

definition backup_flags :: "Global \<Rightarrow> flag_def list" where
  "backup_flags g =
     [bool_flag ''auto'' False ''detect all volumes and backup only those with generated jobs (currently equivalent to --all - see doc comment)'',
      bool_flag ''all'' False ''run all existing jobs under $DOCKVAULT_HOME (default if no job specified)'',
      string_flag ''job'' [] ''run a single job by name'',
      string_flag ''jobs'' [] ''run multiple jobs, comma-separated'',
      bool_flag ''dry-run'' (g_DryRun g) ''show what would run, don't execute'',
      int_flag ''parallel'' 3 ''run up to N jobs in parallel'']"

definition pool_size :: "int \<Rightarrow> nat" where
  "pool_size par = nat (if par < 1 then 1 else par)"

text \<open>What precedes the jobs: the configuration, the checks of docker and rclone, the directories, the log.\<close>

definition open_run :: "'x platform \<Rightarrow> Global \<Rightarrow> string \<Rightarrow> Job list \<Rightarrow> (string \<times> Logger, 'x) act" where
  "open_run pl g root jobs =
     bindA (LoadConfig root) (\<lambda>cfg.
     bindA (ping pl) (\<lambda>_.
     let remote = resolveRcloneRemote g cfg in
     bindA (CheckConfigured (pl_programs pl) (rc_New remote)) (\<lambda>_.
     bindA (forA (UniqueRemoteDirs jobs) (\<lambda>dir _. rc_Mkdir (pl_programs pl) (rc_New remote) dir) ()) (\<lambda>_.
     bindA nowA (\<lambda>now.
     bindA (New (path_join [LogsDir root, ''master_'' @ format_date now @ ''.log''])) (\<lambda>lg.
       returnA (remote, lg\<lparr>lg_Verbose := g_Verbose g\<rparr>)))))))"

definition close_run :: "string \<Rightarrow> Logger \<Rightarrow> jobResult list \<Rightarrow> (unit, 'x) act" where
  "close_run root lg results =
     bindA (tryA (recordResults root results) (\<lambda>r. case r of
              Inl e \<Rightarrow> Warn lg (''saving manifest: '' @ err_msg e) | Inr _ \<Rightarrow> returnA ())) (\<lambda>_.
       printBackupSummary results)"

definition run_backups :: "'x platform \<Rightarrow> Global \<Rightarrow> string \<Rightarrow> int \<Rightarrow> Job list \<Rightarrow> (unit, 'x) act" where
  "run_backups pl g root par jobs =
     bindA (open_run pl g root jobs) (\<lambda>(remote, lg).
     bindA (runJobs (pl_order pl (length jobs) (pool_size par)) (services_of pl remote) jobs lg) (close_run root lg))"

definition dry_run_line :: "Job \<Rightarrow> string" where
  "dry_run_line job = ''[dry-run] would run job '' @ quote (j_Name job) @ '' ('' @ j_BackupType job @ '') -> '' @ j_GoogleDrivePath job"

definition backup_in :: "'x platform \<Rightarrow> Global \<Rightarrow> vals \<Rightarrow> string \<Rightarrow> (unit, 'x) act" where
  "backup_in pl g vs root =
     bindA (selectJobNames root (string_of vs ''job'') (string_of vs ''jobs'')) (\<lambda>names.
       if names = [] then put_lineA ''No jobs found. Run `dockvault generate` first.''
       else bindA (load_jobs (pl_store pl) root names) (\<lambda>jobs.
         if bool_of vs ''dry-run'' \<or> g_DryRun g then forA jobs (\<lambda>job _. put_lineA (dry_run_line job)) ()
         else run_backups pl g root (int_of vs ''parallel'') jobs))"

definition runBackup :: "'x platform \<Rightarrow> Global \<Rightarrow> string list \<Rightarrow> (unit, 'x) act" where
  "runBackup pl g args = bindA (Parse ''backup'' (backup_flags g) args) (\<lambda>(vs, _). in_workspace g (backup_in pl g vs))"

section \<open>What the pool guarantees\<close>

definition pool_inv :: "nat \<Rightarrow> nat \<Rightarrow> pool \<Rightarrow> bool" where
  "pool_inv n k s = (po_next s \<le> n \<and> card (po_running s) \<le> k \<and> distinct (po_finished s)
     \<and> po_running s \<inter> set (po_finished s) = {} \<and> po_running s \<union> set (po_finished s) = {..<po_next s})"

lemma pool_inv_finite: "pool_inv n k s \<Longrightarrow> finite (po_running s)"
  by (metis finite_Un finite_lessThan pool_inv_def)

lemma pool_inv_init: "pool_inv n k pool_init"
  by (auto simp: pool_inv_def pool_init_def)

lemma pool_inv_step: "pool_step n k s s' \<Longrightarrow> pool_inv n k s \<Longrightarrow> pool_inv n k s'"
proof (induction rule: pool_step.induct)
  case (launch s)
  have f: "finite (po_running s)" by (rule pool_inv_finite [OF launch(3)])
  have e: "po_running s \<union> set (po_finished s) = {..<po_next s}" using launch(3) by (simp add: pool_inv_def)
  have m: "po_next s \<notin> po_running s" "po_next s \<notin> set (po_finished s)" using e by (auto simp: set_eq_iff)
  have "insert (po_next s) (po_running s) \<union> set (po_finished s) = {..<Suc (po_next s)}" using e by (simp add: lessThan_Suc)
  moreover have "card (insert (po_next s) (po_running s)) \<le> k" using launch(2) f m(1) by simp
  moreover have "insert (po_next s) (po_running s) \<inter> set (po_finished s) = {}" using launch(3) m(2) by (simp add: pool_inv_def)
  ultimately show ?case using launch(1,3) by (simp add: pool_inv_def)
next
  case (finish i s)
  have disjoint: "po_running s \<inter> set (po_finished s) = {}" using finish(2) by (simp add: pool_inv_def)
  have "card (po_running s - {i}) \<le> card (po_running s)"
    by (rule card_mono [OF pool_inv_finite [OF finish(2)] Diff_subset])
  moreover have "(po_running s - {i}) \<union> set (po_finished s @ [i]) = po_running s \<union> set (po_finished s)"
    using finish(1) by auto
  moreover have "i \<notin> set (po_finished s)" "(po_running s - {i}) \<inter> set (po_finished s @ [i]) = {}"
    using finish(1) disjoint by (auto simp: disjoint_iff)
  ultimately show ?case using finish(2) by (simp add: pool_inv_def)
qed

lemma pool_inv_reach: "(pool_step n k)\<^sup>*\<^sup>* pool_init s \<Longrightarrow> pool_inv n k s"
  by (induction rule: rtranclp_induct) (auto intro: pool_inv_init pool_inv_step)

definition pool_left :: "nat \<Rightarrow> pool \<Rightarrow> nat" where
  "pool_left n s = 2 * (n - po_next s) + card (po_running s)"

lemma pool_left_decreases: "pool_step n k s s' \<Longrightarrow> pool_inv n k s \<Longrightarrow> pool_left n s' < pool_left n s"
proof (induction rule: pool_step.induct)
  case (launch s)
  then have "card (insert (po_next s) (po_running s)) \<le> Suc (card (po_running s))" by (simp add: card_insert_le_m1 pool_inv_finite card_insert_if)
  with launch show ?case by (simp add: pool_left_def)
next
  case (finish i s)
  then show ?case using card_Diff1_less [OF pool_inv_finite [OF finish(2)] finish(1)] by (simp add: pool_left_def)
qed

text \<open>C7: However the goroutines are scheduled, at most \<open>--parallel\<close> backups run at a time and every job is run
  once: a finished pool has completed each of the \<open>n\<close> jobs exactly once. While it has not finished some step is
  possible (there is no deadlock), and each step brings it closer to the end.\<close>

theorem runJobs_pool:
  assumes "(pool_step n k)\<^sup>*\<^sup>* pool_init s" and "1 \<le> k"
  shows "card (po_running s) \<le> k \<and> distinct (po_finished s) \<and> set (po_finished s) \<union> po_running s \<subseteq> {..<n}
    \<and> (pool_done n s \<longleftrightarrow> set (po_finished s) = {..<n})
    \<and> (\<not> pool_done n s \<longrightarrow> (\<exists>s'. pool_step n k s s'))
    \<and> (\<forall>s'. pool_step n k s s' \<longrightarrow> pool_left n s' < pool_left n s)"
proof -
  have i: "pool_inv n k s" by (rule pool_inv_reach [OF assms(1)])
  have fin: "finite (po_running s)" by (rule pool_inv_finite [OF i])
  have d: "pool_done n s \<longleftrightarrow> set (po_finished s) = {..<n}"
  proof
    assume f: "set (po_finished s) = {..<n}"
    have "{..<n} \<subseteq> {..<po_next s}" using i f by (auto simp: pool_inv_def)
    then have "po_next s = n" using i by (simp add: pool_inv_def)
    then show "pool_done n s" using i f by (auto simp: pool_inv_def pool_done_def)
  qed (use i in \<open>auto simp: pool_inv_def pool_done_def\<close>)
  have p: "\<exists>s'. pool_step n k s s'" if nd: "\<not> pool_done n s"
  proof (cases "po_running s = {}")
    case True
    then have "po_next s < n" using i nd by (auto simp: pool_inv_def pool_done_def)
    then show ?thesis using launch [of s n k] True assms(2) by auto
  qed (use finish in blast)
  have "set (po_finished s) \<union> po_running s = {..<po_next s}" "po_next s \<le> n" using i by (auto simp: pool_inv_def)
  then have "set (po_finished s) \<union> po_running s \<subseteq> {..<n}" by auto
  then show ?thesis using i d p pool_left_decreases [OF _ i] by (simp add: pool_inv_def)
qed

theorem runJobs_pool_witness:
  "\<exists>s. (pool_step 2 2)\<^sup>*\<^sup>* pool_init s \<and> card (po_running s) = 2 \<and> card (po_running s) \<le> 2 \<and> \<not> pool_done 2 s"
proof -
  let ?s1 = "\<lparr>po_next = 1, po_running = {0}, po_finished = []\<rparr>"
  let ?s2 = "\<lparr>po_next = 2, po_running = {0, 1}, po_finished = []\<rparr>"
  have "pool_step 2 2 pool_init ?s1" using launch [of pool_init 2 2] by (simp add: pool_init_def)
  moreover have "pool_step 2 2 ?s1 ?s2" using launch [of ?s1 2 2] by (simp add: numeral_2_eq_2 insert_commute)
  ultimately have r: "(pool_step 2 2)\<^sup>*\<^sup>* pool_init ?s2" by (meson converse_rtranclp_into_rtranclp rtranclp.rtrancl_refl)
  have "card (po_running ?s2) = 2" "\<not> pool_done 2 ?s2" by (simp_all add: pool_done_def)
  with runJobs_pool [OF r] r show ?thesis by (metis one_le_numeral)
qed

text \<open>The orders in which the jobs of a pool can finish: each is a permutation of the jobs, and with any number of slots they
  can finish in the order in which they were started.\<close>

definition pool_order :: "nat \<Rightarrow> nat \<Rightarrow> nat list \<Rightarrow> bool" where
  "pool_order n k ord = (\<exists>s. (pool_step n k)\<^sup>*\<^sup>* pool_init s \<and> pool_done n s \<and> po_finished s = ord)"

lemma pool_order_perm: "pool_order n k ord \<Longrightarrow> distinct ord \<and> set ord = {..<n}"
  unfolding pool_order_def using pool_inv_reach by (fastforce simp: pool_inv_def pool_done_def)

lemma pool_order_sequential:
  assumes "1 \<le> k"
  shows "pool_order n k [0..<n]"
proof -
  have "(pool_step n k)\<^sup>*\<^sup>* pool_init \<lparr>po_next = i, po_running = {}, po_finished = [0..<i]\<rparr>" if "i \<le> n" for i
    using that
  proof (induction i)
    case 0
    then show ?case by (simp add: pool_init_def)
  next
    case (Suc i)
    let ?s = "\<lparr>po_next = i, po_running = {}, po_finished = [0..<i]\<rparr>"
    let ?t = "\<lparr>po_next = Suc i, po_running = {i}, po_finished = [0..<i]\<rparr>"
    have "pool_step n k ?s ?t" using launch [of ?s n k] assms Suc.prems by simp
    moreover have "pool_step n k ?t \<lparr>po_next = Suc i, po_running = {}, po_finished = [0..<Suc i]\<rparr>"
      using finish [of i ?t n k] by simp
    ultimately show ?case using Suc by (meson Suc_leD rtranclp.rtrancl_into_rtrancl)
  qed
  from this [of n] show ?thesis unfolding pool_order_def
    by (intro exI [of _ "\<lparr>po_next = n, po_running = {}, po_finished = [0..<n]\<rparr>"]) (simp add: pool_done_def)
qed

section \<open>What success means\<close>

text \<open>\<open>earlier w w'\<close>: the calls made by \<open>w\<close> are the first of those made by \<open>w'\<close>.\<close>

definition earlier :: "'x world \<Rightarrow> 'x world \<Rightarrow> bool" where
  "earlier w w' = prefix (w_hist w) (w_hist w')"

lemma earlier_refl [simp]: "earlier w w"
  by (simp add: earlier_def)

lemma earlier_trans: "earlier w w' \<Longrightarrow> earlier w' w'' \<Longrightarrow> earlier w w''"
  unfolding earlier_def by (rule prefix_order.trans)

lemma grows_earlier: "grows m \<Longrightarrow> m w = (r, w') \<Longrightarrow> earlier w w'"
  by (drule (1) growsD) (auto simp: earlier_def hist_ext_def)

lemma forA_slots:
  assumes "forA order (\<lambda>i rs. bindA (f i) (\<lambda>r. returnA (rs[i := Some r]))) rs0 w = (Inr rs, w')"
    and "distinct order" and "set order \<subseteq> {..<length rs0}" and "\<And>i. grows (f i)"
  shows "length rs = length rs0 \<and> earlier w w' \<and> (\<forall>i < length rs0. if i \<in> set order
    then \<exists>r v v'. rs ! i = Some r \<and> f i v = (Inr r, v') \<and> earlier w v \<and> earlier v' w' else rs ! i = rs0 ! i)"
  using assms(1-3)
proof (induction order arbitrary: rs0 w)
  case Nil
  then show ?case by (simp add: return_Inr)
next
  case (Cons j order)
  from Cons.prems(1) obtain r w1 where f: "f j w = (Inr r, w1)"
    and rest: "forA order (\<lambda>i rs. bindA (f i) (\<lambda>r. returnA (rs[i := Some r]))) (rs0[j := Some r]) w1 = (Inr rs, w')"
    by (auto elim!: bind_Inr simp: return_Inr)
  have e: "earlier w w1" by (rule grows_earlier [OF assms(4) f])
  have "set order \<subseteq> {..<length (rs0[j := Some r])}" "distinct order" using Cons.prems(2,3) by simp_all
  note I = Cons.IH [OF rest this(2,1), unfolded length_list_update]
  have IH: "length rs = length rs0" "earlier w1 w'" using I by blast+
  note IHn = I [THEN conjunct2, THEN conjunct2, THEN spec, THEN mp]
  show ?case
  proof (intro conjI allI impI)
    show "length rs = length rs0" "earlier w w'" using IH(1) earlier_trans [OF e IH(2)] by auto
    fix i assume i: "i < length rs0"
    show "if i \<in> set (j # order) then \<exists>q v v'. rs ! i = Some q \<and> f i v = (Inr q, v') \<and> earlier w v \<and> earlier v' w' else rs ! i = rs0 ! i"
    proof (cases "i \<in> set order")
      case True
      then obtain q v v' where "rs ! i = Some q" "f i v = (Inr q, v')" "earlier w1 v" "earlier v' w'" using IHn [OF i] by auto
      with True e show ?thesis by (auto intro: earlier_trans)
    next
      case False
      then have q: "rs ! i = rs0[j := Some r] ! i" using IHn [OF i] by simp
      show ?thesis
      proof (cases "i = j")
        case True
        then have "rs ! i = Some r" "f i w = (Inr r, w1) \<and> earlier w w \<and> earlier w1 w'" using q i f IH(2) by auto
        then have "\<exists>v v'. f i v = (Inr r, v') \<and> earlier w v \<and> earlier v' w'" by blast
        with \<open>rs ! i = Some r\<close> \<open>i = j\<close> show ?thesis by simp
      qed (use q False in simp)
    qed
  qed
qed

lemma map_filter_all: "\<forall>i < length xs. \<exists>r. xs ! i = Some r \<Longrightarrow> map Some (List.map_filter id xs) = xs"
proof (induction xs)
  case (Cons x xs)
  from Cons.prems obtain r where "x = Some r" by fastforce
  moreover from Cons.prems have "\<forall>i < length xs. \<exists>r. xs ! i = Some r" by fastforce
  ultimately show ?case using Cons.IH by (simp add: List.map_filter_simps)
qed (simp add: List.map_filter_simps)

lemma grows_programs [growing]: "grows (Backup body sv job)" if "grows (body sv job)"
  unfolding Backup_def RunAndRecord_def SendWebhook_def Let_def by (intro growing that)

lemma grows_executor: "map_of executors t = Some body \<Longrightarrow> grows (body sv job)"
  unfolding executors_def standard_backup_def
  by (auto split: if_splits simp: standard_backup_def hostdir_backup_def n8n_backup_def postgres_backup_def mysql_backup_def
      mongodb_backup_def redis_backup_def rabbitmq_backup_def waitForSave_def Let_def gzip_and_upload_def intro!: growing)

lemma grows_lookup:
  assumes "\<And>body. x = Some body \<Longrightarrow> grows (body sv job)"
  shows "grows (case x of None \<Rightarrow> returnA v | Some body \<Rightarrow> bindA (Info lg l) (\<lambda>_. Backup body sv job))"
  using assms by (cases x) (auto intro!: growing quiet_logger [THEN grows_quiet])

lemma grows_run_job: "grows (run_job sv lg job)"
  unfolding run_job_def Let_def
  by (intro growing grows_lookup grows_executor quiet_logger [THEN grows_quiet])

lemma runJobs_slots:
  assumes "runJobs order sv jobs lg w = (Inr rs, w')" and "distinct order" and "set order = {..<length jobs}"
  shows "length rs = length jobs \<and> earlier w w'
    \<and> (\<forall>i < length jobs. \<exists>v v'. run_job sv lg (jobs ! i) v = (Inr (rs ! i), v') \<and> earlier w v \<and> earlier v' w')"
proof -
  from assms(1) obtain ss where l: "forA order (\<lambda>i rs. bindA (run_job sv lg (jobs ! i)) (\<lambda>r. returnA (rs[i := Some r])))
      (replicate (length jobs) None) w = (Inr ss, w')" and rs: "rs = List.map_filter id ss"
    unfolding runJobs_def by (auto elim!: bind_Inr simp: return_Inr)
  have s: "length ss = length jobs \<and> earlier w w' \<and> (\<forall>i < length jobs. \<exists>r v v'. ss ! i = Some r
      \<and> run_job sv lg (jobs ! i) v = (Inr r, v') \<and> earlier w v \<and> earlier v' w')"
    using forA_slots [OF l assms(2) _ grows_run_job] assms(3) by simp
  then have m: "map Some rs = ss" unfolding rs by (intro map_filter_all) auto
  then have "length rs = length jobs" "\<And>i. i < length jobs \<Longrightarrow> ss ! i = Some (rs ! i)" using s by (metis length_map nth_map)+
  with s show ?thesis by fastforce
qed

lemma run_job_ok:
  fixes sv :: "'x services"
  assumes "run_job sv lg job v = (Inr r, v')" and "jr_err r = None"
  shows "\<exists>body u u'. map_of executors (j_BackupType job) = Some body \<and> Backup body sv job u = (Inr (jr_job r, None), u')
    \<and> earlier v u \<and> earlier u' v'"
proof -
  let ?c = "case map_of executors (j_BackupType job) of
              None \<Rightarrow> returnA (job, Some (errorf (''no executor registered for backup type '' @ quote (j_BackupType job))))
            | Some body \<Rightarrow> bindA (Info lg (j_Name job @ '': starting backup'')) (\<lambda>_. Backup body sv job)"
  from assms(1) obtain start w1 q w2 where n: "nowA v = (Inr start, w1)" and c: "?c w1 = (Inr q, w2)"
    and t: "(case q of (job', err) \<Rightarrow> bindA nowA (\<lambda>now. bindA (case err of
              Some e \<Rightarrow> Error_log lg (j_Name job' @ '': FAILED: '' @ err_msg e)
            | None \<Rightarrow> Success lg (j_Name job' @ '': '' @ j_LastBackupStatus job' @ '' ('' @ show_duration (round_duration (now - start) 1000000) @ '')''))
        (\<lambda>_. returnA \<lparr>jr_job = job', jr_err = err, jr_elapsed = now - start\<rparr>))) w2 = (Inr r, v')"
    unfolding run_job_def Let_def by (elim bind_Inr)
  have r: "q = (jr_job r, jr_err r)" using t by (auto elim!: bind_Inr simp: return_Inr split: prod.splits)
  have "grows (case q of (job', err) \<Rightarrow> bindA nowA (\<lambda>now. bindA (case err of
              Some e \<Rightarrow> Error_log lg (j_Name job' @ '': FAILED: '' @ err_msg e)
            | None \<Rightarrow> Success lg (j_Name job' @ '': '' @ j_LastBackupStatus job' @ '' ('' @ show_duration (round_duration (now - start) 1000000) @ '')''))
        (\<lambda>_. returnA \<lparr>jr_job = job', jr_err = err, jr_elapsed = now - start\<rparr>)))"
    by (intro growing quiet_logger [THEN grows_quiet])
  then have l: "earlier w2 v'" using t by (rule grows_earlier)
  from c r assms(2) obtain body :: "'x backup_body" where b: "map_of executors (j_BackupType job) = Some body"
    by (auto simp: return_Inr split: option.splits)
  with c obtain u y where i: "Info lg (j_Name job @ '': starting backup'') w1 = (Inr y, u)" "Backup body sv job u = (Inr (jr_job r, None), w2)"
    using r assms(2) by (auto elim: bind_Inr)
  have "earlier v u" using earlier_trans grows_earlier [OF grows_quiet [OF quiet_now] n] grows_earlier [OF grows_quiet [OF quiet_logger(3)] i(1)] .
  with l b i(2) show ?thesis by blast
qed

lemma summary_ok:
  assumes "printBackupSummary results w = (Inr u, w')"
  shows "\<forall>r \<in> set results. jr_err r = None"
proof -
  have "succeeded results = length results"
    using assms unfolding printBackupSummary_def Let_def
    by (auto elim!: bind_Inr simp: failA_def split: if_splits)
  then show ?thesis using length_filter_less [of _ results "\<lambda>r. jr_err r = None"] by (fastforce simp: succeeded_def)
qed

text \<open>Each of the executors only reports success after a checked upload.\<close>

lemma executor_checked:
  assumes "map_of executors t = Some body" and "Backup body sv job w = (Inr (job', None), w')"
  shows "checked_run sv job w (j_LastBackupStatus job') w'"
proof -
  have "list_all (\<lambda>(nm, body). case Backup body sv job w of
       (Inr (job', None), w') \<Rightarrow> checked_run sv job w (j_LastBackupStatus job') w' | _ \<Rightarrow> True) executors"
    unfolding executors_def list.pred_inject prod.case by (intro conjI successes list.pred_inject(1))
  with map_of_SomeD [OF assms(1)] assms(2) show ?thesis by (fastforce simp: list_all_iff)
qed

lemma quiet_record [quiets]: "quiet (recordResults root results)"
  unfolding recordResults_def by (intro quiets)

lemma quiet_summary [quiets]: "quiet (printBackupSummary results)"
  unfolding printBackupSummary_def Let_def by (intro quiets)

lemma quiet_close_run: "quiet (close_run root lg results)"
  unfolding close_run_def by (intro quiets)

lemma grows_open_run: "grows (open_run pl g root jobs)"
  unfolding open_run_def Let_def ping_def Ping_def d_run_def runWithStdin_def CheckConfigured_def rc_Mkdir_def rc_run_def
  by (intro growing emits_command grows_quiet quiets)

text \<open>A run of \<open>backup\<close> that ends well: all of its jobs have made their checked uploads during the run.\<close>

definition backed_up :: "'x platform \<Rightarrow> string \<Rightarrow> Job \<Rightarrow> 'x world \<Rightarrow> 'x world \<Rightarrow> bool" where
  "backed_up pl remote job w w' = (\<exists>body job' v v'. map_of executors (j_BackupType job) = Some body
    \<and> Backup body (services_of pl remote) job v = (Inr (job', None), v') \<and> earlier w v \<and> earlier v' w'
    \<and> checked_run (services_of pl remote) job v (j_LastBackupStatus job') v')"

lemma run_backups_checked:
  fixes w :: "'x world"
  assumes "run_backups pl g root par jobs w = (Inr u, w')"
    and "distinct (pl_order pl (length jobs) (pool_size par))" and "set (pl_order pl (length jobs) (pool_size par)) = {..<length jobs}"
  shows "\<exists>remote lg w1. open_run pl g root jobs w = (Inr (remote, lg), w1) \<and> (\<forall>job \<in> set jobs. backed_up pl remote job w1 w')"
proof -
  from assms(1) obtain remote lg rs w1 w2 where o: "open_run pl g root jobs w = (Inr (remote, lg), w1)"
    and r: "runJobs (pl_order pl (length jobs) (pool_size par)) (services_of pl remote) jobs lg w1 = (Inr rs, w2)"
    and c: "close_run root lg rs w2 = (Inr u, w')"
    unfolding run_backups_def by (auto elim!: bind_Inr split: prod.splits)
  have l: "earlier w2 w'" using grows_quiet [OF quiet_close_run] c by (rule grows_earlier)
  from c obtain w3 where p: "printBackupSummary rs w3 = (Inr u, w')" unfolding close_run_def by (elim bind_Inr)
  note s = runJobs_slots [OF r assms(2,3)]
  have "backed_up pl remote job w1 w'" if "job \<in> set jobs" for job
  proof -
    from that obtain i where i: "i < length jobs" "job = jobs ! i" by (metis in_set_conv_nth)
    with s obtain v v' where v: "run_job (services_of pl remote) lg job v = (Inr (rs ! i), v')" "earlier w1 v" "earlier v' w2" by blast
    have "rs ! i \<in> set rs" using s i(1) by simp
    then have "jr_err (rs ! i) = None" using summary_ok [OF p] by blast
    from run_job_ok [OF v(1) this] obtain body y y' where b: "map_of executors (j_BackupType job) = Some body"
      "Backup body (services_of pl remote) job y = (Inr (jr_job (rs ! i), None), y')" "earlier v y" "earlier y' v'" by blast
    show ?thesis unfolding backed_up_def
      using b(1,2) executor_checked [OF b(1,2)] earlier_trans [OF v(2) b(3)] earlier_trans [OF b(4) earlier_trans [OF v(3) l]] by blast
  qed
  with o show ?thesis by blast
qed

lemma pool_size_pos: "1 \<le> pool_size par"
  by (auto simp: pool_size_def)

section \<open>Dry runs\<close>

lemma quiet_select [quiets]: "quiet (selectJobNames root a b)"
  unfolding selectJobNames_def by (intro quiets)

lemma quiet_load_jobs [quiets]: "quiet (load_jobs unix_store root names)"
  unfolding load_jobs_def by (intro quiets)

lemma Parse_run: "Parse nm fs args w = (Inr r, w') \<longleftrightarrow> parse_args fs args (initial fs) = Inr r \<and> w' = w"
  by (auto simp: Parse_def parse_with_def returnA_def bindA_def put_errA_def failA_def split: sum.split prod.split)

definition wants_dry_run :: "Global \<Rightarrow> string list \<Rightarrow> bool" where
  "wants_dry_run g args = (g_DryRun g \<or>
     (case parse_args (backup_flags g) args (initial (backup_flags g)) of Inr (vs, _) \<Rightarrow> bool_of vs ''dry-run'' | Inl _ \<Rightarrow> False))"


section \<open>What success means for the whole command\<close>

lemma in_workspace_Inr:
  assumes "in_workspace g body w = (Inr u, w')"
  shows "\<exists>root w1 w2 w3 w4. Open (g_Home g) w = (Inr root, w1) \<and> Exists root w1 = (Inr True, w2) \<and> Lock root w2 = (Inr (), w3)
    \<and> body root w3 = (Inr u, w4) \<and> earlier w4 w'"
proof -
  from assms obtain root ex w1 w2 where o: "Open (g_Home g) w = (Inr root, w1)" and x: "Exists root w1 = (Inr ex, w2)" "ex"
    and l: "with_lock root (body root) w2 = (Inr u, w')"
    unfolding in_workspace_def by (auto elim!: bind_Inr simp: failA_def split: if_splits)
  from l obtain v w3 w4 y where k: "Lock root w2 = (Inr v, w3)" and b: "body root w3 = (Inr u, w4)" and f: "unlock root w4 = (y, w')"
    unfolding with_lock_def by (auto elim!: bind_Inr cleanup_Inr)
  have "earlier w4 w'" by (rule grows_earlier [OF grows_quiet [OF quiet_unlock] f])
  with o x k b show ?thesis by (cases v) auto
qed

text \<open>C4: When \<open>dockvault backup\<close> (not a dry run) succeeds, every job that was selected, on its command line or because it is in the
  workspace, has been backed up in this very run: after it took the lock and read the names and the jobs, each job's executor was
  run and returned no error, and the calls this made contain, one after the other, the upload of the job's
  archive, the upload of the archive's manifest and a hash query that answered with the MD5 of the archive's bytes, or the job's status
  says that no manifest could be made. So it is for every order in which the pool lets the
  goroutines finish and all behaviours of docker, rclone and the machine.\<close>

theorem runBackup_complete:
  fixes w :: "'x world"
  assumes "runBackup pl g args w = (Inr u, w')" and "parse_args (backup_flags g) args (initial (backup_flags g)) = Inr (vs, rest)"
    and "\<not> bool_of vs ''dry-run''" and "\<not> g_DryRun g" and "\<forall>n k. 1 \<le> k \<longrightarrow> pool_order n k (pl_order pl n k)"
  shows "\<exists>root w1 w2 w3 names w4. Open (g_Home g) w = (Inr root, w1) \<and> Exists root w1 = (Inr True, w2) \<and> Lock root w2 = (Inr (), w3)
    \<and> selectJobNames root (string_of vs ''job'') (string_of vs ''jobs'') w3 = (Inr names, w4)
    \<and> (names = [] \<or> (\<exists>jobs w5 remote lg w6. load_jobs (pl_store pl) root names w4 = (Inr jobs, w5)
        \<and> open_run pl g root jobs w5 = (Inr (remote, lg), w6) \<and> (\<forall>job \<in> set jobs. backed_up pl remote job w6 w')))"
proof -
  from assms(1,2) have "in_workspace g (backup_in pl g vs) w = (Inr u, w')"
    unfolding runBackup_def by (elim bind_Inr) (auto simp: Parse_run)
  from in_workspace_Inr [OF this] obtain root w1 w2 w3 w9 where c: "Open (g_Home g) w = (Inr root, w1)" "Exists root w1 = (Inr True, w2)"
    "Lock root w2 = (Inr (), w3)" and b: "backup_in pl g vs root w3 = (Inr u, w9)" and e: "earlier w9 w'" by blast
  have d: "(bool_of vs ''dry-run'' \<or> g_DryRun g) = False" using assms(3,4) by simp
  from b obtain names w4 where n: "selectJobNames root (string_of vs ''job'') (string_of vs ''jobs'') w3 = (Inr names, w4)"
    and r: "(if names = [] then put_lineA ''No jobs found. Run `dockvault generate` first.''
       else bindA (load_jobs (pl_store pl) root names) (run_backups pl g root (int_of vs ''parallel''))) w4 = (Inr u, w9)"
    unfolding backup_in_def d if_False by (rule bind_Inr)
  have "\<exists>jobs w5 remote lg w6. load_jobs (pl_store pl) root names w4 = (Inr jobs, w5)
        \<and> open_run pl g root jobs w5 = (Inr (remote, lg), w6) \<and> (\<forall>job \<in> set jobs. backed_up pl remote job w6 w')" if "names \<noteq> []"
  proof -
    from r that obtain jobs w5 where l: "load_jobs (pl_store pl) root names w4 = (Inr jobs, w5)"
      and k: "run_backups pl g root (int_of vs ''parallel'') jobs w5 = (Inr u, w9)" by (auto elim: bind_Inr)
    have o: "distinct (pl_order pl (length jobs) (pool_size (int_of vs ''parallel'')))"
      "set (pl_order pl (length jobs) (pool_size (int_of vs ''parallel''))) = {..<length jobs}"
      using pool_order_perm assms(5) pool_size_pos by blast+
    from run_backups_checked [OF k o] obtain remote lg w6 where "open_run pl g root jobs w5 = (Inr (remote, lg), w6)"
      and "\<forall>job \<in> set jobs. backed_up pl remote job w6 w9" by blast
    then show ?thesis using l e unfolding backed_up_def by (meson earlier_trans)
  qed
  with c n show ?thesis by blast
qed

section \<open>A run with one job\<close>

text \<open>A workspace with one mongodb job.\<close>

definition mongo_job :: Job where
  "mongo_job = sample_job\<lparr>j_Name := ''m'', j_BackupType := ''mongodb'', j_ServiceType := ''mongodb'', j_VolumeIdentifier := ''v'',
     j_GoogleDrivePath := ''/p/m''\<rparr>"

definition busy_fs :: fsys where
  "busy_fs = [(''/tmp'', Dir 448), (''/tmp/logs'', Dir 448), (''/tmp/m'', Dir 448),
     (''/tmp/m/job.json'', File (MarshalIndent (job_json (job_config mongo_job))) 384 0)]"

definition sample_time :: instant where "sample_time = 1717200000000000000"

definition locked_fs :: fsys where
  "locked_fs = busy_fs @ [(''/tmp/.dockvault.lock'', File [CHR ''7'', newline] 384 sample_time)]"

definition log_file :: string where "log_file = ''/tmp/logs/master_2024-06-01.log''"
definition busy_log :: Logger where "busy_log = \<lparr>lg_Verbose = False, lg_File = Some log_file\<rparr>"
definition busy_services :: "unit services" where "busy_services = services_of sample_platform ''dockvault_backup''"
definition busy_global :: Global where "busy_global = defaultGlobal\<lparr>g_Home := ''/tmp''\<rparr>"

definition run_fs :: "string \<Rightarrow> fsys" where
  "run_fs c = locked_fs @ [(log_file, File c 384 sample_time)]"

lemma grows_steps: "grows (Open h)" "grows (Exists r)" "grows (Lock r)" "grows (LoadConfig r)" "grows (New p)" "grows (load_jobs unix_store r ns)"
  "grows (Info lg m)" "grows (Success lg m)" "grows (unlock r)" "grows nowA" "grows (ping pl)" "grows (CheckConfigured X c)" "grows (rc_Mkdir X c d)"
  unfolding ping_def Ping_def d_run_def runWithStdin_def CheckConfigured_def rc_Mkdir_def rc_run_def
  by (intro growing emits_command grows_quiet quiets)+

lemma opening_stages:
  "runs (Open ''/tmp'') busy_fs ''/tmp'' busy_fs" "runs (Exists ''/tmp'') busy_fs True busy_fs" "runs (Lock ''/tmp'') busy_fs () locked_fs"
  "runs (load_jobs unix_store ''/tmp'' [''m'']) locked_fs [mongo_job] locked_fs"
  "runs (LoadConfig ''/tmp'') locked_fs (DefaultConfig\<lparr>c_LocalBackupDir := ''/tmp/local_backups''\<rparr>) locked_fs"
  "runs (ping sample_platform) locked_fs () locked_fs"
  "runs (CheckConfigured sample_tools (rc_New ''dockvault_backup'')) locked_fs () locked_fs"
  "runs (rc_Mkdir sample_tools (rc_New ''dockvault_backup'') ''/p/m'') locked_fs () locked_fs"
  "runs nowA locked_fs sample_time locked_fs"
  "runs (New log_file) locked_fs busy_log (run_fs [])"
  by (rule runs_eval [OF grows_steps(1)], code_simp) (rule runs_eval [OF grows_steps(2)], code_simp, rule runs_eval [OF grows_steps(3)], code_simp,
     rule runs_eval [OF grows_steps(6)], code_simp, rule runs_eval [OF grows_steps(4)], code_simp, rule runs_eval [OF grows_steps(11)], code_simp,
     rule runs_eval [OF grows_steps(12)], code_simp, rule runs_eval [OF grows_steps(13)], code_simp, rule runs_eval [OF grows_steps(10)], code_simp,
     rule runs_eval [OF grows_steps(5)], code_simp)

lemma opening_values: "UniqueRemoteDirs [mongo_job] = [''/p/m'']" "path_join [LogsDir ''/tmp'', ''master_'' @ format_date sample_time @ ''.log''] = log_file"
  "resolveRcloneRemote busy_global (DefaultConfig\<lparr>c_LocalBackupDir := ''/tmp/local_backups''\<rparr>) = ''dockvault_backup''"
  "busy_log\<lparr>lg_Verbose := g_Verbose busy_global\<rparr> = busy_log" "pl_programs sample_platform = sample_tools" "pl_store sample_platform = unix_store"
  by (code_simp, code_simp, code_simp, code_simp) (simp_all add: sample_platform_def)

lemma open_stage: "runs (open_run sample_platform busy_global ''/tmp'' [mongo_job]) locked_fs (''dockvault_backup'', busy_log) (run_fs [])"
  unfolding open_run_def Let_def forA.simps opening_values
  by (rule running opening_stages | simp only: opening_values forA.simps)+

definition temp_fs :: "string \<Rightarrow> fsys" where
  "temp_fs c = run_fs c @ [(''/tmp/dockvault-m-1'', Dir 448)]"

definition archive :: string where "archive = ''/tmp/dockvault-m-1/m_v_20240601-000000Z.archive.gz''"
definition archive_fs :: "string \<Rightarrow> fsys" where "archive_fs c = temp_fs c @ [(archive, File ''x'' 384 sample_time)]"

definition busy_manifest :: ArchiveManifest where
  "busy_manifest = \<lparr>am_JobName = ''m'', am_BackupType = ''mongodb'', am_FileName = ''m_v_20240601-000000Z.archive.gz'', am_SHA256 = ''1'',
     am_MD5 = ''1'', am_SizeBytes = 1, am_CreatedAt = sample_time\<rparr>"

definition upload_fs :: "string \<Rightarrow> fsys" where
  "upload_fs c = archive_fs c @ [(ManifestPathFor archive, File (MarshalIndent (manifest_json busy_manifest)) 384 sample_time)]"

lemma grows_more: "grows (ComputeManifest job p)" "grows (WriteManifest am p)" "grows (Stat p)" "grows (RemoveAll p)" "grows (MkdirTemp pre)"
  "grows (WriteFile p d m)" "grows (ArchiveFileName nm vol ext)" "grows (Upload sv src dst)" "grows (verifyRemoteHash sv p h)" "grows (Exec sv ct cmd env inp)"
  unfolding verifyRemoteHash_def by (intro growing grows_quiet quiets quiet_compute_manifest quiet_write_manifest)+

lemma backup_stages_mongo:
  "runs (Exec busy_services ''c'' ([''mongodump'', ''--archive'', ''--gzip''] @ mongo_auth mongo_job) [] None) (run_fs c) ''x'' (run_fs c)"
  "runs (MkdirTemp (job_prefix mongo_job)) (run_fs c) ''/tmp/dockvault-m-1'' (temp_fs c)"
  "runs (ArchiveFileName ''m'' ''v'' ''archive.gz'') (temp_fs c) ''m_v_20240601-000000Z.archive.gz'' (temp_fs c)"
  "runs (WriteFile archive ''x'' 384) (temp_fs c) () (archive_fs c)"
  "runs (Stat archive) (archive_fs c) (File ''x'' 384 sample_time) (archive_fs c)"
  "runs (ComputeManifest mongo_job archive) (archive_fs c) busy_manifest (archive_fs c)"
  "runs (WriteManifest busy_manifest (ManifestPathFor archive)) (archive_fs c) () (upload_fs c)"
  "runs (Upload busy_services archive ''/p/m'') (upload_fs c) () (upload_fs c)"
  "runs (Upload busy_services (ManifestPathFor archive) ''/p/m'') (upload_fs c) () (upload_fs c)"
  "runs (verifyRemoteHash busy_services (path_join [''/p/m'', path_base archive]) ''1'') (upload_fs c) () (upload_fs c)"
  "runs (RemoveAll ''/tmp/dockvault-m-1'') (upload_fs c) () (run_fs c)"
  "runs nowA (run_fs c) sample_time (run_fs c)"
  "runs (Info busy_log (''m'' @ '': starting backup'')) (run_fs []) () (run_fs ''[2024-06-01T00:00:00Z] INFO m: starting backup\<newline>'')"
  by (rule runs_eval [OF grows_more(10)], code_simp) (rule runs_eval [OF grows_more(5)], code_simp, rule runs_eval [OF grows_more(7)], code_simp,
    rule runs_eval [OF grows_more(6)], code_simp, rule runs_eval [OF grows_more(3)], code_simp, rule runs_eval [OF grows_more(1)], code_simp,
    rule runs_eval [OF grows_more(2)], code_simp, rule runs_eval [OF grows_more(8)], code_simp, rule runs_eval [OF grows_more(8)], code_simp,
    rule runs_eval [OF grows_more(9)], code_simp, rule runs_eval [OF grows_more(4)], code_simp, rule runs_eval [OF grows_steps(10)], code_simp,
    rule runs_eval [OF grows_steps(7)], code_simp)


lemma backup_values: "j_GoogleDrivePath mongo_job = ''/p/m''" "j_Name mongo_job = ''m''" "VolumeIdentifierOrFallback mongo_job = ''v''"
  "j_ContainerName mongo_job = ''c''" "j_LocalRetentionCount mongo_job = 0" "j_RetentionDays mongo_job = 0" "am_MD5 busy_manifest = ''1''"
  "path_join [''/tmp/dockvault-m-1'', ''m_v_20240601-000000Z.archive.gz''] = archive" "ManifestPathFor archive \<noteq> []"
  "node_size (File ''x'' 384 sample_time) = 1" "FormatBytes 1 = Some ''1 B''" "j_WebhookURL mongo_job = []" "j_BackupType mongo_job = ''mongodb''"
  by code_simp+


lemma upload_stage: "runs (UploadArchive busy_services mongo_job archive) (archive_fs c) ''success (1 B)'' (upload_fs c)"
  unfolding UploadArchive_def prepare_manifest_def
  by (rule running backup_stages_mongo
    | simp add: backup_values retainLocalCopy_def finish_upload_def upload_manifest_def PruneWithWarning_def)+

lemma mongo_stage: "runs (mongodb_backup busy_services mongo_job) (run_fs c) ''success (1 B)'' (run_fs c)"
  unfolding mongodb_backup_def temp_dirA_def backup_values
  by (simp only: list.distinct if_False, (rule running backup_stages_mongo upload_stage | simp only: backup_values)+)



definition done_job :: Job where
  "done_job = mongo_job\<lparr>j_LastBackup := Some sample_time, j_LastBackupStatus := ''success (1 B)''\<rparr>"

definition done_result :: jobResult where
  "done_result = \<lparr>jr_job = done_job, jr_err = None, jr_elapsed = 0\<rparr>"

definition first_line :: string where "first_line = ''[2024-06-01T00:00:00Z] INFO m: starting backup\<newline>''"
definition both_lines :: string where "both_lines = first_line @ ''[2024-06-01T00:00:00Z] OK m: success (1 B) (0s)\<newline>''"

lemma log_stages:
  "runs (Info busy_log (''m'' @ '': starting backup'')) (run_fs []) () (run_fs first_line)"
  "runs (Success busy_log (''m'' @ '': '' @ ''success (1 B)'' @ '' ('' @ show_duration (round_duration (sample_time - sample_time) 1000000) @ '')''))
    (run_fs first_line) () (run_fs both_lines)"
  by (rule runs_eval [OF grows_steps(7)], code_simp) (rule runs_eval [OF grows_steps(8)], code_simp)

lemma done_values: "record_outcome mongo_job sample_time (Inr ''success (1 B)'') = done_job" "j_Name done_job = ''m''"
  "j_LastBackupStatus done_job = ''success (1 B)''" "sample_time - sample_time = 0"
  by code_simp+

lemma recorded_stage: "runs (Backup mongodb_backup busy_services mongo_job) (run_fs c) (done_job, None) (run_fs c)"
  unfolding Backup_def RunAndRecord_def Let_def
  by (rule running mongo_stage backup_stages_mongo(12) | simp only: sum.case done_values backup_values if_True simp_thms)+

lemma mongo_executor: "map_of executors ''mongodb'' = Some mongodb_backup"
  by (simp add: executors_def)

lemma job_stage: "runs (run_job busy_services busy_log mongo_job) (run_fs []) done_result (run_fs both_lines)"
  unfolding run_job_def Let_def backup_values mongo_executor option.case
  by ((rule running recorded_stage log_stages backup_stages_mongo(12) | simp only: prod.case option.case done_values(2,3))+,
    simp only: done_result_def done_values runs_return)

lemma jobs_stage: "runs (runJobs [0] busy_services [mongo_job] busy_log) (run_fs []) [done_result] (run_fs both_lines)"
  unfolding runJobs_def by (rule running job_stage | simp add: map_filter_simps)+

lemma close_stage: "fst (close_run ''/tmp'' busy_log [done_result] (busy (run_fs c) w)) = Inr ()"
  by code_simp

lemma names_stage: "runs (selectJobNames ''/tmp'' [] []) locked_fs [''m''] locked_fs"
  by (rule runs_eval [OF grows_quiet [OF quiet_select]], code_simp)

abbreviation "busy_flags \<equiv> initial (backup_flags busy_global)"

lemma flag_values: "parse_args (backup_flags busy_global) [] busy_flags = Inr (busy_flags, [])" "\<not> bool_of busy_flags ''dry-run''"
  "string_of busy_flags ''job'' = []" "string_of busy_flags ''jobs'' = []" "\<not> g_DryRun busy_global" "g_Home busy_global = ''/tmp''"
  "pl_order sample_platform (length [mongo_job]) n = [0]" "services_of sample_platform ''dockvault_backup'' = busy_services"
  by (rule parse_stop, simp) (code_simp, code_simp, code_simp, code_simp, code_simp, simp add: sample_platform_def, simp add: busy_services_def)

lemma backup_runs: "fst (runBackup sample_platform busy_global [] (busy busy_fs w)) = Inr ()"
proof -
  have "fst (run_backups sample_platform busy_global ''/tmp'' par [mongo_job] (busy locked_fs v)) = Inr ()" for par v
    unfolding run_backups_def flag_values
    by (rule ends_bind [OF open_stage]) (simp only: prod.case flag_values, rule ends_bind [OF jobs_stage], rule close_stage)
  then have "fst (backup_in sample_platform busy_global busy_flags ''/tmp'' (busy locked_fs v)) = Inr ()" for v
    unfolding backup_in_def flag_values
    by (intro ends_bind [OF names_stage])
      (simp add: flag_values opening_values ends_bind [OF opening_stages(4)])
  then have "fst (with_lock ''/tmp'' (backup_in sample_platform busy_global busy_flags ''/tmp'') (busy busy_fs v)) = Inr ()" for v
    unfolding with_lock_def by (intro ends_bind [OF opening_stages(3)] ends_cleanup)
  then have "fst (in_workspace busy_global (backup_in sample_platform busy_global busy_flags) (busy busy_fs v)) = Inr ()" for v
    unfolding in_workspace_def flag_values
    by (intro ends_bind [OF opening_stages(1)] ends_bind [OF opening_stages(2)]) simp
  moreover have "Parse ''backup'' (backup_flags busy_global) [] (busy busy_fs w) = (Inr (busy_flags, []), busy busy_fs w)"
    by (simp only: Parse_run flag_values simp_thms)
  ultimately show ?thesis unfolding runBackup_def bindA_def [of "Parse _ _ _"] by simp
qed

theorem runBackup_complete_witness:
  "\<exists>w w' w1. runBackup sample_platform busy_global [] w = (Inr (), w') \<and> backed_up sample_platform ''dockvault_backup'' mongo_job w1 w'"
proof -
  let ?w = "busy busy_fs sample_world"
  obtain w' where r: "runBackup sample_platform busy_global [] ?w = (Inr (), w')" using backup_runs by (metis prod.collapse)
  have o: "\<forall>n k. 1 \<le> k \<longrightarrow> pool_order n k (pl_order sample_platform n k)"
    using pool_order_sequential by (auto simp: sample_platform_def)
  from runBackup_complete [OF r flag_values(1,2,5) o, unfolded flag_values opening_values] obtain root w1 w2 w3 names w4
    where c: "Open ''/tmp'' ?w = (Inr root, w1)" "Exists root w1 = (Inr True, w2)" "Lock root w2 = (Inr (), w3)"
      "selectJobNames root [] [] w3 = (Inr names, w4)"
    and n: "names = [] \<or> (\<exists>jobs w5 remote lg w6. load_jobs unix_store root names w4 = (Inr jobs, w5)
        \<and> open_run sample_platform busy_global root jobs w5 = (Inr (remote, lg), w6) \<and> (\<forall>job \<in> set jobs. backed_up sample_platform remote job w6 w'))"
    by blast
  have s: "\<exists>v'. w'' = busy fs' v' \<and> x = v" if "runs m fs v fs'" "m (busy fs y) = (Inr x, w'')" for m :: "('b, unit) act" and fs v fs' y x w''
    using that unfolding runs_def by (metis prod.inject sum.inject(2))
  from s [OF opening_stages(1) c(1)] obtain y1 where 1: "root = ''/tmp''" "w1 = busy busy_fs y1" by blast
  from s [OF opening_stages(2) c(2) [unfolded 1]] obtain y2 where 2: "w2 = busy busy_fs y2" by blast
  from s [OF opening_stages(3) c(3) [unfolded 1 2]] obtain y3 where 3: "w3 = busy locked_fs y3" by blast
  from s [OF names_stage c(4) [unfolded 1 3]] obtain y4 where 4: "names = [''m'']" "w4 = busy locked_fs y4" by blast
  from n 1 4 obtain jobs w5 remote lg w6 where l: "load_jobs unix_store ''/tmp'' [''m''] (busy locked_fs y4) = (Inr jobs, w5)"
      "open_run sample_platform busy_global ''/tmp'' jobs w5 = (Inr (remote, lg), w6)"
    and b: "\<forall>job \<in> set jobs. backed_up sample_platform remote job w6 w'" by auto
  from s [OF opening_stages(4) l(1)] obtain y5 where 5: "jobs = [mongo_job]" "w5 = busy locked_fs y5" by blast
  from s [OF open_stage l(2) [unfolded 5]] have "remote = ''dockvault_backup''" by blast
  with b 5 r show ?thesis by auto
qed


end
