(* ===== verification/Cli_Restore.thy ===== *)
theory Cli_Restore
  imports Cli_Base Input
begin

text \<open>
  \<open>dockvault restore\<close> (internal/cli/restore.go): picking a job and one of its backups, the typed
  confirmation, the restore, and the offer to start the container again.
\<close>

section \<open>The command\<close>

definition restore_flags :: "Global \<Rightarrow> flag_def list" where
  "restore_flags g =
     [string_flag ''job'' [] ''restore a specific job (skip job selection)'',
      bool_flag ''dry-run'' (g_DryRun g) ''show steps without executing'']"

text \<open>The chosen job's name; \<open>None\<close> if there are no jobs.\<close>

definition choose_job :: "string \<Rightarrow> string \<Rightarrow> (string option, 'x) act" where
  "choose_job root jobFlag =
     (if jobFlag \<noteq> [] then returnA (Some jobFlag)
      else bindA (ListJobNames root) (\<lambda>names.
        if names = [] then returnA None
        else bindA (SelectOne ''Select a job to restore:'' names) (\<lambda>idx. returnA (Some (names ! nat idx)))))"

definition backup_label :: "BackupFile \<Rightarrow> string option" where
  "backup_label f = map_option (\<lambda>sz. bf_Name f @ ''  ('' @ sz @ '', '' @ format_stamp (bf_Modified f) @ '')'') (FormatBytes (bf_Size f))"

definition maybeRestartContainer :: "'x services \<Rightarrow> Job \<Rightarrow> (unit, 'x) act" where
  "maybeRestartContainer sv job =
     (if j_ContainerName job = [] then returnA ()
      else tryA (Confirm (''Start container '' @ quote (j_ContainerName job) @ '' back up?'') False) (\<lambda>r. case r of
        Inl e \<Rightarrow> put_lineA (''Leaving container '' @ quote (j_ContainerName job) @ '' stopped (couldn't read a confirmation: '' @ err_msg e @ '')'')
      | Inr ok \<Rightarrow>
          if \<not> ok then put_lineA (''Leaving container '' @ quote (j_ContainerName job) @ '' stopped.'')
          else bindA (wrapA (wrapf (''starting container '' @ quote (j_ContainerName job))) (Start sv (j_ContainerName job))) (\<lambda>_.
                 put_lineA (''Started container '' @ quote (j_ContainerName job)))))"

definition restore_confirmed :: "'x services \<Rightarrow> 'x restore_body \<Rightarrow> Job \<Rightarrow> BackupFile \<Rightarrow> (unit, 'x) act" where
  "restore_confirmed sv exec job bf =
     bindA (put_lineA (''Restoring '' @ quote (j_Name job) @ '' from '' @ bf_Name bf @ '' ...'')) (\<lambda>_.
     bindA (wrapA (wrapf ''restore failed'') (exec sv job bf)) (\<lambda>warning.
     bindA (if warning \<noteq> [] then put_lineA (''Warning: '' @ warning) else returnA ()) (\<lambda>_.
     bindA (put_lineA ''Restore complete.'') (\<lambda>_.
       if StopsContainerDuringRestore (j_BackupType job) then maybeRestartContainer sv job else returnA ()))))"

definition restore_file :: "'x services \<Rightarrow> 'x restore_body \<Rightarrow> bool \<Rightarrow> Job \<Rightarrow> BackupFile \<Rightarrow> (unit, 'x) act" where
  "restore_file sv exec dry job bf =
     (if dry then put_lineA (''[dry-run] would restore '' @ quote (j_Name job) @ '' from '' @ bf_Path bf)
      else bindA (putA (newline # ''This will overwrite '' @ quote (j_Name job) @ '''s current data with '' @ bf_Name bf @ ''.'' @ [newline])) (\<lambda>_.
           bindA (RequireTypedConfirmation ''RESTORE'') (\<lambda>confirmed.
             if \<not> confirmed then put_lineA (''Confirmation did not match '' @ quote ''RESTORE'' @ '' - aborted.'')
             else restore_confirmed sv exec job bf)))"

definition restore_job :: "'x services \<Rightarrow> bool \<Rightarrow> Job \<Rightarrow> (unit, 'x) act" where
  "restore_job sv dry job =
     (case map_of restorers (j_BackupType job) of
        None \<Rightarrow> failA (errorf (''no restore executor registered for backup type '' @ quote (j_BackupType job)))
      | Some exec \<Rightarrow>
          bindA (ListRemoteBackups sv job) (\<lambda>files.
            if files = [] then put_lineA (''No backups found for job '' @ quote (j_Name job) @ '' at '' @ j_GoogleDrivePath job)
            else case those (map backup_label files) of
                   None \<Rightarrow> failA (panicf ''index out of range'')
                 | Some labels \<Rightarrow>
                     bindA (SelectOne (''Select a backup to restore for job '' @ quote (j_Name job) @ '' (newest first):'') labels) (\<lambda>idx.
                       restore_file sv exec dry job (files ! nat idx))))"

definition runRestore :: "'x platform \<Rightarrow> Global \<Rightarrow> string list \<Rightarrow> (unit, 'x) act" where
  "runRestore pl g args =
     bindA (Parse ''restore'' (restore_flags g) args) (\<lambda>(vs, _).
     in_workspace g (\<lambda>root.
     bindA (choose_job root (string_of vs ''job'')) (\<lambda>chosen. case chosen of
       None \<Rightarrow> put_lineA ''No jobs found. Run `dockvault generate` first.''
     | Some jobName \<Rightarrow>
         bindA (LoadJob (pl_store pl) root jobName) (\<lambda>job.
         bindA (LoadConfig root) (\<lambda>cfg.
         bindA (ping pl) (\<lambda>_.
         let remote = resolveRcloneRemote g cfg in
         bindA (CheckConfigured (pl_programs pl) (rc_New remote)) (\<lambda>_.
           restore_job (services_of pl remote) (bool_of vs ''dry-run'' \<or> g_DryRun g) job)))))))"

section \<open>Nothing is restored unasked\<close>

text \<open>The calls before the confirmation: two queries and a listing.\<close>

definition preparatory :: "call \<Rightarrow> bool" where
  "preparatory c = (case c of
       CCommand bin args _ \<Rightarrow> bin = ''docker'' \<and> hd args = ''info'' \<or> bin = ''rclone'' \<and> hd args = ''listremotes''
     | CListFiles _ \<Rightarrow> True | _ \<Rightarrow> False)"

text \<open>\<open>calm m\<close>: as long as no line of the input is the word, \<open>m\<close> makes no other call.\<close>

definition untyped :: "'x world \<Rightarrow> bool" where
  "untyped w = (\<forall>l \<in> set (w_in w). trim_space l \<noteq> ''RESTORE'')"

definition calm :: "('a, 'x) act \<Rightarrow> bool" where
  "calm m = (\<forall>w. untyped w \<longrightarrow> (\<exists>es. hist_ext w es (snd (m w)) \<and> list_all (\<lambda>e. preparatory (fst e)) es))"

lemma calm_emits: "emits preparatory m \<Longrightarrow> calm m"
  by (simp add: calm_def emits_def)

lemma untyped_later: "eats m \<Longrightarrow> m w = (r, w') \<Longrightarrow> untyped w \<Longrightarrow> untyped w'"
  using eats_set by (fastforce simp: untyped_def)

lemma calm_bind:
  fixes m :: "('a, 'x) act"
  assumes "eats m" and "emits preparatory m" and f: "\<And>v. calm (f v)"
  shows "calm (bindA m f)"
  unfolding calm_def
proof (intro allI impI)
  fix w :: "'x world" assume u: "untyped w"
  obtain r w1 where m: "m w = (r, w1)" by force
  obtain es where es: "hist_ext w es w1" "list_all (\<lambda>e. preparatory (fst e)) es" using emitsD [OF assms(2) m] by blast
  show "\<exists>es. hist_ext w es (snd (bindA m f w)) \<and> list_all (\<lambda>e. preparatory (fst e)) es"
  proof (cases r)
    case (Inl e)
    then show ?thesis using m es by (auto simp: bindA_def)
  next
    case (Inr v)
    obtain es' where es': "hist_ext w1 es' (snd (f v w1))" "list_all (\<lambda>e. preparatory (fst e)) es'"
      using f [of v] untyped_later [OF assms(1) m u] unfolding calm_def by blast
    have "hist_ext w (es @ es') (snd (f v w1))" by (rule hist_ext_trans [OF es(1) es'(1)])
    then show ?thesis using m Inr es es' by (auto simp: bindA_def)
  qed
qed

lemma calm_if: "(b \<Longrightarrow> calm m) \<Longrightarrow> (\<not> b \<Longrightarrow> calm n) \<Longrightarrow> calm (if b then m else n)"
  by simp

lemma calm_option: "calm m \<Longrightarrow> (\<And>v. calm (g v)) \<Longrightarrow> calm (case x of None \<Rightarrow> m | Some v \<Rightarrow> g v)"
  by (cases x) simp_all

lemma calm_prod: "(\<And>a b. calm (f a b)) \<Longrightarrow> calm (case x of (a, b) \<Rightarrow> f a b)"
  by (cases x) simp

lemma calm_cleanup:
  fixes m :: "('a, 'x) act"
  assumes "quiet f" and "calm m"
  shows "calm (cleanupA f m)"
  unfolding calm_def
proof (intro allI impI)
  fix w :: "'x world" assume "untyped w"
  then obtain es where es: "hist_ext w es (snd (m w))" "list_all (\<lambda>e. preparatory (fst e)) es" using assms(2) unfolding calm_def by blast
  obtain r w1 where m: "m w = (r, w1)" by force
  obtain u w2 where f: "f w1 = (u, w2)" by force
  have "hist_ext w es w2" using es(1) quietD [OF assms(1) f] hist_ext_trans [of w es w1 "[]"] m by simp
  moreover have "snd (cleanupA f m w) = w2" using m f by (auto simp: cleanupA_def deferA_def split: sum.split)
  ultimately show "\<exists>es. hist_ext w es (snd (cleanupA f m w)) \<and> list_all (\<lambda>e. preparatory (fst e)) es" using es(2) by auto
qed

text \<open>Without the word, only the refusal is reached.\<close>

lemma typed_False:
  assumes "RequireTypedConfirmation ''RESTORE'' w = (Inr ok, w')" and "untyped w"
  shows "\<not> ok"
  using assms by (auto simp: RequireTypedConfirmation_def bindA_def putA_def read_line_def returnA_def untyped_def split: list.splits)

lemma calm_typed:
  fixes n :: "('a, 'x) act"
  assumes "quiet n"
  shows "calm (bindA (RequireTypedConfirmation ''RESTORE'') (\<lambda>ok. if \<not> ok then n else danger))"
  unfolding calm_def
proof (intro allI impI)
  fix w :: "'x world" assume u: "untyped w"
  let ?m = "RequireTypedConfirmation ''RESTORE''"
  obtain r w1 where m: "?m w = (r, w1)" by force
  have q: "hist_ext w [] w1" using quietD [OF quiet_questions(3) m] by blast
  obtain r2 w2 where n: "n w1 = (r2, w2)" by force
  have "hist_ext w [] w2" using q quietD [OF assms n] hist_ext_trans [OF q] by fastforce
  then show "\<exists>es. hist_ext w es (snd (bindA ?m (\<lambda>ok. if \<not> ok then n else danger) w)) \<and> list_all (\<lambda>e. preparatory (fst e)) es"
    using m n q typed_False [OF _ u] by (cases r) (auto simp: bindA_def intro!: exI [of _ "[]"])
qed

lemma calm_calls: "emits preparatory (ping pl)" "emits preparatory (CheckConfigured X (rc_New r))"
  "emits preparatory (ListRemoteBackups sv job)"
proof -
  show "emits preparatory (ping pl)"
    unfolding ping_def Ping_def d_run_def runWithStdin_def
    by (intro growing emits_command) (simp add: preparatory_def docker_bin_def d_bin_def)
  show "emits preparatory (CheckConfigured X (rc_New r))"
    unfolding CheckConfigured_def rc_run_def
    by (intro growing emits_command) (simp add: preparatory_def rc_New_def rc_bin_def)
  show "emits preparatory (ListRemoteBackups sv job)"
    unfolding ListRemoteBackups_def by (intro growing) (simp add: preparatory_def)
qed

lemma eats_calls [eating]: "eats (ping pl)" "eats (CheckConfigured X c)" "eats (ListRemoteBackups (services_of pl r) job)"
proof -
  show "eats (ping pl)" unfolding ping_def Ping_def d_run_def runWithStdin_def by (intro eating)
  show "eats (CheckConfigured X c)" unfolding CheckConfigured_def rc_run_def by (intro eating)
  have "eats (ListFiles (services_of pl r) p)" for p
    unfolding ListFiles_def services_of_def rclone_client_def rc_ListFiles_def rc_run_def services.simps RcloneClient.simps
    by (intro eating)
  then show "eats (ListRemoteBackups (services_of pl r) job)" unfolding ListRemoteBackups_def by (intro eating)
qed

lemma eats_choose [eating]: "eats (choose_job root j)" and quiet_choose [quiets]: "quiet (choose_job root j)"
  unfolding choose_job_def by (intro eating, intro quiets)

lemma eats_parse [eating]: "eats (Parse nm fs args)"
  unfolding Parse_def parse_with_def by (intro eating)

lemma calm_restore_file: "calm (restore_file sv exec dry job bf)"
  unfolding restore_file_def
  by (intro calm_if calm_typed calm_bind calm_emits [OF grows_quiet] eating grows_quiet quiets)

lemma calm_restore_job: "calm (restore_job (services_of pl r) dry job)"
  unfolding restore_job_def
  by (intro calm_option calm_if calm_restore_file calm_bind calm_calls eating calm_emits [OF grows_quiet] grows_quiet quiets)

lemma runRestore_calm: "pl_store pl = unix_store \<Longrightarrow> calm (runRestore pl g args)"
proof -
  assume s: "pl_store pl = unix_store"
  show ?thesis
    unfolding runRestore_def in_workspace_def with_lock_def Let_def s
    by (intro calm_bind calm_prod calm_if calm_option calm_cleanup calm_restore_job calm_calls eating
        calm_emits [OF grows_quiet] grows_quiet quiets)
qed

text \<open>C5: No restore without the word: if no line typed is \<open>RESTORE\<close>, \<open>dockvault restore\<close> asks docker and rclone for
  their state and lists the backups, and makes no other call: nothing is downloaded, run, stopped, started
  or copied into a container, whatever its flags, its jobs and the answers of the programs are.\<close>

theorem restore_needs_the_word:
  assumes "\<forall>l \<in> set (w_in w). trim_space l \<noteq> ''RESTORE''" and "pl_store pl = unix_store"
  shows "\<exists>es. w_hist (snd (runRestore pl g args w)) = w_hist w @ es \<and> list_all (\<lambda>e. preparatory (fst e)) es"
  using runRestore_calm [OF assms(2), of g args] assms(1) unfolding calm_def untyped_def hist_ext_def by blast

theorem restore_needs_the_word_witness:
  "\<exists>es. w_hist (snd (runRestore sample_platform defaultGlobal [''--job'', ''etc''] (sample_world\<lparr>w_in := [''1'', ''no'']\<rparr>))) = [] @ es
    \<and> list_all (\<lambda>e. preparatory (fst e)) es"
proof -
  have "\<forall>l \<in> set (w_in (sample_world\<lparr>w_in := [''1'', ''no'']\<rparr>)). trim_space l \<noteq> ''RESTORE''" by code_simp
  moreover have "pl_store sample_platform = unix_store" "w_hist (sample_world\<lparr>w_in := x\<rparr>) = []" for x
    by (simp_all add: sample_platform_def sample_world_def)
  ultimately show ?thesis using restore_needs_the_word by metis
qed

end
