(* ===== verification/Cli_View.thy ===== *)
theory Cli_View
  imports Cli_Base Input
begin

text \<open>
  The commands that only show something: \<open>scan\<close>, \<open>list\<close> and \<open>tree\<close> (internal/cli/scan.go, list.go, tree.go).
\<close>

section \<open>scan\<close>

definition joinComma :: "string list \<Rightarrow> string" where
  "joinComma items = fold (\<lambda>(i, s) out. (if i > 0 then out @ '', '' else out) @ s) (enumerate (0 :: nat) items) []"

definition looksSecret :: "string \<Rightarrow> bool" where
  "looksSecret key = list_ex (contains (to_upper key)) [''PASSWORD'', ''TOKEN'', ''SECRET'', ''API_KEY'']"

definition masked :: "smap \<Rightarrow> string \<Rightarrow> string" where
  "masked creds k = (if looksSecret k then k @ ''=***'' else k @ ''='' @ mget creds k)"

definition maskedCredKeys :: "smap \<Rightarrow> (string, 'x) act" where
  "maskedCredKeys creds = bindA (range_keysA creds) (\<lambda>ks. returnA (join '', '' (map (masked creds) ks)))"

definition credentials_text :: "smap \<Rightarrow> (unit, 'x) act" where
  "credentials_text creds =
     (if creds \<noteq> [] then bindA (maskedCredKeys creds) (\<lambda>s. put_lineA (''     Credentials found: '' @ s)) else returnA ())"

definition volume_text :: "nat \<Rightarrow> VolumeInfo \<Rightarrow> (unit, 'x) act" where
  "volume_text i v =
     bindA (put_lineA ('' ['' @ show_int (int i) @ ''] '' @ vi_JobName v)) (\<lambda>_.
     bindA (put_lineA (''     Volume: '' @ vi_Name v)) (\<lambda>_.
     bindA (put_lineA (''     Type: '' @ vi_ServiceType v)) (\<lambda>_.
     bindA (if vi_Containers v \<noteq> [] then put_lineA (''     Container(s): '' @ joinComma (vi_Containers v)) else returnA ()) (\<lambda>_.
     bindA (credentials_text (vi_Credentials v)) (\<lambda>_.
     bindA (put_lineA (''     Recommended backup: '' @ vi_RecommendedBackupType v)) (\<lambda>_.
     bindA (put_lineA (''     Proposed job name: '' @ vi_JobName v)) (\<lambda>_.
     bindA (put_lineA (''     Google Drive path: '' @ vi_GoogleDrivePath v)) (\<lambda>_.
       put_lineA []))))))))"

definition host_path_text :: "nat \<Rightarrow> HostPathInfo \<Rightarrow> (unit, 'x) act" where
  "host_path_text i h =
     bindA (put_lineA ('' ['' @ show_int (int i) @ ''] '' @ hp_Path h @ '' ('' @ hp_Kind h @ '')'')) (\<lambda>_.
     bindA (if hp_Source h \<noteq> [] then put_lineA (''     From container: '' @ hp_Source h) else returnA ()) (\<lambda>_.
     bindA (if hp_JobName h \<noteq> []
            then bindA (put_lineA (''     Proposed job name: '' @ hp_JobName h)) (\<lambda>_. put_lineA (''     Google Drive path: '' @ hp_GoogleDrivePath h))
            else returnA ()) (\<lambda>_.
       put_lineA [])))"

definition printScanText :: "VolumeInfo list \<Rightarrow> HostPathInfo list \<Rightarrow> (unit, 'x) act" where
  "printScanText vols hostPaths =
     bindA (putA (''Found '' @ show_int (int (length vols)) @ '' volume(s):'' @ [newline, newline])) (\<lambda>_.
     bindA (forA (enumerate 1 vols) (\<lambda>(i, v) _. volume_text i v) ()) (\<lambda>_.
       if hostPaths = [] then returnA ()
       else bindA (putA (''Found '' @ show_int (int (length hostPaths)) @ '' notable host path(s):'' @ [newline, newline])) (\<lambda>_.
            forA (enumerate 1 hostPaths) (\<lambda>(i, h) _. host_path_text i h) ())))"

text \<open>Nil slices are printed as \<open>null\<close>.\<close>

definition slice_json :: "('a \<Rightarrow> json) \<Rightarrow> 'a list \<Rightarrow> json" where
  "slice_json f xs = (if xs = [] then JNull else JArr (map f xs))"

definition volume_json :: "VolumeInfo \<Rightarrow> json" where
  "volume_json v = JObj [(''Name'', JStr (vi_Name v)), (''Containers'', slice_json JStr (vi_Containers v)),
     (''ServiceType'', JStr (vi_ServiceType v)), (''Credentials'', smap_json (vi_Credentials v)),
     (''RecommendedBackupType'', JStr (vi_RecommendedBackupType v)), (''JobName'', JStr (vi_JobName v)),
     (''GoogleDrivePath'', JStr (vi_GoogleDrivePath v)), (''VolumeIdentifier'', JStr (vi_VolumeIdentifier v))]"

definition host_path_json :: "HostPathInfo \<Rightarrow> json" where
  "host_path_json h = JObj [(''Path'', JStr (hp_Path h)), (''Kind'', JStr (hp_Kind h)), (''Source'', JStr (hp_Source h)),
     (''RecommendedBackupType'', JStr (hp_RecommendedBackupType h)), (''JobName'', JStr (hp_JobName h)),
     (''GoogleDrivePath'', JStr (hp_GoogleDrivePath h)), (''VolumeIdentifier'', JStr (hp_VolumeIdentifier h))]"

definition printScanJSON :: "VolumeInfo list \<Rightarrow> HostPathInfo list \<Rightarrow> (unit, 'x) act" where
  "printScanJSON vols hostPaths =
     put_lineA (MarshalIndent (JObj [(''volumes'', slice_json volume_json vols), (''host_paths'', slice_json host_path_json hostPaths)]))"

definition output_flag :: flag_def where
  "output_flag = string_flag ''output'' ''text'' ''output format: json|text''"

definition bad_output :: "string \<Rightarrow> error" where
  "bad_output s = errorf (''--output must be '' @ quote ''json'' @ '' or '' @ quote ''text'' @ '', got '' @ quote s)"

definition auto_note :: string where
  "auto_note = ''note: scan currently always performs full detection; --auto is accepted for spec compatibility and future interactive-vs-auto branching''"

definition runScan :: "'x platform \<Rightarrow> Global \<Rightarrow> string list \<Rightarrow> (unit, 'x) act" where
  "runScan pl g args =
     bindA (Parse ''scan'' [bool_flag ''auto'' False ''full auto-detection without prompts'', output_flag] args) (\<lambda>(vs, _).
     let out = string_of vs ''output'' in
       if out \<noteq> ''json'' \<and> out \<noteq> ''text'' then failA (bad_output out)
       else bindA (ping pl) (\<lambda>_.
            bindA (New_detector (pl_programs pl) docker_bin (g_Environment g)) (\<lambda>det.
            bindA (ScanVolumes det) (\<lambda>vols.
            bindA (if \<not> bool_of vs ''auto'' \<and> g_Verbose g then put_errA (auto_note @ [newline]) else returnA ()) (\<lambda>_.
              if out = ''json'' then printScanJSON vols [] else printScanText vols [])))))"

section \<open>list\<close>

definition findManifestEntry :: "Manifest \<Rightarrow> string \<Rightarrow> ManifestEntry option" where
  "findManifestEntry m jobName = find (\<lambda>e. me_JobName e = jobName) m"

definition list_flags :: "flag_def list" where
  "list_flags = [bool_flag ''tree'' True ''ASCII tree view (default)'', bool_flag ''detailed'' False ''include file sizes, modification times'',
     short_flag ''d'' ''detailed'' ''shorthand for --detailed'']"

definition last_backup_text :: "Manifest \<Rightarrow> string \<Rightarrow> string" where
  "last_backup_text m nm =
     (case findManifestEntry m nm of
        None \<Rightarrow> ''never''
      | Some e \<Rightarrow> (case me_LastBackup e of None \<Rightarrow> ''never'' | Some t \<Rightarrow> format_stamp t @ '' ('' @ me_LastBackupStatus e @ '')''))"

definition list_entry :: "'x EnvStore \<Rightarrow> string \<Rightarrow> Manifest option \<Rightarrow> bool \<Rightarrow> string \<Rightarrow> (unit, 'x) act" where
  "list_entry es root manifest final nm =
     (let branch = (if final then branch_last else branch_mid); detailPrefix = (if final then ''    '' else bar_prefix)
      in tryA (LoadJob es root nm) (\<lambda>r. case r of
           Inl e \<Rightarrow> put_lineA (branch @ nm @ ''  (error loading: '' @ err_msg e @ '')'')
         | Inr job \<Rightarrow>
             bindA (put_lineA (branch @ nm @ ''  ('' @ j_BackupType job @ '' -> '' @ j_GoogleDrivePath job @ '')'')) (\<lambda>_.
               case manifest of None \<Rightarrow> returnA ()
               | Some m \<Rightarrow> put_lineA (detailPrefix @ ''  last backup: '' @ last_backup_text m nm))))"

definition runList :: "'x platform \<Rightarrow> Global \<Rightarrow> string list \<Rightarrow> (unit, 'x) act" where
  "runList pl g args =
     bindA (Parse ''list'' list_flags args) (\<lambda>(vs, _).
     bindA (Open (g_Home g)) (\<lambda>root.
     bindA (Exists root) (\<lambda>ex.
       if \<not> ex then put_lineA (''No workspace found at '' @ root)
       else bindA (ListJobNames root) (\<lambda>names.
            bindA (put_lineA root) (\<lambda>_.
              if names = [] then put_lineA ''  (no jobs - run `dockvault generate` first)''
              else bindA (if bool_of vs ''detailed'' then bindA (LoadManifest root) (\<lambda>m. returnA (Some m)) else returnA None) (\<lambda>manifest.
                forA (enumerate 0 names) (\<lambda>(i, nm) _. list_entry (pl_store pl) root manifest (Suc i = length names) nm) ()))))))"

section \<open>tree\<close>

datatype treeNode = treeNode (tn_isDir: bool) (tn_size: int) (tn_modTime: string) (tn_children: "(string \<times> treeNode) list")

definition empty_node :: treeNode where
  "empty_node = treeNode False 0 [] []"

definition path_parts :: "string \<Rightarrow> string list" where
  "path_parts p = filter (\<lambda>s. s \<noteq> []) (split_on slash (trim_both (\<lambda>c. c = slash) p))"

definition child_of :: "(string \<times> treeNode) list \<Rightarrow> string \<Rightarrow> treeNode" where
  "child_of cs p = (case map_of cs p of Some c \<Rightarrow> c | None \<Rightarrow> empty_node)"

text \<open>One entry's walk down its path: \<open>put_path e ps n\<close> for the children of \<open>n\<close>.\<close>

fun put_path :: "TreeEntry \<Rightarrow> string list \<Rightarrow> treeNode \<Rightarrow> treeNode" where
  "put_path e [] n = n"
| "put_path e [p] (treeNode d s t cs) =
     treeNode d s t (mput p (treeNode (te_IsDir e) (te_Size e) (te_ModTime e) (tn_children (child_of cs p))) cs)"
| "put_path e (p # q # ps) (treeNode d s t cs) =
     (let c = child_of cs p
      in treeNode d s t (mput p (put_path e (q # ps) (treeNode True (tn_size c) (tn_modTime c) (tn_children c))) cs))"

definition buildTree :: "TreeEntry list \<Rightarrow> treeNode" where
  "buildTree entries = fold (\<lambda>e. put_path e (path_parts (te_Path e))) entries (treeNode True 0 [] [])"

definition tree_line :: "bool \<Rightarrow> string \<Rightarrow> treeNode \<Rightarrow> string option" where
  "tree_line detailed nm child =
     (if detailed \<and> \<not> tn_isDir child
      then map_option (\<lambda>sz. nm @ ''  ('' @ sz @ '', '' @ tn_modTime child @ '')'') (FormatBytes (tn_size child)) else Some nm)"

lemma size_insort: "size_list f (insort_key k x xs) = Suc (f x + size_list f xs)"
  by (induction xs) auto

lemma size_sort [termination_simp]: "size_list f (sort_key k xs) = size_list f xs"
  by (induction xs) (simp_all add: size_insort)

function printTree :: "treeNode \<Rightarrow> string \<Rightarrow> bool \<Rightarrow> (unit, 'x) act"
  and printChildren :: "(string \<times> treeNode) list \<Rightarrow> string \<Rightarrow> bool \<Rightarrow> (unit, 'x) act" where
  "printTree (treeNode d s t cs) pre detailed = printChildren (sort_key fst cs) pre detailed"
| "printChildren [] pre detailed = returnA ()"
| "printChildren ((nm, child) # rest) pre detailed =
     (let branch = (if rest = [] then branch_last else branch_mid);
          nextPrefix = pre @ (if rest = [] then ''    '' else bar_prefix)
      in case tree_line detailed nm child of
           None \<Rightarrow> failA (panicf ''index out of range'')
         | Some line \<Rightarrow>
             bindA (put_lineA (pre @ branch @ line)) (\<lambda>_.
             bindA (if tn_children child \<noteq> [] then printTree child nextPrefix detailed else returnA ()) (\<lambda>_.
               printChildren rest pre detailed)))"
  by pat_completeness auto
termination
  by (relation "measure (case_sum (\<lambda>(n, _, _). 2 * size n) (\<lambda>(cs, _, _). 2 * size_list (size_prod (\<lambda>_. 0) size) cs + 1))")
    (auto simp: size_sort)

definition tree_entry_json :: "TreeEntry \<Rightarrow> json" where
  "tree_entry_json e = JObj [(''Path'', JStr (te_Path e)), (''Name'', JStr (te_Name e)), (''Size'', json_int (te_Size e)),
     (''ModTime'', JStr (te_ModTime e)), (''IsDir'', JBool (te_IsDir e))]"

definition tree_flags :: "flag_def list" where
  "tree_flags = [bool_flag ''detailed'' False ''show file sizes, dates, latest backup per leaf'',
     short_flag ''d'' ''detailed'' ''shorthand for --detailed'', output_flag]"

definition runTree :: "'x platform \<Rightarrow> Global \<Rightarrow> string list \<Rightarrow> (unit, 'x) act" where
  "runTree pl g args =
     bindA (Parse ''tree'' tree_flags args) (\<lambda>(vs, rest).
     let out = string_of vs ''output''; top = (case rest of [] \<Rightarrow> [slash] | r # _ \<Rightarrow> r) in
       if out \<noteq> ''json'' \<and> out \<noteq> ''text'' then failA (bad_output out)
       else bindA (Open (g_Home g)) (\<lambda>root.
            bindA (LoadConfig root) (\<lambda>cfg.
            let rc = rc_New (resolveRcloneRemote g cfg) in
            bindA (CheckConfigured (pl_programs pl) rc) (\<lambda>_.
            bindA (rc_ListTree (pl_programs pl) rc top) (\<lambda>entries.
              if out = ''json'' then put_lineA (MarshalIndent (JArr (map tree_entry_json entries)))
              else if entries = [] then put_lineA (top @ '' (empty)'')
              else bindA (put_lineA top) (\<lambda>_. printTree (buildTree entries) [] (bool_of vs ''detailed'')))))))"

section \<open>What is shown\<close>

lemma credentials_text_masked:
  assumes "map fst creds = map fst creds'" and "\<forall>k. \<not> looksSecret k \<longrightarrow> mget creds k = mget creds' k"
  shows "credentials_text creds = (credentials_text creds' :: (unit, 'x) act)"
proof -
  have "masked creds k = masked creds' k" for k using assms(2) by (simp add: masked_def)
  then have "masked creds = masked creds'" by (rule ext)
  then have "maskedCredKeys creds w = maskedCredKeys creds' w" for w :: "'x world"
    using assms(1) by (simp add: maskedCredKeys_def range_keysA_def bindA_def)
  then have "maskedCredKeys creds = (maskedCredKeys creds' :: (string, 'x) act)" by (rule ext)
  moreover have "creds = [] \<longleftrightarrow> creds' = []" using assms(1) by (metis map_is_Nil_conv)
  ultimately show ?thesis by (simp add: credentials_text_def)
qed

lemma forA_same: "f x = f y \<Longrightarrow> forA (xs @ x # ys) f = forA (xs @ y # ys) f"
  by (induction xs) (auto intro!: ext)

text \<open>C21: The text of \<open>scan\<close> does not depend on the value of any credential whose name contains one of the secret
  markers: two volumes that differ in such values only are shown alike.\<close>

theorem scan_text_hides_secrets:
  fixes w :: "'x world"
  assumes "map fst creds = map fst creds'" and "\<forall>k. \<not> looksSecret k \<longrightarrow> mget creds k = mget creds' k"
  shows "printScanText (vs @ v\<lparr>vi_Credentials := creds\<rparr> # ws) hps w = printScanText (vs @ v\<lparr>vi_Credentials := creds'\<rparr> # ws) hps w"
proof -
  have c: "credentials_text creds = (credentials_text creds' :: (unit, 'x) act)"
    by (rule credentials_text_masked [OF assms])
  have v: "volume_text i (v\<lparr>vi_Credentials := creds\<rparr>) = (volume_text i (v\<lparr>vi_Credentials := creds'\<rparr>) :: (unit, 'x) act)" for i
    by (simp add: volume_text_def c)
  have "forA (xs @ (i, v\<lparr>vi_Credentials := creds\<rparr>) # ys) (\<lambda>(i, v) (_ :: unit). volume_text i v :: (unit, 'x) act)
      = forA (xs @ (i, v\<lparr>vi_Credentials := creds'\<rparr>) # ys) (\<lambda>(i, v) _. volume_text i v)" for xs i ys
    by (rule forA_same) (simp add: v)
  then show ?thesis by (simp add: printScanText_def enumerate_append_eq)
qed

definition sample_found :: "string \<Rightarrow> VolumeInfo" where
  "sample_found pw = \<lparr>vi_Name = ''v'', vi_Containers = [''c''], vi_ServiceType = ''redis'', vi_Credentials = [(''REDIS_PASSWORD'', pw)],
     vi_RecommendedBackupType = ''tar'', vi_JobName = ''redis_v'', vi_GoogleDrivePath = ''p'', vi_VolumeIdentifier = ''v''\<rparr>"

theorem scan_text_hides_secrets_witness:
  "printScanText [sample_found ''a''] [] sample_world = printScanText [sample_found ''b''] [] sample_world"
proof -
  have l: "looksSecret ''REDIS_PASSWORD''" by code_simp
  have "\<forall>k. \<not> looksSecret k \<longrightarrow> mget [(''REDIS_PASSWORD'', ''a'')] k = mget [(''REDIS_PASSWORD'', ''b'')] k"
    using l by (auto simp: mget_def)
  from scan_text_hides_secrets [OF _ this, of "[]" "sample_found ''a''" "[]"] show ?thesis by (simp add: sample_found_def)
qed

text \<open>A tree as a function from paths to what its nodes hold.\<close>

fun node_at :: "treeNode \<Rightarrow> string list \<Rightarrow> treeNode option" where
  "node_at n [] = Some n"
| "node_at (treeNode d s t cs) (p # ps) = (case map_of cs p of None \<Rightarrow> None | Some c \<Rightarrow> node_at c ps)"

definition attrs :: "treeNode \<Rightarrow> bool \<times> int \<times> string" where
  "attrs n = (tn_isDir n, tn_size n, tn_modTime n)"

definition tree_map :: "treeNode \<Rightarrow> string list \<Rightarrow> (bool \<times> int \<times> string) option" where
  "tree_map n q = map_option attrs (node_at n q)"

text \<open>What one entry does to it: its own path gets its data, the directories above it exist.\<close>

definition enter :: "TreeEntry \<Rightarrow> string list \<Rightarrow> (string list \<Rightarrow> (bool \<times> int \<times> string) option) \<Rightarrow> string list \<Rightarrow> (bool \<times> int \<times> string) option" where
  "enter e ps m q =
     (if q = [] then m q
      else if q = ps then Some (te_IsDir e, te_Size e, te_ModTime e)
      else if strict_prefix q ps then (case m q of Some (_, s, t) \<Rightarrow> Some (True, s, t) | None \<Rightarrow> Some (True, 0, []))
      else m q)"

lemma node_at_empty: "q \<noteq> [] \<Longrightarrow> node_at (treeNode d s t []) q = None"
  by (cases q) simp_all

lemma node_at_children: "q \<noteq> [] \<Longrightarrow> node_at (treeNode d s t (tn_children c)) q = node_at c q"
  by (cases c; cases q) simp_all

lemma node_at_step: "node_at c (a # q) = (case map_of (tn_children c) a of None \<Rightarrow> None | Some n \<Rightarrow> node_at n q)"
  by (cases c) simp

lemma enter_below: "m rs = m' (p # rs) \<Longrightarrow> rs \<noteq> [] \<Longrightarrow> enter e ps m rs = enter e (p # ps) m' (p # rs)"
  by (simp add: enter_def)

lemma tree_map_put: "tree_map (put_path e ps n) q = enter e ps (tree_map n) q"
proof (induction e ps n arbitrary: q rule: put_path.induct)
  case (1 e n)
  then show ?case by (simp add: enter_def)
next
  case (2 e p d s t cs)
  show ?case
  proof (cases q)
    case (Cons r rs)
    then show ?thesis
      by (cases rs; cases "map_of cs p")
        (auto simp: tree_map_def enter_def attrs_def child_of_def empty_node_def node_at_empty node_at_step
          split: option.split)
  qed (simp add: tree_map_def enter_def attrs_def)
next
  case (3 e p p' ps d s t cs)
  let ?c = "child_of cs p"
  let ?c' = "treeNode True (tn_size ?c) (tn_modTime ?c) (tn_children ?c)"
  note IH = 3 [OF refl]
  show ?case
  proof (cases q)
    case (Cons r rs)
    show ?thesis
    proof (cases "r = p")
      case True
      have l: "tree_map (put_path e (p # p' # ps) (treeNode d s t cs)) q = enter e (p' # ps) (tree_map ?c') rs"
        unfolding IH [of rs, symmetric] using Cons True by (simp add: tree_map_def Let_def)
      show ?thesis
      proof (cases rs)
        case Nil
        then show ?thesis using l Cons True
          by (cases "map_of cs p") (auto simp: enter_def tree_map_def attrs_def child_of_def empty_node_def)
      next
        case (Cons r' rs')
        have "tree_map ?c' rs = tree_map (treeNode d s t cs) (p # rs)"
          using Cons by (cases "map_of cs p") (simp_all add: tree_map_def child_of_def empty_node_def node_at_step)
        then have "enter e (p' # ps) (tree_map ?c') rs = enter e (p # p' # ps) (tree_map (treeNode d s t cs)) (p # rs)"
          using Cons by (intro enter_below) simp_all
        then show ?thesis using l \<open>q = r # rs\<close> True by simp
      qed
    next
      case False
      then show ?thesis using Cons by (simp add: tree_map_def enter_def Let_def)
    qed
  qed (simp add: tree_map_def enter_def attrs_def Let_def)
qed

lemma tree_map_fold:
  "tree_map (fold (\<lambda>e. put_path e (path_parts (te_Path e))) es n) = fold (\<lambda>e. enter e (path_parts (te_Path e))) es (tree_map n)"
proof (induction es arbitrary: n)
  case (Cons e es)
  have "tree_map (put_path e (path_parts (te_Path e)) n) = enter e (path_parts (te_Path e)) (tree_map n)"
    by (rule ext) (rule tree_map_put)
  with Cons show ?case by simp
qed simp

definition root_only :: "string list \<Rightarrow> (bool \<times> int \<times> string) option" where
  "root_only q = (if q = [] then Some (True, 0, []) else None)"

lemma tree_map_root: "tree_map (treeNode True 0 [] []) = root_only"
  by (rule ext) (simp add: tree_map_def root_only_def node_at_empty attrs_def)

lemma enter_exists: "enter e ps m q \<noteq> None \<longleftrightarrow> m q \<noteq> None \<or> q \<noteq> [] \<and> prefix q ps"
  by (auto simp: enter_def strict_prefix_def split: option.split)

lemma fold_enter_exists:
  "fold (\<lambda>e. enter e (path_parts (te_Path e))) es m q \<noteq> None
    \<longleftrightarrow> m q \<noteq> None \<or> q \<noteq> [] \<and> (\<exists>e \<in> set es. prefix q (path_parts (te_Path e)))"
proof (induction es arbitrary: m)
  case (Cons e es)
  show ?case unfolding fold.simps o_apply Cons.IH enter_exists list.set bex_simps(5) by blast
qed simp

text \<open>C24: The tree built from a listing is the map of its paths: entering the listing's entries one after the other into a map
  gives what the tree's nodes hold, and a node exists just if some entry's path goes through it.\<close>

theorem buildTree_refines:
  "tree_map (buildTree es) q = fold (\<lambda>e. enter e (path_parts (te_Path e))) es root_only q
    \<and> (node_at (buildTree es) q \<noteq> None \<longleftrightarrow> q = [] \<or> (\<exists>e \<in> set es. prefix q (path_parts (te_Path e))))"
proof -
  have t: "tree_map (buildTree es) = fold (\<lambda>e. enter e (path_parts (te_Path e))) es root_only"
    unfolding buildTree_def tree_map_fold tree_map_root ..
  have "node_at (buildTree es) q \<noteq> None \<longleftrightarrow> tree_map (buildTree es) q \<noteq> None" by (simp add: tree_map_def)
  then show ?thesis unfolding t fold_enter_exists by (auto simp: root_only_def)
qed

end
