(* ===== verification/Setup.thy ===== *)
theory Setup
  imports Input Rclone_Client
begin

text \<open>
  internal/setup: the check of a Google service account key (gcp.go) and the guided setup of an rclone
  remote and of config.json (wizard.go).
\<close>

section \<open>The service account\<close>

record serviceAccountKey =
  sa_Type :: string
  sa_ProjectID :: string
  sa_PrivateKey :: string
  sa_ClientEmail :: string

definition key_fields :: "string list" where
  "key_fields = [''type'', ''project_id'', ''private_key'', ''client_email'']"

definition set_key :: "string \<Rightarrow> json \<Rightarrow> serviceAccountKey \<Rightarrow> serviceAccountKey option" where
  "set_key k v a =
     (if k = ''type'' then set_string v (\<lambda>s. a\<lparr>sa_Type := s\<rparr>) a
      else if k = ''project_id'' then set_string v (\<lambda>s. a\<lparr>sa_ProjectID := s\<rparr>) a
      else if k = ''private_key'' then set_string v (\<lambda>s. a\<lparr>sa_PrivateKey := s\<rparr>) a
      else set_string v (\<lambda>s. a\<lparr>sa_ClientEmail := s\<rparr>) a)"

definition unmarshal_key :: "string \<Rightarrow> serviceAccountKey option" where
  "unmarshal_key s = Option.bind (json_parse s) (\<lambda>v. unmarshal_struct key_fields set_key v
     \<lparr>sa_Type = [], sa_ProjectID = [], sa_PrivateKey = [], sa_ClientEmail = []\<rparr>)"

definition check_key :: "string \<Rightarrow> serviceAccountKey \<Rightarrow> (string \<times> string) res" where
  "check_key path key =
     (if sa_Type key \<noteq> ''service_account''
      then Inl (errorf (path @ '' has '' @ quote ''type'' @ '': '' @ quote (sa_Type key) @ '', want '' @ quote ''service_account''
             @ '' - is this the right file? (GCP also issues OAuth client JSON, which looks similar but won't work here)''))
      else if sa_ProjectID key = [] \<or> sa_PrivateKey key = [] \<or> sa_ClientEmail key = []
      then Inl (errorf (path @ '' is missing one of project_id/private_key/client_email - it may be truncated or corrupted''))
      else Inr (sa_ProjectID key, sa_ClientEmail key))"

definition ValidateServiceAccountJSON :: "string \<Rightarrow> (string \<times> string, 'x) act" where
  "ValidateServiceAccountJSON path =
     bindA (wrapA (wrapf (''reading '' @ path)) (ReadFile path)) (\<lambda>data.
       case unmarshal_key data of
         None \<Rightarrow> failA (wrapf (path @ '' doesn't look like valid JSON'') unmarshal_error)
       | Some key \<Rightarrow> (case check_key path key of Inl e \<Rightarrow> failA e | Inr found \<Rightarrow> returnA found))"

definition tightenACLsBestEffort :: "'x programs \<Rightarrow> string \<Rightarrow> (unit, 'x) act" where
  "tightenACLsBestEffort X path =
     bindA (get_env goos) (\<lambda>os. if os \<noteq> ''windows'' then returnA ()
       else bindA (get_env (\<lambda>e. getenv e ''USERNAME'')) (\<lambda>u. if u = [] then returnA ()
         else ignoreA (command X ''icacls'' ''icacls'' [path, ''/inheritance:r'', ''/grant:r'', u @ '':F'']
                         [path, ''/inheritance:r'', ''/grant:r'', u @ '':F''] None)))"

definition account_file :: "string \<Rightarrow> string" where
  "account_file root = path_join [path_join [root, ''secrets''], ''gcp-service-account.json'']"

definition copyServiceAccountFile :: "'x programs \<Rightarrow> string \<Rightarrow> string \<Rightarrow> (string, 'x) act" where
  "copyServiceAccountFile X root srcPath =
     (let secretsDir = path_join [root, ''secrets'']; dest = account_file root
      in bindA (wrapA (wrapf ''creating secrets directory'') (MkdirAll secretsDir 448)) (\<lambda>_.
         bindA (ignoreA (Chmod secretsDir 448)) (\<lambda>_.
         bindA (wrapA (wrapf (''reading '' @ srcPath)) (ReadFile srcPath)) (\<lambda>data.
         bindA (wrapA (wrapf (''writing '' @ dest)) (WriteFile dest data 384)) (\<lambda>_.
         bindA (tightenACLsBestEffort X dest) (\<lambda>_. returnA dest))))))"

text \<open>One round of the loop: None stands for \<open>continue\<close>. A round reads at least one line, so the loop ends with the input.\<close>

definition account_answer :: "'x programs \<Rightarrow> string \<Rightarrow> string \<Rightarrow> (string option, 'x) act" where
  "account_answer X root path =
     (if trim_space path = [] then bindA (put_lineA ''a path is required'') (\<lambda>_. returnA None)
      else tryA (ValidateServiceAccountJSON path) (\<lambda>r. case r of
         Inl verr \<Rightarrow> bindA (put_lineA (err_msg verr)) (\<lambda>_. returnA None)
       | Inr (projectID, clientEmail) \<Rightarrow>
           bindA (put_lineA (''  project:          '' @ projectID)) (\<lambda>_.
           bindA (put_lineA (''  service account:  '' @ clientEmail)) (\<lambda>_.
           bindA (Confirm ''Use this service account?'' True) (\<lambda>ok.
             if \<not> ok then returnA None
             else bindA (copyServiceAccountFile X root path) (\<lambda>dest.
                  bindA (putA (''Saved to '' @ dest @ '' (0600)'' @ [newline, newline])) (\<lambda>_. returnA (Some dest))))))))"

definition account_round :: "'x programs \<Rightarrow> string \<Rightarrow> (string option, 'x) act" where
  "account_round X root = bindA (setup_promptString ''Path to your GCP service account JSON key'' []) (account_answer X root)"

lemma eats_account [eating]: "eats (copyServiceAccountFile X root path)" "eats (ValidateServiceAccountJSON path)"
  unfolding copyServiceAccountFile_def ValidateServiceAccountJSON_def tightenACLsBestEffort_def Let_def by (intro eating)+

lemma eats_answer: "eats (account_answer X root path)"
  unfolding account_answer_def by (intro eating)

lemma setup_promptString_consumes: "setup_promptString l s w = (Inr v, w') \<Longrightarrow> length (w_in w') < length (w_in w)"
  by (auto simp: setup_promptString_def bindA_def putA_def read_line_def returnA_def Let_def split: list.splits)

lemma account_round_consumes: "account_round X root w = (Inr v, w') \<Longrightarrow> length (w_in w') < length (w_in w)"
  unfolding account_round_def
  by (erule bind_Inr) (meson eats_answer eats_length le_less_trans setup_promptString_consumes)

function account_loop :: "'x programs \<Rightarrow> string \<Rightarrow> (string, 'x) act" where
  "account_loop X root w =
     (case account_round X root w of
        (Inl e, w1) \<Rightarrow> (Inl e, w1)
      | (Inr (Some dest), w1) \<Rightarrow> (Inr dest, w1)
      | (Inr None, w1) \<Rightarrow> account_loop X root w1)"
  by pat_completeness auto
termination
  by (relation "measure (\<lambda>(_, _, w). length (w_in w))") (auto dest: account_round_consumes [OF sym])

declare account_loop.simps [simp del]

definition setupServiceAccount :: "'x programs \<Rightarrow> string \<Rightarrow> (string, 'x) act" where
  "setupServiceAccount X root = bindA (put_lineA ''Step 1: Google service account'') (\<lambda>_. account_loop X root)"

section \<open>The rclone remote\<close>

definition drive_option :: "SharedDrive \<Rightarrow> string" where
  "drive_option d = sd_Name d @ ''  ('' @ sd_ID d @ '')''"

definition api_hint :: string where
  "api_hint = ''has the Drive API been enabled on this service account's GCP project?'' @ [newline]
     @ ''  (console.cloud.google.com/apis/api/drive.googleapis.com/overview?project=<id>)''"

definition quota_hint :: string where
  "quota_hint = ''a service account has no personal My Drive storage quota and can only use a Shared'' @ [newline]
     @ ''  Drive it's been added to (at least Content Manager) - create one and add this service'' @ [newline]
     @ ''  account, then run `dockvault setup` again''"

text \<open>\<open>NewWizard\<close> binds an rclone client without a remote.\<close>

definition NewWizard :: rclone_client where
  "NewWizard = rc_New []"

definition choose_drive :: "string \<Rightarrow> SharedDrive list \<Rightarrow> (SharedDrive, 'x) act" where
  "choose_drive remoteName drives =
     (if drives = []
      then failA (hintf quota_hint (errorf (''service account '' @ quote remoteName @ '' can see zero Shared Drives'')))
      else bindA (SelectOne ''Select the Shared Drive to back up to:'' (map drive_option drives)) (\<lambda>idx.
             returnA (drives ! nat idx)))"

definition setupRcloneRemote :: "'x programs \<Rightarrow> string \<Rightarrow> (string, 'x) act" where
  "setupRcloneRemote X saPath =
     bindA (put_lineA ''Step 2: rclone remote'') (\<lambda>_.
     bindA (setup_promptString ''rclone remote name'' ''dockvault_backup'') (\<lambda>answer.
     let remoteName = (if answer = [] then ''dockvault_backup'' else answer) in
     bindA (wrapA (wrapf (''configuring rclone remote '' @ quote remoteName))
              (rc_ConfigureServiceAccountRemote X NewWizard remoteName saPath [])) (\<lambda>_.
     bindA (wrapA (\<lambda>e. hintf api_hint (wrapf (''listing Shared Drives visible to '' @ quote remoteName) e))
              (rc_ListSharedDrives X NewWizard remoteName)) (\<lambda>drives.
     bindA (choose_drive remoteName drives) (\<lambda>chosen.
     bindA (wrapA (wrapf (''finalizing rclone remote '' @ quote remoteName @ '' against '' @ quote (sd_Name chosen)))
              (rc_ConfigureServiceAccountRemote X NewWizard remoteName saPath (sd_ID chosen))) (\<lambda>_.
     bindA (wrapA (wrapf (''confirming access to '' @ quote (sd_Name chosen) @ '' after finalizing remote '' @ quote remoteName))
              (rc_ListSharedDrives X NewWizard remoteName)) (\<lambda>_.
     bindA (putA (''Confirmed: remote '' @ quote remoteName @ '' can reach '' @ quote (sd_Name chosen) @ [newline, newline])) (\<lambda>_.
       returnA remoteName))))))))"

section \<open>The defaults\<close>

definition setupConfigDefaults :: "string \<Rightarrow> string \<Rightarrow> (unit, 'x) act" where
  "setupConfigDefaults root remoteName =
     bindA (put_lineA ''Step 3: defaults'') (\<lambda>_.
     bindA (wrapA (wrapf ''loading existing config'') (LoadConfig root)) (\<lambda>cfg.
     bindA (setup_promptString (''Environment tag (used in remote paths, e.g. '' @ quote ''stage'' @ '' or '' @ quote ''prod'' @ '')'')
              (c_Environment cfg)) (\<lambda>env.
     bindA (ask_valid ''Retention days'' (c_RetentionDays cfg) ValidateRetentionDays) (\<lambda>days.
     bindA (ask_valid ''Min files to keep'' (c_MinFilesToKeep cfg) ValidateMinFilesToKeep) (\<lambda>n.
     bindA (setup_promptInt ''Parallel jobs'' (c_ParallelJobs cfg)) (\<lambda>par.
     bindA (wrapA (wrapf ''saving config.json'') (SaveConfig root (cfg\<lparr>c_RcloneRemote := remoteName, c_Environment := env,
              c_RetentionDays := days, c_MinFilesToKeep := n, c_ParallelJobs := (if par < 1 then 1 else par)\<rparr>))) (\<lambda>_.
       put_lineA (''Saved to '' @ ConfigPath root))))))))"

definition setup_intro :: "string list" where
  "setup_intro = [''DockVault Setup'', ''==============='', [],
     ''This won't create a GCP service account for you - that needs GCP Console/OAuth'',
     ''access dockvault shouldn't hold. It will validate one you've already downloaded,'',
     ''wire it into an rclone remote, and confirm it can actually reach your Shared Drive.'', []]"

definition setup_Run :: "'x programs \<Rightarrow> string \<Rightarrow> (unit, 'x) act" where
  "setup_Run X root =
     bindA (forA setup_intro (\<lambda>l _. put_lineA l) ()) (\<lambda>_.
     bindA (setupServiceAccount X root) (\<lambda>saPath.
     bindA (setupRcloneRemote X saPath) (\<lambda>remoteName.
     bindA (setupConfigDefaults root remoteName) (\<lambda>_.
     bindA (put_lineA []) (\<lambda>_.
       put_lineA ''Setup complete. Next: `dockvault generate --interactive` (or --auto) to create backup jobs.'')))))"

section \<open>What a completed setup has established\<close>

definition configure_call :: "string \<Rightarrow> string \<Rightarrow> string \<Rightarrow> call" where
  "configure_call saPath remote drive = CCommand ''rclone'' [''config'', ''create'', remote, ''drive'', ''scope=drive'',
     ''service_account_file='' @ saPath, ''team_drive='' @ drive, ''--non-interactive''] None"

definition drives_call :: "string \<Rightarrow> call" where
  "drives_call remote = CCommand ''rclone'' [''backend'', ''drives'', remote @ '':''] None"

lemma command_Inr:
  "command X tool bin args shown None w = (Inr out, w') \<Longrightarrow> hist_ext w [(CCommand bin args None, True)] w'"
  by (auto simp: command_def Let_def hist_ext_def tickA_def split: prod.splits option.splits)

lemma configure_Inr:
  assumes "rc_ConfigureServiceAccountRemote X NewWizard remote sa drive w = (Inr u, w')"
  shows "hist_ext w [(configure_call sa remote drive, True)] w'"
  using assms unfolding rc_ConfigureServiceAccountRemote_def rc_run_def
  by (auto elim!: bind_Inr simp: wrap_Inr return_Inr NewWizard_def rc_New_def rc_bin_def configure_call_def dest!: command_Inr)

lemma drives_Inr:
  assumes "rc_ListSharedDrives X NewWizard remote w = (Inr ds, w')"
  shows "hist_ext w [(drives_call remote, True)] w'"
  using assms unfolding rc_ListSharedDrives_def rc_run_def
  by (auto elim!: bind_Inr simp: wrap_Inr return_Inr NewWizard_def rc_New_def rc_bin_def drives_call_def failA_def
      dest!: command_Inr split: sum.splits)

lemma choose_drive_Inr: "choose_drive remote ds w = (Inr d, w') \<Longrightarrow> d \<in> set ds \<and> hist_ext w [] w'"
proof -
  assume c: "choose_drive remote ds w = (Inr d, w')"
  then obtain i w1 where s: "SelectOne ''Select the Shared Drive to back up to:'' (map drive_option ds) w = (Inr i, w1)"
    and d: "d = ds ! nat i" "w' = w1"
    unfolding choose_drive_def by (auto elim!: bind_Inr simp: return_Inr failA_def split: if_splits)
  have "0 \<le> i \<and> i < int (length ds)" using s
    by (auto simp: SelectOne_def bindA_def put_lineA_def putA_def failA_def returnA_def split: prod.splits sum.splits if_splits)
  then have "nat i < length ds" by linarith
  with d quietD [OF quiet_questions(1) s] show ?thesis by simp
qed

lemma setupRcloneRemote_Inr:
  fixes w :: "'x world"
  assumes "setupRcloneRemote X sa w = (Inr remote, w')"
  shows "\<exists>drive w1 w2 w3 ds. w_fs w1 = w_fs w \<and> w_ext w1 = w_ext w
    \<and> rc_ConfigureServiceAccountRemote X NewWizard remote sa [] w1 = (Inr (), w2)
    \<and> rc_ListSharedDrives X NewWizard remote w2 = (Inr ds, w3) \<and> drive \<in> set ds
    \<and> hist_ext w [(configure_call sa remote [], True), (drives_call remote, True),
         (configure_call sa remote (sd_ID drive), True), (drives_call remote, True)] w'"
  using assms unfolding setupRcloneRemote_def Let_def
proof (elim bind_Inr, unfold wrap_Inr return_Inr)
  fix ds drive u w1 w2 w3 answer and w4 w5 w6 w7 w8 w9 :: "'x world" and u2 u3 u4 u5
  let ?r = "if answer = [] then ''dockvault_backup'' else answer"
  assume a: "put_lineA ''Step 2: rclone remote'' w = (Inr u, w1)"
    "setup_promptString ''rclone remote name'' ''dockvault_backup'' w1 = (Inr answer, w2)"
    "rc_ConfigureServiceAccountRemote X NewWizard ?r sa [] w2 = (Inr u2, w3)"
    "rc_ListSharedDrives X NewWizard ?r w3 = (Inr ds, w4)"
    "choose_drive ?r ds w4 = (Inr drive, w5)"
    "rc_ConfigureServiceAccountRemote X NewWizard ?r sa (sd_ID drive) w5 = (Inr u3, w6)"
    "rc_ListSharedDrives X NewWizard ?r w6 = (Inr u4, w7)"
    "putA (''Confirmed: remote '' @ quote ?r @ '' can reach '' @ quote (sd_Name drive) @ [newline, newline]) w7 = (Inr u5, w8)"
    "remote = ?r \<and> w' = w8"
  have r: "remote = ?r" "w' = w8" using a(9) by blast+
  have "hist_ext w [] w2"
    using quietD [OF quiet_put_line a(1)] quietD [OF quiet_questions(5) a(2)] by (simp add: hist_ext_def)
  moreover have "hist_ext w7 [] w8" using quietD [OF quiet_put a(8)] by simp
  ultimately have "hist_ext w [(configure_call sa remote [], True), (drives_call remote, True),
         (configure_call sa remote (sd_ID drive), True), (drives_call remote, True)] w'"
    using configure_Inr [OF a(3)] drives_Inr [OF a(4)] choose_drive_Inr [OF a(5)] configure_Inr [OF a(6)] drives_Inr [OF a(7)]
    unfolding r hist_ext_def by simp
  moreover have "drive \<in> set ds" using choose_drive_Inr [OF a(5)] by simp
  moreover have "w_fs w2 = w_fs w \<and> w_ext w2 = w_ext w"
    using a(1,2) by (auto simp: put_lineA_def putA_def setup_promptString_def bindA_def read_line_def returnA_def Let_def split: list.splits)
  ultimately show ?thesis using a(3,4) unfolding r
    by (intro exI [of _ drive] exI [of _ w2] exI [of _ w3] exI [of _ w4] exI [of _ ds]) simp
qed

text \<open>A file that is there survives the making of directories and the changing of modes.\<close>

lemma fs_read_Inr: "fs_read p fs = Inr b \<longleftrightarrow> path_clean p \<noteq> [slash] \<and> path_clean p \<noteq> ''.'' \<and> (\<exists>m t. fs_node fs p = Some (File b m t))"
  by (auto simp: fs_read_def fs_is_dir_def split: option.splits node.splits)

lemma fs_node_same: "path_clean p = path_clean q \<Longrightarrow> fs_node fs p = fs_node fs q"
  by (simp add: fs_node_def)

lemma mkdirs_read: "fs_mkdirs mode ps fs = (Inr u, fs') \<Longrightarrow> fs_read p fs = Inr b \<Longrightarrow> fs_read p fs' = Inr b"
proof (induction ps arbitrary: fs)
  case (Cons q ps)
  have "fs_read p (fs_put q (Dir mode) fs) = Inr b" if "fs_node fs q = None"
    using Cons.prems(2) that by (auto simp: fs_read_Inr fs_node_put dest: fs_node_same [of p q fs])
  then show ?case using Cons by (auto split: if_splits)
qed simp

lemma chmod_read: "fs_read p fs = Inr b \<Longrightarrow> fs_read p (snd (fs_chmod q mode fs)) = Inr b"
  by (auto simp: fs_chmod_def fs_read_Inr fs_node_put split: option.splits node.splits dest: fs_node_same [of p q fs])

lemma MkdirAll_read: "MkdirAll q mode w = (Inr u, w') \<Longrightarrow> fs_read p (w_fs w) = Inr b \<Longrightarrow> fs_read p (w_fs w') = Inr b"
  by (auto simp: MkdirAll_def sysA_def fs_mkdir_all_def tickA_def dest: mkdirs_read split: option.splits prod.splits)

lemma Chmod_read: "ignoreA (Chmod q mode) w = (r, w') \<Longrightarrow> fs_read p (w_fs w) = Inr b \<Longrightarrow> fs_read p (w_fs w') = Inr b"
  using chmod_read [of p "w_fs w" b q mode]
  by (auto simp: ignoreA_def tryA_def returnA_def Chmod_def sysA_def tickA_def split: option.splits prod.splits sum.splits if_splits)

lemma read_file_Inr: "ReadFile p w = (Inr b, w') \<Longrightarrow> fs_read p (w_fs w) = Inr b \<and> w_fs w' = w_fs w"
  by (auto simp: ReadFile_def sysA_def tickA_def split: option.splits)

definition service_account_key :: "string \<Rightarrow> bool" where
  "service_account_key data = (case unmarshal_key data of None \<Rightarrow> False
     | Some key \<Rightarrow> sa_Type key = ''service_account'' \<and> sa_ProjectID key \<noteq> [] \<and> sa_PrivateKey key \<noteq> [] \<and> sa_ClientEmail key \<noteq> [])"

lemma Validate_Inr:
  assumes "ValidateServiceAccountJSON path w = (Inr found, w')"
  shows "w_fs w' = w_fs w \<and> w_env w' = w_env w \<and> (\<exists>data. fs_read path (w_fs w) = Inr data \<and> service_account_key data)"
proof -
  from assms obtain data w1 where "ReadFile path w = (Inr data, w1)"
    and "(case unmarshal_key data of None \<Rightarrow> failA (wrapf (path @ '' doesn't look like valid JSON'') unmarshal_error)
       | Some key \<Rightarrow> (case check_key path key of Inl e \<Rightarrow> failA e | Inr found \<Rightarrow> returnA found)) w1 = (Inr found, w')"
    unfolding ValidateServiceAccountJSON_def by (auto elim!: bind_Inr simp: wrap_Inr)
  with read_file_Inr [of path w data w1] quietD [OF quiet_os(3), of path w "Inr data" w1] show ?thesis
    by (auto simp: service_account_key_def check_key_def failA_def returnA_def hist_ext_def split: option.splits sum.splits if_splits)
qed

lemma copy_Inr:
  assumes "copyServiceAccountFile X root path w = (Inr d, w')"
  shows "d = account_file root"
    and "fs_read path (w_fs w) = Inr data \<Longrightarrow> goos (w_env w) \<noteq> ''windows'' \<Longrightarrow> fs_read d (w_fs w') = Inr data"
proof -
  from assms obtain u1 u2 u4 u5 data' w1 w2 w3 w4 where m: "MkdirAll (path_join [root, ''secrets'']) 448 w = (Inr u1, w1)"
    and c: "ignoreA (Chmod (path_join [root, ''secrets'']) 448) w1 = (Inr u2, w2)" and r: "ReadFile path w2 = (Inr data', w3)"
    and wr: "WriteFile (account_file root) data' 384 w3 = (Inr u4, w4)" and t: "tightenACLsBestEffort X (account_file root) w4 = (Inr u5, w')"
    and d: "d = account_file root"
    unfolding copyServiceAccountFile_def Let_def by (auto elim!: bind_Inr simp: wrap_Inr return_Inr)
  show "d = account_file root" by (rule d)
  assume f: "fs_read path (w_fs w) = Inr data" and o: "goos (w_env w) \<noteq> ''windows''"
  have "data' = data" using read_file_Inr [OF r] Chmod_read [OF c MkdirAll_read [OF m f]] by simp
  moreover have "w_env w4 = w_env w"
    using quietD [OF quiet_os(8) m] quietD [OF quiet_ignore [OF quiet_os(9)] c] quietD [OF quiet_os(3) r] quietD [OF quiet_write_file wr]
    by (simp add: hist_ext_def)
  then have "w' = w4" using t o by (simp add: tightenACLsBestEffort_def bindA_def get_env_def returnA_def)
  ultimately show "fs_read d (w_fs w') = Inr data" using WriteFile_run(1) [OF wr] d by simp
qed

lemma confirm_files: "Confirm q dflt w = (r, w') \<Longrightarrow> w_fs w' = w_fs w \<and> w_env w' = w_env w"
  by (auto simp: Confirm_def bindA_def putA_def put_lineA_def read_line_def returnA_def failA_def Let_def split: list.splits prod.splits sum.splits if_splits)

lemma account_answer_Inr:
  assumes "account_answer X root path w = (Inr (Some d), w')"
  shows "d = account_file root \<and> (goos (w_env w) = ''windows'' \<or> (\<exists>data. fs_read d (w_fs w') = Inr data \<and> service_account_key data))"
proof -
  obtain r w1 where v: "ValidateServiceAccountJSON path w = (r, w1)" by force
  from assms v obtain p e where r: "r = Inr (p, e)"
    by (cases r) (auto simp: account_answer_def tryA_def return_Inr elim!: bind_Inr split: if_splits)
  with assms v obtain u1 u2 w2 w3 w4 w5 where l: "put_lineA (''  project:          '' @ p) w1 = (Inr u1, w2)"
      "put_lineA (''  service account:  '' @ e) w2 = (Inr u2, w3)"
    and q: "Confirm ''Use this service account?'' True w3 = (Inr True, w4)" and c: "copyServiceAccountFile X root path w4 = (Inr d, w5)"
    and o: "w_fs w' = w_fs w5"
    by (auto simp: account_answer_def tryA_def return_Inr putA_def elim!: bind_Inr split: if_splits)
  have "w_fs w4 = w_fs w1" "w_env w4 = w_env w1" using confirm_files [OF q] l by (auto simp: put_lineA_def putA_def)
  with Validate_Inr [OF v [unfolded r]] copy_Inr [OF c] o show ?thesis by metis
qed

lemma account_round_env: "account_round X root w = (r, w') \<Longrightarrow> w_env w' = w_env w"
proof -
  have "emits (\<lambda>_. True) (account_round X root)"
    unfolding account_round_def account_answer_def copyServiceAccountFile_def ValidateServiceAccountJSON_def tightenACLsBestEffort_def Let_def
    by (intro growing emits_command grows_quiet quiets)
  then show "account_round X root w = (r, w') \<Longrightarrow> w_env w' = w_env w" by (rule env_emits)
qed

lemma account_loop_Inr:
  assumes "account_loop X root w = (Inr d, w')"
  shows "d = account_file root \<and> (goos (w_env w) = ''windows'' \<or> (\<exists>data. fs_read d (w_fs w') = Inr data \<and> service_account_key data))"
  using assms
proof (induction X root w rule: account_loop.induct)
  case (1 X root w)
  obtain r w1 where a: "account_round X root w = (r, w1)" by force
  from "1.prems" a obtain x where r: "r = Inr x" by (cases r) (simp_all add: account_loop.simps [of X root w])
  show ?case
  proof (cases x)
    case None
    then have "account_loop X root w1 = (Inr d, w')" using "1.prems" a r by (simp add: account_loop.simps [of X root w])
    from "1.IH" [OF a [symmetric] r None this] show ?thesis using account_round_env [OF a] by auto
  next
    case (Some d')
    then have d: "d' = d" "w' = w1" using "1.prems" a r by (simp_all add: account_loop.simps [of X root w])
    from a [unfolded r Some d] obtain path w2 where s: "setup_promptString ''Path to your GCP service account JSON key'' [] w = (Inr path, w2)"
      and p: "account_answer X root path w2 = (Inr (Some d), w1)"
      unfolding account_round_def by (rule bind_Inr)
    have "w_env w2 = w_env w" using quietD [OF quiet_questions(5) s] by (simp add: hist_ext_def)
    with account_answer_Inr [OF p] d show ?thesis by auto
  qed
qed

definition valid_defaults :: "Config \<Rightarrow> bool" where
  "valid_defaults cfg = (ValidateRetentionDays (c_RetentionDays cfg) = None \<and> ValidateMinFilesToKeep (c_MinFilesToKeep cfg) = None
     \<and> 1 \<le> c_ParallelJobs cfg)"

lemma setupConfigDefaults_Inr:
  fixes w :: "'x world"
  assumes "setupConfigDefaults root remote w = (Inr u, w')"
  shows "\<exists>cfg. fs_read (ConfigPath root) (w_fs w') = Inr (MarshalIndent (config_json cfg)) \<and> c_RcloneRemote cfg = remote \<and> valid_defaults cfg"
proof -
  have "\<exists>cfg (w1 :: 'x world) w2. SaveConfig root cfg w1 = (Inr (), w2) \<and> w_fs w' = w_fs w2 \<and> c_RcloneRemote cfg = remote \<and> valid_defaults cfg"
    using assms unfolding setupConfigDefaults_def
    by (auto elim!: bind_Inr dest!: ask_valid_result simp: wrap_Inr put_lineA_def putA_def valid_defaults_def) force
  then obtain cfg and w1 w2 :: "'x world" where sv: "SaveConfig root cfg w1 = (Inr (), w2)" "w_fs w' = w_fs w2" and c: "c_RcloneRemote cfg = remote" "valid_defaults cfg"
    by blast
  from sv(1) obtain w3 where "WriteFile (ConfigPath root) (MarshalIndent (config_json cfg)) 384 w3 = (Inr (), w2)"
    unfolding SaveConfig_def by (rule bind_Inr)
  with WriteFile_run(1) sv(2) c show ?thesis by metis
qed

lemma quiet_defaults: "quiet (setupConfigDefaults root remote)"
  unfolding setupConfigDefaults_def setup_promptInt_def by (intro quiets)

lemma put_lines: "\<exists>out'. forA ls (\<lambda>l _. put_lineA l) () (w\<lparr>w_out := out\<rparr>) = (Inr (), w\<lparr>w_out := out'\<rparr>)"
  by (induction ls arbitrary: out) (auto simp: returnA_def bindA_def put_lineA_def putA_def)

text \<open>C12: What a setup that reports success has established. Its first step ended with a key file in the workspace which, on
  Linux and macOS, contains a service account key that passes the check. With this file the second step made exactly four calls, all successful: it
  configured the remote, listed the Shared Drives through it, configured it for one of the drives of that
  list, and listed the drives again. At the end config.json is the encoding of a configuration
  with that remote and with limits that pass validation, whatever was typed.\<close>

theorem setup_establishes:
  fixes w :: "'x world"
  assumes "setup_Run X root w = (Inr (), w')"
  shows "\<exists>out wa remote w1 (w2 :: 'x world) w3 ds drive cfg.
      setupServiceAccount X root (w\<lparr>w_out := out\<rparr>) = (Inr (account_file root), wa)
    \<and> (goos (w_env w) = ''windows'' \<or> (\<exists>data. fs_read (account_file root) (w_fs wa) = Inr data \<and> service_account_key data))
    \<and> w_fs w1 = w_fs wa \<and> w_ext w1 = w_ext wa
    \<and> rc_ConfigureServiceAccountRemote X NewWizard remote (account_file root) [] w1 = (Inr (), w2)
    \<and> rc_ListSharedDrives X NewWizard remote w2 = (Inr ds, w3) \<and> drive \<in> set ds
    \<and> w_hist w' = w_hist wa @ [(configure_call (account_file root) remote [], True), (drives_call remote, True),
        (configure_call (account_file root) remote (sd_ID drive), True), (drives_call remote, True)]
    \<and> fs_read (ConfigPath root) (w_fs w') = Inr (MarshalIndent (config_json cfg))
    \<and> c_RcloneRemote cfg = remote \<and> valid_defaults cfg"
proof -
  from assms obtain u0 sa remote w0 wa wb wc where i: "forA setup_intro (\<lambda>l _. put_lineA l) () w = (Inr u0, w0)"
    and a: "setupServiceAccount X root w0 = (Inr sa, wa)"
    and r: "setupRcloneRemote X sa wa = (Inr remote, wb)" and c: "setupConfigDefaults root remote wb = (Inr (), wc)"
    and o: "w_hist w' = w_hist wc" "w_fs w' = w_fs wc"
    unfolding setup_Run_def by (auto elim!: bind_Inr simp: put_lineA_def putA_def)
  obtain out where w0: "w0 = w\<lparr>w_out := out\<rparr>" using put_lines [where ls = setup_intro and w = w and out = "w_out w"] i by auto
  from a obtain out' where l: "account_loop X root (w\<lparr>w_out := out'\<rparr>) = (Inr sa, wa)"
    by (auto simp: setupServiceAccount_def w0 bindA_def put_lineA_def putA_def)
  from account_loop_Inr [OF l] have sa: "sa = account_file root"
    and k: "goos (w_env w) = ''windows'' \<or> (\<exists>data. fs_read (account_file root) (w_fs wa) = Inr data \<and> service_account_key data)" by auto
  from setupRcloneRemote_Inr [OF r [unfolded sa]] obtain drive w1 w2 w3 ds where d: "w_fs w1 = w_fs wa" "w_ext w1 = w_ext wa"
      "rc_ConfigureServiceAccountRemote X NewWizard remote (account_file root) [] w1 = (Inr (), w2)"
      "rc_ListSharedDrives X NewWizard remote w2 = (Inr ds, w3)" "drive \<in> set ds"
    and h: "hist_ext wa [(configure_call (account_file root) remote [], True), (drives_call remote, True),
         (configure_call (account_file root) remote (sd_ID drive), True), (drives_call remote, True)] wb" by blast
  from setupConfigDefaults_Inr [OF c] obtain cfg where g: "fs_read (ConfigPath root) (w_fs w') = Inr (MarshalIndent (config_json cfg))"
    "c_RcloneRemote cfg = remote" "valid_defaults cfg" using o by auto
  have "w_hist w' = w_hist wa @ [(configure_call (account_file root) remote [], True), (drives_call remote, True),
        (configure_call (account_file root) remote (sd_ID drive), True), (drives_call remote, True)]"
    using h quietD [OF quiet_defaults c] o by (simp add: hist_ext_def)
  with a [unfolded w0 sa] k d g show ?thesis by blast
qed

section \<open>A completed setup\<close>

definition setup_tools :: "unit programs" where
  "setup_tools bin args stdin fs x =
     (\<lparr>oc_stdout = (if hd args = ''backend'' then Marshal (JArr [JObj [(''id'', JStr ''D1''), (''name'', JStr ''Backups'')]]) else []),
       oc_stderr = [], oc_error = None\<rparr>, fs, x)"

definition sample_key :: string where
  "sample_key = Marshal (JObj [(''type'', JStr ''service_account''), (''project_id'', JStr ''p''), (''private_key'', JStr ''k''),
     (''client_email'', JStr ''e'')])"

definition answers :: "string list" where
  "answers = [''/x'', ''/k'', [], [], ''1'', [], ''-3'', ''7'', ''x'', ''2'', ''0'']"

definition setup_at :: "fsys \<Rightarrow> nat \<Rightarrow> nat \<Rightarrow> (call \<times> bool) list \<Rightarrow> string \<Rightarrow> unit world" where
  "setup_at fs t k h out = sample_world\<lparr>w_fs := fs, w_tick := t, w_in := drop k answers, w_hist := h, w_out := out\<rparr>"

definition fs_before :: fsys where
  "fs_before = [(''/'', Dir 493), (''/k'', File sample_key 420 0)]"

definition fs_after :: fsys where
  "fs_after = fs_before @ [(''/w'', Dir 448), (''/w/secrets'', Dir 448),
     (''/w/secrets/gcp-service-account.json'', File sample_key 384 1717200000000000000)]"

definition shown :: "'a res \<times> unit world \<Rightarrow> 'a res \<times> fsys \<times> nat \<times> string list \<times> string" where
  "shown p = (case p of (r, w) \<Rightarrow> (r, w_fs w, w_tick w, w_in w, w_err w))"

lemma setup_stages:
  "shown (setupServiceAccount setup_tools ''/w'' (setup_at fs_before 0 0 [] out))
    = (Inr ''/w/secrets/gcp-service-account.json'', fs_after, 7, drop 3 answers, [])"
  "shown (setupRcloneRemote setup_tools ''/w/secrets/gcp-service-account.json'' (setup_at fs_after 7 3 h out))
    = (Inr ''dockvault_backup'', fs_after, 11, drop 5 answers, [])"
  "is_ok (fst (setupConfigDefaults ''/w'' ''dockvault_backup'' (setup_at fs_after 11 5 h out)))"
  by code_simp+

lemma account_loop_env: "account_loop X root w = (r, w') \<Longrightarrow> w_env w' = w_env w"
proof (induction X root w rule: account_loop.induct)
  case (1 X root w)
  obtain q w1 where a: "account_round X root w = (q, w1)" by force
  have e: "w_env w1 = w_env w" by (rule account_round_env [OF a])
  show ?case using "1.prems" "1.IH" [OF a [symmetric]] a e
    by (auto simp: account_loop.simps [of X root w] split: sum.splits option.splits)
qed

lemma env_stages: "w_env (snd (setupServiceAccount X root w)) = w_env w" "w_env (snd (setupRcloneRemote X sa w)) = w_env w"
proof -
  show "w_env (snd (setupServiceAccount X root w)) = w_env w"
    by (simp add: setupServiceAccount_def bindA_def put_lineA_def putA_def account_loop_env [OF prod.collapse [symmetric]])
  have "emits (\<lambda>_. True) (setupRcloneRemote X sa)"
    unfolding setupRcloneRemote_def choose_drive_def rc_ConfigureServiceAccountRemote_def rc_ListSharedDrives_def rc_run_def Let_def
    by (intro growing emits_command grows_quiet quiets)
  then show "w_env (snd (setupRcloneRemote X sa w)) = w_env w" using prod.collapse [symmetric] by (rule env_emits)
qed

lemma setup_step:
  assumes "shown p = (r, fs, t, drop k answers, [])" and "w_env (snd p) = sample_env"
  shows "\<exists>h out. p = (r, setup_at fs t k h out)"
proof -
  have "snd p = setup_at fs t k (w_hist (snd p)) (w_out (snd p))"
    using assms by (intro world.equality) (auto simp: shown_def setup_at_def sample_world_def split: prod.splits)
  moreover have "fst p = r" using assms(1) by (auto simp: shown_def split: prod.splits)
  ultimately show ?thesis by (metis prod.collapse)
qed

lemma setup_runs: "\<exists>w'. setup_Run setup_tools ''/w'' (setup_at fs_before 0 0 [] []) = (Inr (), w')"
proof -
  have e: "w_env (setup_at fs t k h out) = sample_env" for fs t k h out by (simp add: setup_at_def sample_world_def)
  have "\<exists>out. forA setup_intro (\<lambda>l _. put_lineA l) () (setup_at fs_before 0 0 [] []) = (Inr (), setup_at fs_before 0 0 [] out)"
    unfolding setup_at_def by (rule put_lines)
  then obtain o1 where 1: "forA setup_intro (\<lambda>l _. put_lineA l) () (setup_at fs_before 0 0 [] []) = (Inr (), setup_at fs_before 0 0 [] o1)" ..
  obtain h2 o2 where 2: "setupServiceAccount setup_tools ''/w'' (setup_at fs_before 0 0 [] o1)
      = (Inr ''/w/secrets/gcp-service-account.json'', setup_at fs_after 7 3 h2 o2)"
    using setup_step [OF setup_stages(1)] env_stages e by metis
  obtain h3 o3 where 3: "setupRcloneRemote setup_tools ''/w/secrets/gcp-service-account.json'' (setup_at fs_after 7 3 h2 o2)
      = (Inr ''dockvault_backup'', setup_at fs_after 11 5 h3 o3)"
    using setup_step [OF setup_stages(2)] env_stages e by metis
  obtain w4 where "setupConfigDefaults ''/w'' ''dockvault_backup'' (setup_at fs_after 11 5 h3 o3) = (Inr (), w4)"
    using is_ok_run [OF setup_stages(3)] by auto
  with 1 2 3 show ?thesis by (simp add: setup_Run_def bindA_def put_lineA_def putA_def)
qed

theorem setup_establishes_witness:
  "\<exists>w' (wa :: unit world) data remote drive cfg. setup_Run setup_tools ''/w'' (setup_at fs_before 0 0 [] []) = (Inr (), w')
    \<and> fs_read (account_file ''/w'') (w_fs wa) = Inr data \<and> service_account_key data
    \<and> w_hist w' = w_hist wa @ [(configure_call (account_file ''/w'') remote [], True), (drives_call remote, True),
        (configure_call (account_file ''/w'') remote drive, True), (drives_call remote, True)]
    \<and> fs_read (ConfigPath ''/w'') (w_fs w') = Inr (MarshalIndent (config_json cfg)) \<and> c_RcloneRemote cfg = remote \<and> valid_defaults cfg"
proof -
  obtain w' where run: "setup_Run setup_tools ''/w'' (setup_at fs_before 0 0 [] []) = (Inr (), w')" using setup_runs by blast
  have os: "goos (w_env (setup_at fs_before 0 0 [] [])) \<noteq> ''windows''" by code_simp
  from setup_establishes [OF run] os run show ?thesis by blast
qed

end
