(* ===== verification/Plugins.thy ===== *)
theory Plugins
  imports Prelude
begin

text \<open>
  Registries of named things filled at startup: the contract that internal/cli's commands and
  internal/plugins share, the plugin registry (internal/plugins) and the plugin that is there
  (plugins/docksec, so far a skeleton).
\<close>

section \<open>What a registry promises\<close>

text \<open>Registering one thing after the other.\<close>

fun register_all :: "('a \<Rightarrow> (string \<times> 'a) list \<Rightarrow> (string \<times> 'a) list res) \<Rightarrow> 'a list \<Rightarrow> (string \<times> 'a) list \<Rightarrow> (string \<times> 'a) list res" where
  "register_all add [] r = Inr r"
| "register_all add (x # xs) r = (case add x r of Inl e \<Rightarrow> Inl e | Inr r' \<Rightarrow> register_all add xs r')"

locale name_registry =
  fixes add :: "'a \<Rightarrow> (string \<times> 'a) list \<Rightarrow> (string \<times> 'a) list res" and name :: "'a \<Rightarrow> string"
  assumes add_new: "map_of r (name x) = None \<Longrightarrow> \<exists>r'. add x r = Inr r' \<and> map_of r' = (map_of r)(name x \<mapsto> x)"
    and add_taken: "map_of r (name x) \<noteq> None \<Longrightarrow> \<exists>e. add x r = Inl e \<and> is_panic e"
begin

lemma all_distinct:
  assumes "distinct (map name xs)" and "\<forall>x \<in> set xs. map_of r (name x) = None"
  shows "\<exists>r'. register_all add xs r = Inr r' \<and> map_of r' = map_of r ++ map_of (map (\<lambda>x. (name x, x)) xs)"
  using assms
proof (induction xs arbitrary: r)
  case (Cons x xs)
  from Cons.prems(2) obtain r1 where r1: "add x r = Inr r1" "map_of r1 = (map_of r)(name x \<mapsto> x)" using add_new [of r x] by auto
  have new: "\<forall>y \<in> set xs. map_of r1 (name y) = None" using Cons.prems r1(2) by (auto simp: image_iff)
  from Cons.IH [OF _ new] Cons.prems(1) obtain r2 where
    r2: "register_all add xs r1 = Inr r2" "map_of r2 = map_of r1 ++ map_of (map (\<lambda>x. (name x, x)) xs)" by auto
  have "map_of (map (\<lambda>x. (name x, x)) xs) (name x) = None" using Cons.prems(1) by (auto simp: map_of_eq_None_iff)
  then have "map_of r2 = map_of r ++ map_of (map (\<lambda>x. (name x, x)) (x # xs))"
    unfolding r2(2) r1(2) by (auto simp: map_add_def fun_eq_iff split: option.split)
  moreover have "register_all add (x # xs) r = Inr r2" using r1(1) r2(1) by simp
  ultimately show ?case by blast
qed simp

lemma lookup_all:
  assumes "distinct (map name xs)"
  shows "\<exists>r. register_all add xs [] = Inr r \<and> map_of r = map_of (map (\<lambda>x. (name x, x)) xs)"
  using all_distinct [OF assms, of "[]"] by simp

lemma one_taken:
  assumes "name x \<in> name ` set xs"
  shows "\<not> is_ok (register_all add (xs @ [x]) [])"
proof -
  have "register_all add (ys @ [x]) r = Inr r' \<Longrightarrow> name x \<notin> name ` set ys \<and> map_of r (name x) = None" for ys r r'
  proof (induction ys arbitrary: r)
    case Nil
    then show ?case using add_taken [of r x] by (cases "map_of r (name x)") (auto split: sum.splits)
  next
    case (Cons y ys)
    then obtain r1 where r1: "add y r = Inr r1" "register_all add (ys @ [x]) r1 = Inr r'" by (auto split: sum.splits)
    have "map_of r (name y) = None" using add_taken [of r y] r1(1) by (cases "map_of r (name y)") auto
    then have m: "map_of r1 = (map_of r)(name y \<mapsto> y)" using add_new [of r y] r1(1) by simp
    have "name x \<notin> name ` set ys" "map_of r1 (name x) = None" using Cons.IH [OF r1(2)] by blast+
    then show ?case unfolding m by (cases "name x = name y") simp_all
  qed
  with assms show ?thesis by (auto simp: is_ok_iff)
qed

end

section \<open>Plugins\<close>

text \<open>What \<open>Run\<close> is given is a string or a value of another type, of which \<open>%T\<close> shows the name.\<close>

datatype target = TString string | TOther string

record Vulnerability =
  vu_CVE :: string
  vu_Severity :: string
  vu_Component :: string
  vu_RemediationSteps :: "string list"

text \<open>A bag of settings with values \<open>'v\<close>, and a plugin with the state \<open>'s\<close>.\<close>

type_synonym 'v PluginConfig = "string \<rightharpoonup> 'v"

record ('s, 'v) Plugin =
  pn_Name :: string
  pn_Init :: "'v PluginConfig \<Rightarrow> 's \<Rightarrow> 's res"
  pn_Run :: "'s \<Rightarrow> target \<Rightarrow> Vulnerability list res"

definition Register :: "('s, 'v) Plugin \<Rightarrow> (string \<times> ('s, 'v) Plugin) list \<Rightarrow> (string \<times> ('s, 'v) Plugin) list res" where
  "Register p r =
     (if map_of r (pn_Name p) \<noteq> None then Inl (panicf (''plugins: duplicate plugin registered: '' @ pn_Name p))
      else Inr (mput (pn_Name p) p r))"

definition Get :: "(string \<times> ('s, 'v) Plugin) list \<Rightarrow> string \<Rightarrow> ('s, 'v) Plugin res" where
  "Get r nm = (case map_of r nm of None \<Rightarrow> Inl (errorf (''plugin '' @ quote nm @ '' is not registered'')) | Some p \<Rightarrow> Inr p)"

text \<open>\<open>order\<close> is the order in which Go's map iteration visits the names.\<close>

definition List_names :: "(string list \<Rightarrow> string list) \<Rightarrow> (string \<times> ('s, 'v) Plugin) list \<Rightarrow> string list" where
  "List_names order r = order (map fst r)"

section \<open>docksec\<close>

definition ScanContainer :: "string \<Rightarrow> Vulnerability list res" where
  "ScanContainer containerID =
     Inl (errorf (''docksec.ScanContainer: not yet implemented (FYP scope, container='' @ containerID @ '')''))"

definition Remediate :: "Vulnerability \<Rightarrow> unit res" where
  "Remediate vuln = Inl (errorf (''docksec.Remediate: not yet implemented (FYP scope, cve='' @ vu_CVE vuln @ '')''))"

definition docksec_Init :: "'v PluginConfig \<Rightarrow> 'v PluginConfig \<Rightarrow> 'v PluginConfig res" where
  "docksec_Init config p = Inr config"

definition docksec_Run :: "'v PluginConfig \<Rightarrow> target \<Rightarrow> Vulnerability list res" where
  "docksec_Run p t =
     (case t of
        TString containerID \<Rightarrow> ScanContainer containerID
      | TOther ty \<Rightarrow> Inl (errorf (''docksec.Run: expected a container ID string, got '' @ ty)))"

definition docksec :: "('v PluginConfig, 'v) Plugin" where
  "docksec = \<lparr>pn_Name = ''docksec'', pn_Init = docksec_Init, pn_Run = docksec_Run\<rparr>"

section \<open>The registry keeps the promise\<close>

interpretation plugin_registry: name_registry Register pn_Name
proof
  fix r :: "(string \<times> ('s, 'v) Plugin) list" and x :: "('s, 'v) Plugin"
  show "map_of r (pn_Name x) = None \<Longrightarrow> \<exists>r'. Register x r = Inr r' \<and> map_of r' = (map_of r)(pn_Name x \<mapsto> x)"
    by (simp add: Register_def)
  show "map_of r (pn_Name x) \<noteq> None \<Longrightarrow> \<exists>e. Register x r = Inl e \<and> is_panic e"
    by (simp add: Register_def)
qed

text \<open>Plugins that are registered at startup under different names are found under their names, and no other name is;
  a name taken twice does not go unnoticed: the registration panics.\<close>

theorem plugins_found:
  assumes "distinct (map pn_Name ps)"
  shows "\<exists>r. register_all Register ps [] = Inr r
    \<and> (\<forall>p \<in> set ps. Get r (pn_Name p) = Inr p \<and> \<not> is_ok (register_all Register (ps @ [p]) []))
    \<and> (is_ok (Get r nm) \<longleftrightarrow> nm \<in> pn_Name ` set ps)"
proof -
  from plugin_registry.lookup_all [OF assms] obtain r where
    r: "register_all Register ps [] = Inr r" "map_of r = map_of (map (\<lambda>x. (pn_Name x, x)) ps)" by blast
  have "map_of r (pn_Name p) = Some p" if "p \<in> set ps" for p
    unfolding r(2) using that assms by (intro map_of_is_SomeI) (auto simp: comp_def)
  moreover have "map_of r nm = None \<longleftrightarrow> nm \<notin> pn_Name ` set ps"
    unfolding r(2) by (simp add: map_of_eq_None_iff image_image)
  ultimately show ?thesis using r(1) plugin_registry.one_taken
    by (intro exI [of _ r]) (auto simp: Get_def split: option.split)
qed

theorem plugins_found_witness:
  "\<exists>r. register_all Register [docksec] [] = Inr r \<and> Get r ''docksec'' = Inr docksec"
  using plugins_found [of "[docksec]"] by (auto simp: docksec_def)

end
