(* ===== verification/Cli.thy ===== *)
theory Cli
  imports Cli_Backup Cli_Restore Cli_View Setup Plugins Scheduler Generator
begin

text \<open>
  The program: the commands \<open>schedule\<close>, \<open>generate\<close> and \<open>setup\<close> (internal/cli/schedule.go, generate.go,
  setup.go), the registry of commands, the global flags and the dispatch (root.go), and \<open>main\<close>.
\<close>

section \<open>schedule\<close>

definition schedule_flags :: "flag_def list" where
  "schedule_flags =
     [bool_flag ''install'' False ''install systemd timer / launchd job / print Windows Task Scheduler instructions'',
      short_flag ''i'' ''install'' ''shorthand for --install'',
      bool_flag ''check'' False ''check if the scheduled backup is active'',
      short_flag ''c'' ''check'' ''shorthand for --check'',
      bool_flag ''logs'' False ''tail the most recent backup log'',
      short_flag ''l'' ''logs'' ''shorthand for --logs'',
      bool_flag ''uninstall'' False ''remove the scheduled backup'',
      string_flag ''at'' DefaultTime ''daily fire time, 24-hour HH:MM (Linux/macOS/Windows-instructions only)'']"

definition installSchedule :: "'x platform \<Rightarrow> string \<Rightarrow> string \<Rightarrow> (unit, 'x) act" where
  "installSchedule pl root at =
     bindA (EnsureLayout root) (\<lambda>_.
     bindA DetectPlatform (\<lambda>p. case p of
       PlatformLinux \<Rightarrow> bindA (InstallSystemdTimer (pl_programs pl) root at) (\<lambda>_.
         putA (''Installed and enabled dockvault-backup.timer (daily at '' @ at @ '').'' @ [newline]))
     | PlatformDarwin \<Rightarrow> bindA (InstallLaunchdJob (pl_programs pl) (pl_scan_text pl) root at) (\<lambda>_.
         putA (''Installed and loaded the DockVault launchd job (daily at '' @ at @ '').'' @ [newline]))
     | PlatformWindows \<Rightarrow> bindA executable (\<lambda>exePath.
         put_lineA (NativeWindowsScheduledTaskInstructions exePath root at))))"

definition uninstallSchedule :: "'x platform \<Rightarrow> (unit, 'x) act" where
  "uninstallSchedule pl =
     bindA DetectPlatform (\<lambda>p. case p of
       PlatformLinux \<Rightarrow> bindA (UninstallSystemdTimer (pl_programs pl)) (\<lambda>_. put_lineA ''Removed dockvault-backup.timer.'')
     | PlatformDarwin \<Rightarrow> bindA (UninstallLaunchdJob (pl_programs pl)) (\<lambda>_. put_lineA ''Removed the DockVault launchd job.'')
     | PlatformWindows \<Rightarrow> bindA (put_lineA ''Remove it manually in PowerShell (as Administrator):'') (\<lambda>_.
         put_lineA (''Unregister-ScheduledTask -TaskName '' @ quote ''DockVault-Backup'' @ '' -Confirm:$false'')))"

definition show_status :: "string \<times> error option \<Rightarrow> (unit, 'x) act" where
  "show_status r =
     (case r of (out, err) \<Rightarrow>
        bindA (if trim_space out \<noteq> [] then put_lineA out else returnA ()) (\<lambda>_.
          case err of None \<Rightarrow> returnA () | Some e \<Rightarrow> failA e))"

definition checkSchedule :: "'x platform \<Rightarrow> (unit, 'x) act" where
  "checkSchedule pl =
     bindA DetectPlatform (\<lambda>p. case p of
       PlatformLinux \<Rightarrow> bindA (CheckSystemdTimer (pl_programs pl)) show_status
     | PlatformDarwin \<Rightarrow> bindA (CheckLaunchdJob (pl_programs pl)) show_status
     | PlatformWindows \<Rightarrow> bindA (put_lineA ''Check manually in PowerShell:'') (\<lambda>_.
         put_lineA (''Get-ScheduledTask -TaskName '' @ quote ''DockVault-Backup'' @ '' | Get-ScheduledTaskInfo'')))"

text \<open>\<open>dir_time\<close> gives the modification times of directories.\<close>

definition mod_time :: "(string \<Rightarrow> instant) \<Rightarrow> string \<Rightarrow> node \<Rightarrow> instant" where
  "mod_time dir_time path n = (case n of File _ _ t \<Rightarrow> t | Dir _ \<Rightarrow> dir_time path)"

definition newer_log :: "(string \<Rightarrow> instant) \<Rightarrow> string \<Rightarrow> string \<Rightarrow> string \<times> instant \<Rightarrow> (string \<times> instant, 'x) act" where
  "newer_log dir_time dir nm latest =
     tryA (Stat (path_join [dir, nm])) (\<lambda>r. case r of
       Inl _ \<Rightarrow> returnA latest
     | Inr info \<Rightarrow> returnA (if mod_time dir_time (path_join [dir, nm]) info > snd latest
                           then (nm, mod_time dir_time (path_join [dir, nm]) info) else latest))"

definition last_lines :: "nat \<Rightarrow> string \<Rightarrow> string list" where
  "last_lines maxLines data =
     (let ls = split_on newline (trim_right (\<lambda>c. c = newline) data)
      in drop (if length ls > maxLines then length ls - maxLines else 0) ls)"

definition tailScheduleLogs :: "(string \<Rightarrow> instant) \<Rightarrow> string \<Rightarrow> (unit, 'x) act" where
  "tailScheduleLogs dir_time root =
     tryA (ReadDir (LogsDir root)) (\<lambda>r. case r of
       Inl err \<Rightarrow> if err_kind err = KNotExist then put_lineA ''No logs yet - run a backup first.'' else failA err
     | Inr entries \<Rightarrow>
         bindA (forA (map fst entries) (newer_log dir_time (LogsDir root)) ([], zero_time)) (\<lambda>(latestName, _).
           if latestName = [] then put_lineA ''No logs yet - run a backup first.''
           else let path = path_join [LogsDir root, latestName] in
             bindA (ReadFile path) (\<lambda>data.
             bindA (putA (''== '' @ path @ '' =='' @ [newline])) (\<lambda>_.
               forA (last_lines 50 data) (\<lambda>line _. put_lineA line) ()))))"

definition runSchedule :: "'x platform \<Rightarrow> Global \<Rightarrow> string list \<Rightarrow> (unit, 'x) act" where
  "runSchedule pl g args =
     bindA (Parse ''schedule'' schedule_flags args) (\<lambda>(vs, _).
     bindA (Open (g_Home g)) (\<lambda>root.
       if bool_of vs ''install'' then installSchedule pl root (string_of vs ''at'')
       else if bool_of vs ''uninstall'' then uninstallSchedule pl
       else if bool_of vs ''check'' then checkSchedule pl
       else if bool_of vs ''logs'' then tailScheduleLogs (pl_dir_time pl) root
       else put_lineA ''Specify one of --install, --check, --logs, or --uninstall. See `dockvault schedule --help`.''))"

section \<open>generate\<close>

definition missingCredentials :: "Job \<Rightarrow> bool" where
  "missingCredentials job = list_ex (\<lambda>k. mget (j_Credentials job) k = []) (CredentialEnvKeysFor (j_ServiceType job))"

definition printGeneratedJob :: "Job \<Rightarrow> bool \<Rightarrow> (unit, 'x) act" where
  "printGeneratedJob job dryRun =
     put_lineA ((if dryRun then ''[dry-run] would create'' else ''Created'') @ '' job '' @ quote (j_Name job)
       @ '' ('' @ j_BackupType job @ '') -> '' @ j_GoogleDrivePath job)"

definition generate_flags :: "Global \<Rightarrow> flag_def list" where
  "generate_flags g =
     [bool_flag ''auto'' False ''auto-detect all volumes, generate jobs without confirmation (unless --confirm)'',
      bool_flag ''interactive'' False ''wizard mode: prompt for each field'',
      bool_flag ''dry-run'' (g_DryRun g) ''print what would be created instead of writing files'',
      bool_flag ''confirm'' False ''auto-confirm all prompts (use with --auto)'']"

text \<open>The two loops over what was found; the second one's list is empty in this program.\<close>

definition generate_volume :: "'x EnvStore \<Rightarrow> string \<Rightarrow> bool \<Rightarrow> VolumeInfo \<Rightarrow> nat \<times> Job list \<Rightarrow> (nat \<times> Job list, 'x) act" where
  "generate_volume es root dry v acc =
     bindA (CreateFromVolume es root v dry) (\<lambda>job.
     bindA (printGeneratedJob job dry) (\<lambda>_.
       returnA (Suc (fst acc), snd acc @ (if missingCredentials job then [job] else []))))"

definition generate_host_path :: "'x EnvStore \<Rightarrow> string \<Rightarrow> bool \<Rightarrow> HostPathInfo \<Rightarrow> nat \<times> Job list \<Rightarrow> (nat \<times> Job list, 'x) act" where
  "generate_host_path es root dry h acc =
     bindA (CreateFromHostPath es root h dry) (\<lambda>job.
     bindA (printGeneratedJob job dry) (\<lambda>_. returnA (Suc (fst acc), snd acc)))"

definition incomplete_text :: "Job list \<Rightarrow> (unit, 'x) act" where
  "incomplete_text incomplete =
     (if incomplete = [] then returnA ()
      else bindA (putA (newline # show_int (int (length incomplete))
               @ '' job(s) may be missing credentials that couldn't be auto-detected from their container's environment:'' @ [newline])) (\<lambda>_.
           bindA (forA incomplete (\<lambda>job _. put_lineA (''  - '' @ j_Name job)) ()) (\<lambda>_.
             put_lineA ''  fix: edit the job's .env directly, or re-run with `generate --interactive` to be prompted'')))"

definition generate_jobs :: "'x EnvStore \<Rightarrow> string \<Rightarrow> bool \<Rightarrow> VolumeInfo list \<Rightarrow> HostPathInfo list \<Rightarrow> (unit, 'x) act" where
  "generate_jobs es root dry vols hostPaths =
     bindA (forA vols (generate_volume es root dry) (0, [])) (\<lambda>acc.
     bindA (forA hostPaths (generate_host_path es root dry) acc) (\<lambda>(created, incomplete).
     bindA (if \<not> dry then putA (newline # show_int (int created) @ '' job(s) created under '' @ root @ [newline]) else returnA ()) (\<lambda>_.
       incomplete_text incomplete)))"

definition runGenerate :: "'x platform \<Rightarrow> Global \<Rightarrow> string list \<Rightarrow> (unit, 'x) act" where
  "runGenerate pl g args =
     bindA (Parse ''generate'' (generate_flags g) args) (\<lambda>(vs, _).
     in_new_workspace g (\<lambda>root.
     bindA (ping pl) (\<lambda>_.
     bindA (New_detector (pl_programs pl) docker_bin (g_Environment g)) (\<lambda>det.
       if bool_of vs ''interactive'' then Wizard_Run (pl_store pl) root det (Some (services_of pl []))
       else bindA (ScanVolumes det) (\<lambda>vols.
         let total = length vols; dry = (bool_of vs ''dry-run'' \<or> g_DryRun g) in
         if total = 0 then put_lineA ''No volumes or host paths found to generate jobs for.''
         else bindA (if \<not> dry \<and> \<not> bool_of vs ''confirm''
                     then Confirm (''Create '' @ show_int (int total) @ '' backup job(s)?'') True else returnA True) (\<lambda>ok.
              if \<not> ok then put_lineA ''Aborted.'' else generate_jobs (pl_store pl) root dry vols []))))))"

section \<open>setup\<close>

definition runSetup :: "'x platform \<Rightarrow> Global \<Rightarrow> string list \<Rightarrow> (unit, 'x) act" where
  "runSetup pl g args =
     bindA (Parse ''setup'' [] args) (\<lambda>_. in_new_workspace g (setup_Run (pl_programs pl)))"

section \<open>Commands and global flags\<close>

record 'x command =
  cm_name :: string
  cm_summary :: string
  cm_run :: "Global \<Rightarrow> string list \<Rightarrow> (unit, 'x) act"

type_synonym 'x registry = "(string \<times> 'x command) list"

definition register :: "'x command \<Rightarrow> 'x registry \<Rightarrow> 'x registry res" where
  "register c registry =
     (if map_of registry (cm_name c) \<noteq> None then Inl (panicf (''dockvault: duplicate command registered: '' @ cm_name c))
      else Inr (mput (cm_name c) c registry))"

text \<open>What the \<open>init\<close> functions register, in the order of their files.\<close>

definition commands :: "'x platform \<Rightarrow> 'x command list" where
  "commands pl =
     [\<lparr>cm_name = ''backup'', cm_summary = ''Execute backup jobs'', cm_run = runBackup pl\<rparr>,
      \<lparr>cm_name = ''generate'', cm_summary = ''Create backup job pairs from detected volumes'', cm_run = runGenerate pl\<rparr>,
      \<lparr>cm_name = ''list'', cm_summary = ''Show the local $DOCKVAULT_HOME workspace as a tree'', cm_run = runList pl\<rparr>,
      \<lparr>cm_name = ''restore'', cm_summary = ''Interactive restore from Google Drive backups'', cm_run = runRestore pl\<rparr>,
      \<lparr>cm_name = ''scan'', cm_summary = ''Discover Docker volumes, containers, and host paths'', cm_run = runScan pl\<rparr>,
      \<lparr>cm_name = ''schedule'', cm_summary = ''Install/check/uninstall the daily automated backup'', cm_run = runSchedule pl\<rparr>,
      \<lparr>cm_name = ''setup'', cm_summary = ''Guided one-time setup: GCP service account, rclone remote, config defaults'', cm_run = runSetup pl\<rparr>,
      \<lparr>cm_name = ''tree'', cm_summary = ''Show the remote Google Drive backup folder as a tree'', cm_run = runTree pl\<rparr>]"

definition global_flags :: "flag_def list" where
  "global_flags =
     [string_flag ''home'' (g_Home defaultGlobal) ''override $DOCKVAULT_HOME (default: ~/dockvault_scripts)'',
      string_flag ''rclone-remote'' (g_RcloneRemote defaultGlobal) ''override rclone remote name (default: dockvault_backup)'',
      string_flag ''environment'' (g_Environment defaultGlobal) ''override the remote path's <environment> segment (default: stage)'',
      bool_flag ''dry-run'' (g_DryRun defaultGlobal) ''don't write files, don't execute backups'',
      bool_flag ''verbose'' (g_Verbose defaultGlobal) ''verbose logging'',
      bool_flag ''version'' (g_ShowVersion defaultGlobal) ''print version and exit'']"

definition global_of :: "vals \<Rightarrow> Global" where
  "global_of vs = \<lparr>g_Home = string_of vs ''home'', g_RcloneRemote = string_of vs ''rclone-remote'',
     g_Environment = string_of vs ''environment'', g_DryRun = bool_of vs ''dry-run'', g_Verbose = bool_of vs ''verbose'',
     g_ShowVersion = bool_of vs ''version'', g_ShowHelp = False\<rparr>"

definition pad_right :: "nat \<Rightarrow> string \<Rightarrow> string" where
  "pad_right n s = s @ replicate (n - length s) CHR '' ''"

definition usage_text :: "'x registry \<Rightarrow> string" where
  "usage_text registry =
     doc [''dockvault - Docker volume backup orchestration'', [], ''Usage:'',
          ''  dockvault [global flags] <command> [command flags]'', [], ''Commands:'']
     @ doc (map (\<lambda>(n, c). ''  '' @ pad_right 10 n @ '' '' @ cm_summary c) (sort_key fst registry))
     @ doc [[], ''Global flags:''] @ PrintDefaults global_flags
     @ doc [[], ''Run 'dockvault <command> --help' for command-specific flags.'']"

definition printUsage :: "'x registry \<Rightarrow> (unit, 'x) act" where
  "printUsage registry = put_errA (usage_text registry)"

text \<open>What the build put into internal/version.\<close>

record build =
  bd_Version :: string
  bd_Commit :: string
  bd_BuildDate :: string

definition plain_build :: build where
  "plain_build = \<lparr>bd_Version = ''dev'', bd_Commit = ''unknown'', bd_BuildDate = ''unknown''\<rparr>"

definition version_String :: "build \<Rightarrow> string" where
  "version_String b = ''dockvault '' @ bd_Version b @ '' (commit '' @ bd_Commit b @ '', built '' @ bd_BuildDate b @ '')''"

definition run_command :: "'x command \<Rightarrow> Global \<Rightarrow> string list \<Rightarrow> (unit, 'x) act" where
  "run_command c g args =
     tryA (cm_run c g args) (\<lambda>r. case r of
       Inl err \<Rightarrow> if err_kind err = KHelp then returnA () else failA err
     | Inr _ \<Rightarrow> returnA ())"

definition dispatch :: "build \<Rightarrow> 'x registry \<Rightarrow> Global \<Rightarrow> string list \<Rightarrow> (unit, 'x) act" where
  "dispatch b registry g rest =
     (if g_ShowVersion g then put_lineA (version_String b)
      else case rest of
        [] \<Rightarrow> printUsage registry
      | nm # args \<Rightarrow>
          if nm = ''help'' \<or> nm = ''-h'' \<or> nm = ''--help'' then printUsage registry
          else (case map_of registry nm of
            None \<Rightarrow> bindA (printUsage registry) (\<lambda>_. failA (errorf (''unknown command '' @ quote nm)))
          | Some cmd \<Rightarrow> run_command cmd g args))"

definition Execute :: "build \<Rightarrow> 'x platform \<Rightarrow> string list \<Rightarrow> (unit, 'x) act" where
  "Execute b pl args =
     (case register_all register (commands pl) [] of
        Inl e \<Rightarrow> failA e
      | Inr registry \<Rightarrow>
          bindA (parse_with (usage_text registry) global_flags args) (\<lambda>(vs, rest).
            dispatch b registry (global_of vs) rest))"

text \<open>The exit status; a panic ends the process with status 2.\<close>

definition main :: "build \<Rightarrow> 'x platform \<Rightarrow> string list \<Rightarrow> (int, 'x) act" where
  "main b pl args w =
     (case Execute b pl args w of
        (Inr _, w') \<Rightarrow> (Inr 0, w')
      | (Inl e, w') \<Rightarrow> if is_panic e then (Inr 2, w') else (Inr 1, w'\<lparr>w_err := w_err w' @ ''dockvault: '' @ err_msg e @ [newline]\<rparr>))"

section \<open>The registry of commands\<close>

interpretation command_registry: name_registry register cm_name
proof
  fix r :: "'x registry" and x :: "'x command"
  show "map_of r (cm_name x) = None \<Longrightarrow> \<exists>r'. register x r = Inr r' \<and> map_of r' = (map_of r)(cm_name x \<mapsto> x)"
    by (simp add: register_def)
  show "map_of r (cm_name x) \<noteq> None \<Longrightarrow> \<exists>e. register x r = Inl e \<and> is_panic e"
    by (simp add: register_def)
qed

lemma command_names: "map cm_name (commands pl) = [''backup'', ''generate'', ''list'', ''restore'', ''scan'', ''schedule'', ''setup'', ''tree'']"
  by (simp add: commands_def)

lemma registry_found:
  "\<exists>r. register_all register (commands pl) [] = Inr r \<and> map_of r = map_of (map (\<lambda>c. (cm_name c, c)) (commands pl))"
  by (rule command_registry.lookup_all) (simp add: command_names)

lemma Execute_parsed:
  "\<exists>r. map_of r = map_of (map (\<lambda>c. (cm_name c, c)) (commands pl))
    \<and> (\<forall>args. Execute b pl args = bindA (parse_with (usage_text r) global_flags args) (\<lambda>(vs, rest). dispatch b r (global_of vs) rest))"
  using registry_found [of pl] by (auto simp: Execute_def)

section \<open>Global flags reach the command\<close>

definition text_flags :: "string list" where
  "text_flags = [''home'', ''rclone-remote'', ''environment'']"

definition set_global :: "string \<times> string \<Rightarrow> Global \<Rightarrow> Global" where
  "set_global opt g =
     (if fst opt = ''home'' then g\<lparr>g_Home := snd opt\<rparr>
      else if fst opt = ''rclone-remote'' then g\<lparr>g_RcloneRemote := snd opt\<rparr> else g\<lparr>g_Environment := snd opt\<rparr>)"

definition flag_args :: "(string \<times> string) list \<Rightarrow> string list" where
  "flag_args opts = concat (map (\<lambda>(n, v). [''--'' @ n, v]) opts)"

lemma global_flag:
  assumes "n \<in> set text_flags"
  shows "parse_args global_flags ((''--'' @ n) # v # rest) vs = parse_args global_flags rest (mput n (FString v) vs)"
proof -
  from assms have "\<exists>f. find_flag global_flags n = Some f \<and> fl_var f = n \<and> \<not> is_bool (fl_default f)
     \<and> Flags.set_value (fl_default f) v = Inr (FString v) \<and> n \<noteq> [] \<and> hd n \<noteq> CHR ''-'' \<and> CHR ''='' \<notin> set n"
    by (auto simp: text_flags_def find_flag_def global_flags_def string_flag_def bool_flag_def is_bool_def Flags.set_value_def)
  then show ?thesis using parse_two by metis
qed

lemma global_flag_set: "n \<in> set text_flags \<Longrightarrow> global_of (mput n (FString v) vs) = set_global (n, v) (global_of vs)"
  by (auto simp: text_flags_def global_of_def set_global_def string_of_def bool_of_def)

lemma parse_global:
  assumes "\<forall>opt \<in> set opts. fst opt \<in> set text_flags"
  shows "\<exists>vs'. parse_args global_flags (flag_args opts @ rest) vs = parse_args global_flags rest vs'
    \<and> global_of vs' = fold set_global opts (global_of vs)"
  using assms
proof (induction opts arbitrary: vs)
  case (Cons opt opts)
  obtain n v where o: "opt = (n, v)" by (cases opt)
  then have n: "n \<in> set text_flags" using Cons.prems by simp
  have "parse_args global_flags (flag_args (opt # opts) @ rest) vs = parse_args global_flags (flag_args opts @ rest) (mput n (FString v) vs)"
    using global_flag [OF n] by (simp add: o flag_args_def)
  moreover obtain vs' where "parse_args global_flags (flag_args opts @ rest) (mput n (FString v) vs) = parse_args global_flags rest vs'"
    and "global_of vs' = fold set_global opts (global_of (mput n (FString v) vs))" using Cons.IH Cons.prems by auto
  ultimately show ?case using global_flag_set [OF n] by (auto simp: o)
qed (auto simp: flag_args_def)

lemma global_default: "global_of (initial global_flags) = defaultGlobal"
  by code_simp

lemma command_name:
  assumes "c \<in> set (commands pl)"
  shows "map_of (map (\<lambda>c. (cm_name c, c)) (commands pl)) (cm_name c) = Some c" and "cm_name c \<noteq> ''help''"
    and "cm_name c \<noteq> []" and "hd (cm_name c) \<noteq> CHR ''-''"
proof -
  show "map_of (map (\<lambda>c. (cm_name c, c)) (commands pl)) (cm_name c) = Some c"
    using assms command_names [of pl] by (intro map_of_is_SomeI) (auto simp: comp_def)
  have "cm_name c \<in> set (map cm_name (commands pl))" using assms by simp
  then show "cm_name c \<noteq> ''help''" "cm_name c \<noteq> []" "hd (cm_name c) \<noteq> CHR ''-''" unfolding command_names by auto
qed

lemma Execute_command:
  assumes "\<forall>opt \<in> set opts. fst opt \<in> set text_flags" and "c \<in> set (commands pl)"
  shows "Execute b pl (flag_args opts @ cm_name c # args) = run_command c (fold set_global opts defaultGlobal) args"
proof -
  obtain r where r: "map_of r = map_of (map (\<lambda>c. (cm_name c, c)) (commands pl))"
    and e: "Execute b pl (flag_args opts @ cm_name c # args)
      = bindA (parse_with (usage_text r) global_flags (flag_args opts @ cm_name c # args)) (\<lambda>(vs, rest). dispatch b r (global_of vs) rest)"
    using Execute_parsed by blast
  obtain vs where p: "parse_args global_flags (flag_args opts @ cm_name c # args) (initial global_flags) = parse_args global_flags (cm_name c # args) vs"
    and g: "global_of vs = fold set_global opts defaultGlobal" using parse_global [OF assms(1)] global_default by metis
  note n = command_name [OF assms(2)]
  have "parse_args global_flags (cm_name c # args) vs = Inr (vs, cm_name c # args)" using n(3,4) by (intro parse_stop) simp
  moreover have "g_ShowVersion (fold set_global opts defaultGlobal) = False"
    by (induction opts rule: rev_induct) (auto simp: set_global_def defaultGlobal_def)
  moreover have "cm_name c \<noteq> ''-h''" "cm_name c \<noteq> ''--help''" using n(4) by auto
  ultimately show ?thesis
    unfolding e by (auto simp: fun_eq_iff bindA_def parse_with_def p returnA_def dispatch_def g n r)
qed



section \<open>Asking for help\<close>

lemma help_parsed: "find_flag fs ''help'' = None \<Longrightarrow> parse_args fs [''--help''] vs = Inl ErrHelp"
  by (subst parse_args.simps) (simp add: parse_one_def named_def split_name_def cut_None [THEN iffD2])

lemma help_asked:
  assumes "find_flag fs ''help'' = None"
  shows "\<exists>w'. bindA (Parse nm fs [''--help'']) f w = (Inl ErrHelp, w')"
  by (simp add: Parse_def parse_with_def help_parsed [OF assms] bindA_def put_errA_def failA_def)

lemma command_help:
  assumes "c \<in> set (commands pl)"
  shows "\<exists>w'. cm_run c defaultGlobal [''--help''] w = (Inl ErrHelp, w')"
proof -
  have n: "find_flag (backup_flags g) ''help'' = None" "find_flag (generate_flags g) ''help'' = None"
    "find_flag list_flags ''help'' = None" "find_flag (restore_flags g) ''help'' = None" "find_flag schedule_flags ''help'' = None"
    "find_flag [bool_flag ''auto'' False ''full auto-detection without prompts'', output_flag] ''help'' = None"
    "find_flag tree_flags ''help'' = None" "find_flag [] ''help'' = None" for g
    by (simp_all add: find_flag_def backup_flags_def generate_flags_def list_flags_def restore_flags_def schedule_flags_def
        tree_flags_def output_flag_def bool_flag_def string_flag_def int_flag_def short_flag_def)
  show ?thesis using assms n [THEN help_asked]
    by (auto simp: commands_def runBackup_def runGenerate_def runList_def runRestore_def runScan_def runSchedule_def runSetup_def runTree_def)
qed

text \<open>C39: \<open>dockvault help\<close> and \<open>dockvault <command> --help\<close> exit with status 0, for each of the commands; \<open>dockvault --help\<close>
  prints the same usage but exits with status 1.\<close>

theorem help_exit_status:
  "fst (main b pl [''help''] w) = Inr 0 \<and> fst (main b pl [''--help''] w) = Inr 1
    \<and> list_all (\<lambda>c. fst (main b pl [cm_name c, ''--help''] w) = Inr 0) (commands pl)"
proof (intro conjI)
  obtain r where r: "map_of r = map_of (map (\<lambda>c. (cm_name c, c)) (commands pl))"
    and e: "Execute b pl args = bindA (parse_with (usage_text r) global_flags args) (\<lambda>(vs, rest). dispatch b r (global_of vs) rest)" for args
    using Execute_parsed by blast
  have "find_flag global_flags ''help'' = None" by (simp add: find_flag_def global_flags_def string_flag_def bool_flag_def)
  from help_parsed [OF this] show "fst (main b pl [''--help''] w) = Inr 1"
    by (simp add: main_def e parse_with_def bindA_def put_errA_def failA_def ErrHelp_def is_panic_def)
  have "parse_args global_flags [''help''] (initial global_flags) = Inr (initial global_flags, [''help''])" by (rule parse_stop) simp
  then show "fst (main b pl [''help''] w) = Inr 0"
    by (simp add: main_def e parse_with_def bindA_def returnA_def dispatch_def global_default defaultGlobal_def printUsage_def put_errA_def)
  show "list_all (\<lambda>c. fst (main b pl [cm_name c, ''--help''] w) = Inr 0) (commands pl)"
    unfolding list_all_iff
  proof
    fix c assume c: "c \<in> set (commands pl)"
    have "Execute b pl (flag_args [] @ cm_name c # [''--help'']) = run_command c (fold set_global [] defaultGlobal) [''--help'']"
      using c by (intro Execute_command) simp_all
    moreover obtain w' where "cm_run c defaultGlobal [''--help''] w = (Inl ErrHelp, w')" using command_help [OF c] by blast
    ultimately show "fst (main b pl [cm_name c, ''--help''] w) = Inr 0"
      by (simp add: main_def flag_args_def run_command_def tryA_def ErrHelp_def is_panic_def returnA_def)
  qed
qed

section \<open>Dry runs of generate\<close>

lemma reads_generate [reading]: "reads (generate_jobs es root True vols hostPaths)"
  unfolding generate_jobs_def generate_volume_def generate_host_path_def CreateFromVolume_def CreateFromHostPath_def
    printGeneratedJob_def incomplete_text_def
  by (intro reading)

text \<open>A dry run of \<open>generate\<close> creates nothing: whatever was found and whatever the credential store does, no file changes.\<close>

theorem generate_dry_run: "w_fs (snd (generate_jobs es root True vols hostPaths w)) = w_fs w"
  using readsD [OF reads_generate] by (metis prod.collapse)

end
