(* ===== verification/Spec2Isabelle.thy ===== *)
theory Spec2Isabelle
  imports Naming GoTime Restore Env_Store Lock_Refinement Generator Scheduler Recovery Cli_Backup Cli_Restore Cli_View Setup Plugins Cli
begin

text \<open>
  A verification development for dockvault, the Go program under src/ that finds the docker volumes,
  databases and host directories of a machine, backs them up to a remote that rclone reaches, verifies
  what it uploaded, prunes old backups, and restores. The theories follow the program's packages; a
  definition has the name of the function or type it translates, with the package or the receiver in
  front where two would clash (\<open>rc_Upload\<close>, \<open>d_Exec\<close>, \<open>n8n_backup\<close>, \<open>PostgresRestorer_Restore\<close>).


  THE PROGRAM AND ITS MODEL

  The machine. World holds the state that all effects go through: \<open>w_fs\<close>, the files (a list from
  cleaned absolute paths to \<open>node\<close>s with content, mode and modification time), \<open>w_in\<close>, \<open>w_out\<close> and
  \<open>w_err\<close>, the standard streams, \<open>w_tick\<close>, the number of system calls made, \<open>w_hist\<close>, the calls made
  to docker, rclone and the webhook's server with whether they succeeded (and, for a hash request, the answer), and \<open>w_ext\<close>, the state of
  those external programs, of an arbitrary type. A Go function that may fail or has effects is an
  \<open>act\<close>: it takes a world to a result (\<open>Inl\<close> an error, \<open>Inr\<close> a value) and a world. \<open>bindA\<close> is the
  early return on an error, \<open>wrapA\<close> the rewording of an error, \<open>tryA\<close> an error the code looks at,
  \<open>ignoreA\<close> one it drops, \<open>deferA\<close> and \<open>cleanupA\<close> deferred calls. A panic is an error of kind
  \<open>KPanic\<close>, which only deferred calls see.

  What the program cannot choose is an oracle in \<open>w_env\<close>: the clock, which system call fails and after
  how many bytes, random names, the environment variables, the visiting order of Go maps, the hash
  functions, gzip, the liveness of processes, the cancellation of the context by a signal. No action
  changes it, and the theorems hold for every choice. The external programs are a parameter: of
  Process (what a command line prints, its exit, its effect on files and \<open>w_ext\<close>) for docker and
  rclone, and of the records \<open>DockerClient\<close> and \<open>RcloneClient\<close> of Backup_Core for the executors, as in
  the source, where they are interfaces.

  Theories, from the bottom up:
    Prelude, GoPath, GoTime, GoDuration, Json, Flags: what the source uses of Go's strings, strconv,
      path, time, encoding/json and flag; Go maps as association lists with distinct keys.
    Validators (internal/utils/validators.go), Naming (internal/detector/naming.go, service_types.go
      and the names in detector.go).
    World, Process: the machine and running a program. Histories, Input, Reads: which calls a composed
      action can make, what it leaves of the standard input and whether it changes a file.
      Sample_Runs: examples, step by step.
    Rclone_Client, Docker_Client: the two clients (internal/rclone, internal/docker).
    Backup_Core, Executors: internal/backup: job, manifest, verified upload, local retention,
      bookkeeping and webhook; the eight strategies under internal/backup/*.
    Restore: internal/restore. Recovery: a backup and a later restore together.
    Workspace, Env_Store, Lock, Lock_Refinement: internal/workspace and internal/secrets: config.json,
      job.json, manifest.json, the two credential stores, the lock file: the action \<open>Lock\<close> of one process,
      the relation \<open>lock_step\<close> of many, and that the action follows the relation.
    Terminal, Logger: internal/utils/colors.go and selectors.go, the prompts, internal/logger.
    Detector, Generator: internal/detector's scans, internal/generator with its wizard.
    Scheduler, Setup: internal/scheduler, internal/setup.
    Plugins: internal/plugins and plugins/docksec.
    Cli_Base, Cli_Backup, Cli_Restore, Cli_View, Cli: internal/cli, internal/version and
      cmd/dockvault/main.go. \<open>main\<close> maps the arguments to an exit status: \<open>Execute\<close> parses the global
      flags and looks the command up, the command opens the workspace (\<open>in_workspace\<close>), takes the lock
      and calls the packages above with the clients of \<open>services_of\<close>.


  INTERFACES

  \<open>backup_executor\<close> (Executors): a strategy only extends the history of calls, and if it succeeds it has
    run the verified upload. Interpreted for all eight strategies.
  \<open>restorer\<close> (Restore): no call besides downloads and hash requests before the archive was checked, and
    only the allowed kinds of calls after. Interpreted for all eight strategies.
  \<open>env_store\<close> (Env_Store): what is saved for a job is loaded again. Interpreted for the .env file; for
    Windows it is a theorem over the documented behaviour of CredWriteW and CredReadW.
  \<open>name_registry\<close> (Plugins): a registry of named things. Interpreted for the plugins' and the commands'.


  WHAT THE LEMMAS SHOW

  Backup: an upload that succeeds was compared with the remote's hash before anything was pruned, and
  one that fails has pruned nothing (\<open>UploadArchive_verified\<close>); pruning deletes exactly the files that
  are old enough and never one of the newest \<open>minFilesToKeep\<close> (\<open>Prune_deletes_selected\<close>,
  \<open>Prune_never_deletes_newest\<close>); each strategy's success implies that upload; the SQL strategies upload
  the dump they got; n8n's container is started again however the backup ends; redis waits for a save at
  most 60 polls; the status, duration and size of every run are recorded. The command as a whole:
  exit status 0 means that every selected job was backed up in that run (\<open>runBackup_complete\<close>), and its
  pool of goroutines never runs more than \<open>--parallel\<close> jobs, runs each once, never gets stuck and ends
  (\<open>runJobs_pool\<close>).

  Both: a restore of a postgres, mysql or mongodb backup feeds the database the bytes that the dump printed
  (\<open>backup_then_restore\<close>, at the end of this theory); of the remote it is only assumed that it later delivers
  the object whose hash it reported during the backup.

  Restore: nothing is touched before the archive was checked against its manifest, the databases
  are fed the checked bytes, the manifest that a backup writes is the one that a restore accepts, only
  some strategies stop a container, and none of it happens unless RESTORE was typed.

  State: config.json, job.json with its credentials and manifest.json are read back as written; an
  update of the manifest is a map update; the lock excludes within 24 hours, can be taken over after,
  and the race that remains then is a theorem too (\<open>lock_steal_race\<close>). Each system call of the action \<open>Lock\<close>
  is a step of \<open>lock_step\<close> (\<open>Lock_refines\<close>), so that the action itself returns an error while
  another process owns the lock (\<open>Lock_excludes\<close>).

  Discovery and dialogue: what a scan proposes and which variables it takes for credentials, valid job
  names, injective remote paths; the wizards end, save only validated values, and the setup leaves what
  it promises; the text of a scan does not depend on the secrets it found; error messages of docker
  commands hide passwords passed in the covered ways; a dry run runs no program or changes no file.

  Some theorems state defects: \<open>lock_steal_race\<close>, \<open>env_file_losses\<close>, \<open>FormatBytes_range\<close>,
  \<open>GenerateJobName_collision\<close>, \<open>generic_volumes_collide\<close>, \<open>lexical_order_not_chronological\<close>,
  \<open>RedactArgs_short_flags\<close>, \<open>resolve_default_loses\<close>, and the one exception in \<open>help_exit_status\<close>.


  BOUNDS AND FUEL

  \<open>mkdir_temp\<close> tries 10000 names, as os.MkdirTemp does; \<open>wait_for_save\<close> polls 60 times, the constant of
  redis.go; \<open>walkEnv\<close> descends \<open>envScanDepth\<close> directories. Loops that ask again recurse on the number of
  input lines left: each round consumes one (\<open>SelectOne_consumes\<close>, \<open>prompt_int_consumes\<close>,
  \<open>account_round_consumes\<close>), and at the end of the input every prompt fails. The wizard's main loop has
  fuel \<open>wizard_rounds\<close>, one more than the lines there are, which \<open>wizard_ends\<close> shows to be enough; Json's
  decoder has the length of its input, which \<open>json_roundtrip\<close> covers for everything the encoder
  writes. Integers are \<open>int\<close>: they come from parsers that reject what does not fit, and sizes, days and
  counts stay far from \<open>2 ^ 63\<close>; lengths in the Windows store are checked against its limit as the code does.


  SIMPLIFICATIONS

  The local time zone is UTC. sort.Slice is taken to be stable. A Go map is visited in the order of
  \<open>map_order\<close> where that can be observed. A nil and an empty slice are one value except where JSON tells
  them apart. The goroutines of \<open>runJobs\<close> are a transition system for what is about their number and
  order; their bodies run one after another, in the order of finishing, an oracle of \<open>platform\<close>
  (\<open>pl_order\<close>), of which \<open>runBackup_complete\<close> assumes only that it is an order in which some run of that
  transition system ends (\<open>pool_order\<close>). strings.ToLower, ToUpper and TrimSpace act on the ASCII characters. Directory modification times and the wording of Sscanf errors are parameters
  (\<open>pl_dir_time\<close>, \<open>pl_scan_text\<close>). The lines written by the logger's mutex-protected method are one step.


  NOT MODELLED

  The test seams (SetPollIntervalForTest, SetGOOSForTest and the like) and the tests; the loading of
  advapi32.dll and the freeing of its buffers; the delivery of signals, of which only the cancelled
  context is left; the shell scripts and documents around the program. The texts that os, json and the
  external programs put into their own errors come from the oracles.
\<close>

section \<open>A database backup comes back\<close>

text \<open>C1: A database comes back. Take a successful backup of a postgres, mysql or mongodb database during
  which the remote reported, for some object, the MD5 of what it keeps under that name, and any later successful restore from that object. Then the
  restore made nothing but downloads before it fed the database one input, and this input is, byte for byte, what the
  dump command printed during the backup, whatever the remote kept under that name (unless
  what it kept is another archive with the same MD5, which is all the upload's check compares).\<close>

theorem backup_then_restore:
  assumes "(backup, dump_cmd, env, z, restore, load_cmd) \<in> set database_strategies"
    and "backup sv job w = (Inr status, w')" and "restore sv job' file v = (Inr warning, v')"
    and "(CHashsum (bf_Path file) (md5_hex (w_env w) c), True) \<in> set (drop (length (w_hist w)) (w_hist w'))"
    and "keeps sv (bf_Path file) c" and "bf_Name file = path_base (bf_Path file)" and "\<forall>x. gunzip (w_env v) (gzip (w_env w) x) = Inr x"
  shows "\<exists>dump w0 es x. dk_Exec (sv_docker sv) (j_ContainerName job) (dump_cmd job) (env job) None w = (Inr dump, w0)
    \<and> w_hist v' = w_hist v @ es @ [(CExec (j_ContainerName job') (load_cmd job') (env job') (Some x), True)] \<and> only_downloads es
    \<and> (x = dump \<or> collision (md5_hex (w_env w)) c (packed z (w_env w) dump))"
proof -
  obtain dump w0 where d: "dk_Exec (sv_docker sv) (j_ContainerName job) (dump_cmd job) (env job) None w = (Inr dump, w0)"
    "md5_hex (w_env w) c = md5_hex (w_env w) (packed z (w_env w) dump)"
    using uploaded_hash [OF database_strategies_run(1) [OF assms(1,2)] assms(4)] by blast
  obtain es x where f: "w_hist v' = w_hist v @ es @ [(CExec (j_ContainerName job') (load_cmd job') (env job') (Some x), True)]" "only_downloads es"
    "if z then gunzip (w_env v) c = Inr x else x = c"
    using fed_bytes [OF database_strategies_run(2) [OF assms(1,3)] assms(5,6)] by blast
  have "x = dump" if "c = packed z (w_env w) dump" using f(3) assms(7) that by (auto simp: packed_def split: if_splits)
  then show ?thesis using d f(1,2) unfolding collision_def by blast
qed

theorem backup_then_restore_witness:
  "\<exists>es. w_hist (snd (PostgresRestorer_Restore keeping_services sample_database sample_object_file sample_world))
    = es @ [(CExec ''c'' [''psql'', ''-U'', ''u'', ''d''] [] (Some ''dump''), True)] \<and> only_downloads es"
proof -
  obtain status w' where b: "postgres_backup keeping_services sample_database sample_world = (Inr status, w')"
    and "(CHashsum sample_object ''4'', True) \<in> set (w_hist w')" using sample_backup_runs by blast
  then have h: "(CHashsum (bf_Path sample_object_file) (md5_hex (w_env sample_world) ''dump''), True)
      \<in> set (drop (length (w_hist sample_world)) (w_hist w'))"
    using sample_remote_keeps(2) by (simp add: sample_object_file_def sample_world_def)
  obtain warning v' where r: "PostgresRestorer_Restore keeping_services sample_database sample_object_file sample_world = (Inr warning, v')"
    using sample_restore_runs by (auto simp: is_ok_iff) (metis prod.collapse)
  have s: "(postgres_backup, pg_dump_cmd, \<lambda>job. env_if ''PGPASSWORD'' (mget (j_Credentials job) ''POSTGRES_PASSWORD''), True, PostgresRestorer_Restore,
      \<lambda>job. [''psql'', ''-U'', mget (j_Credentials job) ''POSTGRES_USER'', mget (j_Credentials job) ''POSTGRES_DB'']) \<in> set database_strategies"
    by (simp add: database_strategies_def)
  have k: "bf_Name sample_object_file = path_base (bf_Path sample_object_file)" "w_env sample_world = sample_env" "w_hist sample_world = []"
    "keeps keeping_services (bf_Path sample_object_file) ''dump''"
    "\<forall>x. gunzip (w_env sample_world) (gzip (w_env sample_world) x) = Inr x"
    using sample_remote_keeps(1) by (simp_all add: sample_object_file_def sample_world_def) (simp add: sample_env_def)
  have j: "j_ContainerName sample_database = ''c''" "mget (j_Credentials sample_database) ''POSTGRES_PASSWORD'' = []"
    "mget (j_Credentials sample_database) ''POSTGRES_USER'' = ''u''" "mget (j_Credentials sample_database) ''POSTGRES_DB'' = ''d''"
    by code_simp+
  have p: "packed True (w_env sample_world) x = x" for x by (simp add: packed_def k(2) sample_env_def)
  from backup_then_restore [OF s b r h k(4,1,5)] show ?thesis
    unfolding p keeping_exec k(3) j env_if_def collision_def r snd_conv by auto
qed

end
